(* ===== verification/TG_Prelude.thy ===== *)
theory TG_Prelude
  imports Main "HOL-Library.Char_ord" "HOL-Library.List_Lexorder" "HOL-Library.Word"
begin

text \<open>
  The vocabulary every component of the gateway model shares: Go's strings and byte slices,
  \<open>int64\<close> arithmetic, instants and durations, the handful of \<open>strings\<close> package functions the
  sources call, and the combinators that turn a chain of early returns into one expression.

  A Go \<open>string\<close> or JSON document is a HOL \<^typ>\<open>string\<close>; HOL characters are bytes, as Go's are.
  Binary slices (digests, UUIDs, keys, secrets) are lists of \<open>8 word\<close>. Go's \<open>int64\<close> and \<open>int\<close>
  are \<^typ>\<open>int\<close> with the wrap-around written out by \<open>wrap64\<close> wherever the sources compute.
\<close>

named_theorems go_validators
  \<open>unfolding rules of the validators, used to invert \<open>Validate = None\<close>\<close>

section \<open>Machine integers, instants and durations\<close>

type_synonym byte = "8 word"
type_synonym bytes = "byte list"

definition max_int64 :: int where
  "max_int64 = 2 ^ 63 - 1"

definition min_int64 :: int where
  "min_int64 = - (2 ^ 63)"

definition wrap64 :: "int \<Rightarrow> int" where
  "wrap64 x = (x + 2 ^ 63) mod 2 ^ 64 - 2 ^ 63"

definition is_int64 :: "int \<Rightarrow> bool" where
  "is_int64 x \<longleftrightarrow> min_int64 \<le> x \<and> x \<le> max_int64"

text \<open>Go's integer division truncates towards zero.\<close>

definition quot64 :: "int \<Rightarrow> int \<Rightarrow> int" where
  "quot64 a b = sgn a * sgn b * (\<bar>a\<bar> div \<bar>b\<bar>)"

lemma wrap64_id [simp]: "is_int64 x \<Longrightarrow> wrap64 x = x"
  by (simp add: is_int64_def wrap64_def min_int64_def max_int64_def)

lemma is_int64_wrap64 [simp]: "is_int64 (wrap64 x)"
proof -
  have "0 \<le> (x + 2 ^ 63) mod 2 ^ 64" "(x + 2 ^ 63) mod 2 ^ 64 < (2 ^ 64 :: int)"
    by simp_all
  then show ?thesis
    by (simp add: is_int64_def wrap64_def min_int64_def max_int64_def)
qed

lemma int_le_div_iff: "0 < a \<Longrightarrow> m \<le> M div a \<longleftrightarrow> a * m \<le> (M :: int)"
proof
  assume "0 < a" "m \<le> M div a"
  then have "a * m \<le> a * (M div a)" by simp
  also have "\<dots> \<le> M" using \<open>0 < a\<close> by (simp add: minus_mod_eq_mult_div [symmetric])
  finally show "a * m \<le> M" .
next
  assume "0 < a" "a * m \<le> M"
  then have "a * m div a \<le> M div a" by (intro zdiv_mono1) simp_all
  with \<open>0 < a\<close> show "m \<le> M div a" by simp
qed

lemma quot64_nonneg: "0 \<le> a \<Longrightarrow> 0 < b \<Longrightarrow> quot64 a b = a div b"
  by (cases "a = 0") (simp_all add: quot64_def sgn_if)

text \<open>
  An instant is the number of nanoseconds since Go's zero time, so \<open>IsZero\<close> is \<open>= 0\<close>. A
  duration is a number of nanoseconds. \<open>time.Time.Sub\<close> saturates at the ends of \<open>int64\<close>.
\<close>

type_synonym instant = int
type_synonym duration = int

definition IsZero :: "instant \<Rightarrow> bool" where
  "IsZero t \<longleftrightarrow> t = 0"

definition time_Sub :: "instant \<Rightarrow> instant \<Rightarrow> duration" where
  "time_Sub t u = max min_int64 (min max_int64 (t - u))"

definition Millisecond :: duration where "Millisecond = 1000000"
definition Second :: duration where "Second = 1000000000"
definition Minute :: duration where "Minute = 60 * Second"
definition Hour :: duration where "Hour = 60 * Minute"

definition unix_epoch_seconds :: int where
  "unix_epoch_seconds = 62135596800"

definition time_Unix :: "int \<Rightarrow> instant" where
  "time_Unix s = (s + unix_epoch_seconds) * 1000000000"

definition UnixMilli :: "instant \<Rightarrow> int" where
  "UnixMilli t = (t - unix_epoch_seconds * 1000000000) div 1000000"

definition time_to_unix :: "instant \<Rightarrow> int" where
  "time_to_unix t = (t - unix_epoch_seconds * 1000000000) div 1000000000"

lemmas duration_defs = Hour_def Minute_def Second_def Millisecond_def

lemma time_to_unix_Unix [simp]: "time_to_unix (time_Unix s) = s"
  by (simp add: time_to_unix_def time_Unix_def algebra_simps)

lemma time_Sub_le_iff:
  "is_int64 d \<Longrightarrow> d < max_int64 \<Longrightarrow> time_Sub t u \<le> d \<longleftrightarrow> t - u \<le> d"
  by (auto simp: time_Sub_def is_int64_def min_int64_def max_int64_def)

section \<open>Early returns\<close>

text \<open>
  A Go function that returns only an \<open>error\<close> is an option, \<^const>\<open>None\<close> being \<open>nil\<close>. A function
  that returns a value and an error is a sum with the error on the left. \<open>first_err\<close> is the
  chain \<open>if err := f(); err != nil { return err }\<close>.
\<close>

fun first_err :: "'e option list \<Rightarrow> 'e option" where
  "first_err [] = None"
| "first_err (Some e # xs) = Some e"
| "first_err (None # xs) = first_err xs"

definition fail_if :: "bool \<Rightarrow> 'e \<Rightarrow> 'e option" where
  "fail_if b e = (if b then Some e else None)"

definition bind_result :: "'e + 'a \<Rightarrow> ('a \<Rightarrow> 'e + 'b) \<Rightarrow> 'e + 'b" where
  "bind_result r f = (case r of Inl e \<Rightarrow> Inl e | Inr a \<Rightarrow> f a)"

definition map_error :: "('e \<Rightarrow> 'f) \<Rightarrow> 'e + 'a \<Rightarrow> 'f + 'a" where
  "map_error g r = (case r of Inl e \<Rightarrow> Inl (g e) | Inr a \<Rightarrow> Inr a)"

definition result_err :: "'e + 'a \<Rightarrow> 'e option" where
  "result_err r = (case r of Inl e \<Rightarrow> Some e | Inr _ \<Rightarrow> None)"

definition ensure :: "'e option \<Rightarrow> 'e + 'b \<Rightarrow> 'e + 'b" where
  "ensure c r = (case c of Some e \<Rightarrow> Inl e | None \<Rightarrow> r)"

lemma first_err_None [simp]: "first_err xs = None \<longleftrightarrow> (\<forall>x \<in> set xs. x = None)"
  by (induction xs rule: first_err.induct) auto

lemma first_err_Some_mem: "first_err xs = Some e \<Longrightarrow> Some e \<in> set xs"
  by (induction xs rule: first_err.induct) auto

lemma first_err_Cons: "first_err (x # xs) = (case x of Some e \<Rightarrow> Some e | None \<Rightarrow> first_err xs)"
  by (cases x) auto

lemma fail_if_None [simp]: "fail_if b e = None \<longleftrightarrow> \<not> b"
  by (simp add: fail_if_def)

lemma fail_if_Some [simp]: "fail_if b e = Some f \<longleftrightarrow> b \<and> f = e"
  by (auto simp: fail_if_def)

lemma fail_if_simps [simp]: "fail_if True e = Some e" "fail_if False e = None"
  by (simp_all add: fail_if_def)

lemma bind_result_Inr [simp]: "bind_result r f = Inr b \<longleftrightarrow> (\<exists>a. r = Inr a \<and> f a = Inr b)"
  by (auto simp: bind_result_def split: sum.splits)

lemma bind_result_simps [simp]: "bind_result (Inl e) f = Inl e" "bind_result (Inr a) f = f a"
  by (simp_all add: bind_result_def)

lemma map_error_Inr [simp]: "map_error g r = Inr a \<longleftrightarrow> r = Inr a"
  by (auto simp: map_error_def split: sum.splits)

lemma map_error_simps [simp]: "map_error g (Inl e) = Inl (g e)" "map_error g (Inr a) = Inr a"
  by (simp_all add: map_error_def)

lemma result_err_None [simp]: "result_err r = None \<longleftrightarrow> (\<exists>a. r = Inr a)"
  by (auto simp: result_err_def split: sum.splits)

lemma result_err_simps [simp]: "result_err (Inl e) = Some e" "result_err (Inr a) = None"
  by (simp_all add: result_err_def)

lemma ensure_Inr [simp]: "ensure c r = Inr b \<longleftrightarrow> c = None \<and> r = Inr b"
  by (auto simp: ensure_def split: option.splits)

lemma ensure_simps [simp]: "ensure None r = r" "ensure (Some e) r = Inl e"
  by (simp_all add: ensure_def)

section \<open>The strings package\<close>

definition ContainsAny :: "string \<Rightarrow> string \<Rightarrow> bool" where
  "ContainsAny s cs = list_ex (\<lambda>c. c \<in> set cs) s"

text \<open>\<open>strings.Cut\<close>, \<open>strings.Split\<close> and \<open>strings.Contains\<close> for a one-byte separator.\<close>

fun Cut :: "string \<Rightarrow> char \<Rightarrow> string \<times> string \<times> bool" where
  "Cut [] sep = ([], [], False)"
| "Cut (c # cs) sep =
     (if c = sep then ([], cs, True)
      else let (before, after, found) = Cut cs sep in (c # before, after, found))"

fun Split :: "string \<Rightarrow> char \<Rightarrow> string list" where
  "Split [] sep = [[]]"
| "Split (c # cs) sep =
     (if c = sep then [] # Split cs sep
      else case Split cs sep of [] \<Rightarrow> [[c]] | p # ps \<Rightarrow> (c # p) # ps)"

fun HasPrefix :: "string \<Rightarrow> string \<Rightarrow> bool" where
  "HasPrefix s [] = True"
| "HasPrefix [] (p # ps) = False"
| "HasPrefix (c # cs) (p # ps) = (c = p \<and> HasPrefix cs ps)"

fun join_with :: "char \<Rightarrow> string list \<Rightarrow> string" where
  "join_with sep [] = []"
| "join_with sep [p] = p"
| "join_with sep (p # q # ps) = p @ sep # join_with sep (q # ps)"

lemma ContainsAny_iff: "ContainsAny s cs \<longleftrightarrow> (\<exists>c \<in> set s. c \<in> set cs)"
  by (auto simp: ContainsAny_def list_ex_iff)

lemma HasPrefix_iff: "HasPrefix s p \<longleftrightarrow> (\<exists>t. s = p @ t)"
  by (induction s p rule: HasPrefix.induct) auto

lemma HasPrefix_append [simp]: "HasPrefix (p @ s) p"
  by (simp add: HasPrefix_iff)

lemma Split_nonempty [simp]: "Split s sep \<noteq> []"
  by (cases s) (auto split: list.splits)

lemma join_Split [simp]: "join_with sep (Split s sep) = s"
proof (induction s sep rule: Split.induct)
  case (1 sep)
  then show ?case by simp
next
  case (2 c cs sep)
  show ?case
  proof (cases "Split cs sep")
    case Nil
    then show ?thesis by simp
  next
    case (Cons p ps)
    with "2.IH" show ?thesis by (cases ps) auto
  qed
qed

lemma Split_no_sep: "p \<in> set (Split s sep) \<Longrightarrow> sep \<notin> set p"
proof (induction s sep arbitrary: p rule: Split.induct)
  case (1 sep)
  then show ?case by simp
next
  case (2 c cs sep)
  show ?case
  proof (cases "Split cs sep")
    case Nil
    then show ?thesis by simp
  next
    case (Cons q ps)
    with "2" show ?thesis by (cases "c = sep") auto
  qed
qed

lemma set_join_with: "p \<in> set ps \<Longrightarrow> set p \<subseteq> set (join_with sep ps)"
  by (induction sep ps rule: join_with.induct) auto

lemma Split_subset: "p \<in> set (Split s sep) \<Longrightarrow> set p \<subseteq> set s"
  by (metis join_Split set_join_with)

lemma set_join_with_bound: "set (join_with sep ps) \<subseteq> insert sep (\<Union>p \<in> set ps. set p)"
  by (induction sep ps rule: join_with.induct) auto

lemma set_via_Split: "set s \<subseteq> insert sep (\<Union>p \<in> set (Split s sep). set p)"
  by (metis join_Split set_join_with_bound)

lemma Cut_found: "Cut s sep = (a, b, True) \<Longrightarrow> s = a @ sep # b \<and> sep \<notin> set a"
  by (induction s sep arbitrary: a b rule: Cut.induct) (auto split: if_splits prod.splits)

lemma Cut_not_found: "Cut s sep = (a, b, False) \<Longrightarrow> s = a \<and> b = [] \<and> sep \<notin> set s"
  by (induction s sep arbitrary: a b rule: Cut.induct) (auto split: if_splits prod.splits)

lemma Cut_append: "sep \<notin> set a \<Longrightarrow> Cut (a @ sep # b) sep = (a, b, True)"
  by (induction a) auto

lemma append_sep_inject:
  "sep \<notin> set a \<Longrightarrow> sep \<notin> set c \<Longrightarrow> a @ sep # b = c @ sep # d \<longleftrightarrow> a = c \<and> b = d"
proof (induction a arbitrary: c)
  case Nil
  then show ?case by (cases c) auto
next
  case (Cons x a)
  then show ?case by (cases c) auto
qed

subsection \<open>Trimming white space\<close>

text \<open>
  \<open>strings.TrimSpace\<close> removes the runes of \<open>unicode.IsSpace\<close> at both ends. Their UTF-8
  encodings are one, two or three bytes long. UTF-8 is self-synchronising, so reading the
  encoding backwards from the end finds the same runes as \<open>utf8.DecodeLastRune\<close>.
\<close>

definition space1 :: "char \<Rightarrow> bool" where
  "space1 a \<longleftrightarrow> a \<in> {CHR 0x09, CHR 0x0A, CHR 0x0B, CHR 0x0C, CHR 0x0D, CHR 0x20}"

definition space2 :: "char \<Rightarrow> char \<Rightarrow> bool" where
  "space2 a b \<longleftrightarrow> a = CHR 0xC2 \<and> b \<in> {CHR 0x85, CHR 0xA0}"

definition space3 :: "char \<Rightarrow> char \<Rightarrow> char \<Rightarrow> bool" where
  "space3 a b c \<longleftrightarrow>
     (a = CHR 0xE1 \<and> b = CHR 0x9A \<and> c = CHR 0x80) \<or>
     (a = CHR 0xE2 \<and> b = CHR 0x80 \<and>
        c \<in> {CHR 0x80, CHR 0x81, CHR 0x82, CHR 0x83, CHR 0x84, CHR 0x85, CHR 0x86, CHR 0x87,
             CHR 0x88, CHR 0x89, CHR 0x8A, CHR 0xA8, CHR 0xA9, CHR 0xAF}) \<or>
     (a = CHR 0xE2 \<and> b = CHR 0x81 \<and> c = CHR 0x9F) \<or>
     (a = CHR 0xE3 \<and> b = CHR 0x80 \<and> c = CHR 0x80)"

fun trim_gen ::
  "(char \<Rightarrow> bool) \<Rightarrow> (char \<Rightarrow> char \<Rightarrow> bool) \<Rightarrow> (char \<Rightarrow> char \<Rightarrow> char \<Rightarrow> bool) \<Rightarrow> string \<Rightarrow> string" where
  "trim_gen p q r [] = []"
| "trim_gen p q r [a] = (if p a then [] else [a])"
| "trim_gen p q r [a, b] =
     (if p a then trim_gen p q r [b] else if q a b then [] else [a, b])"
| "trim_gen p q r (a # b # c # s) =
     (if p a then trim_gen p q r (b # c # s)
      else if q a b then trim_gen p q r (c # s)
      else if r a b c then trim_gen p q r s
      else a # b # c # s)"

definition TrimLeftSpace :: "string \<Rightarrow> string" where
  "TrimLeftSpace = trim_gen space1 space2 space3"

definition TrimRightSpace :: "string \<Rightarrow> string" where
  "TrimRightSpace s =
     rev (trim_gen space1 (\<lambda>b a. space2 a b) (\<lambda>c b a. space3 a b c) (rev s))"

definition TrimSpace :: "string \<Rightarrow> string" where
  "TrimSpace s = TrimRightSpace (TrimLeftSpace s)"

lemma trim_gen_suffix: "\<exists>pre. s = pre @ trim_gen p q r s"
proof (induction p q r s rule: trim_gen.induct)
  case (2 p q r a)
  then show ?case by (cases "p a") auto
next
  case (3 p q r a b)
  then show ?case by (cases "p a"; cases "p b"; cases "q a b") simp_all
next
  case (4 p q r a b c s)
  consider "p a" | "\<not> p a" "q a b" | "\<not> p a" "\<not> q a b" "r a b c"
    | "\<not> p a" "\<not> q a b" "\<not> r a b c" by blast
  then show ?case
  proof cases
    case 1
    with "4.IH"(1) obtain pre where "b # c # s = pre @ trim_gen p q r (b # c # s)" by blast
    with 1 have "a # b # c # s = (a # pre) @ trim_gen p q r (a # b # c # s)" by simp
    then show ?thesis by blast
  next
    case 2
    with "4.IH"(2) obtain pre where "c # s = pre @ trim_gen p q r (c # s)" by blast
    with 2 have "a # b # c # s = (a # b # pre) @ trim_gen p q r (a # b # c # s)" by simp
    then show ?thesis by blast
  next
    case 3
    with "4.IH"(3) obtain pre where "s = pre @ trim_gen p q r s" by blast
    with 3 have "a # b # c # s = (a # b # c # pre) @ trim_gen p q r (a # b # c # s)" by simp
    then show ?thesis by blast
  next
    case 4
    then show ?thesis by simp
  qed
qed simp

lemma length_trim_gen: "length (trim_gen p q r s) \<le> length s"
  using trim_gen_suffix [of s p q r] by (metis length_append le_add2)

lemma trim_gen_drop: "p a \<Longrightarrow> trim_gen p q r (a # s) = trim_gen p q r s"
  by (induction p q r s rule: trim_gen.induct) simp_all

lemma trim_gen_fix_head: "trim_gen p q r (a # s) = a # s \<Longrightarrow> \<not> p a"
proof
  assume trimmed: "trim_gen p q r (a # s) = a # s" and "p a"
  then have "length (trim_gen p q r s) = Suc (length s)" by (simp add: trim_gen_drop)
  with length_trim_gen [of p q r s] show False by simp
qed

lemma TrimLeftSpace_suffix: "\<exists>pre. s = pre @ TrimLeftSpace s"
  unfolding TrimLeftSpace_def by (rule trim_gen_suffix)

lemma TrimRightSpace_prefix: "\<exists>post. s = TrimRightSpace s @ post"
proof -
  obtain pre where "rev s = pre @ trim_gen space1 (\<lambda>b a. space2 a b) (\<lambda>c b a. space3 a b c) (rev s)"
    using trim_gen_suffix by blast
  then have "s = TrimRightSpace s @ rev pre"
    unfolding TrimRightSpace_def by (metis rev_append rev_rev_ident)
  then show ?thesis by blast
qed

lemma TrimSpace_fix_left: "TrimSpace s = s \<Longrightarrow> TrimLeftSpace s = s"
proof -
  assume trimmed: "TrimSpace s = s"
  obtain pre where pre: "s = pre @ TrimLeftSpace s" using TrimLeftSpace_suffix by blast
  obtain post where post: "TrimLeftSpace s = TrimSpace s @ post"
    using TrimRightSpace_prefix unfolding TrimSpace_def by blast
  from trimmed post have "length (TrimLeftSpace s) = length s + length post"
    by (metis length_append)
  moreover from pre have "length s = length pre + length (TrimLeftSpace s)"
    by (metis length_append)
  ultimately have "pre = []" by simp
  with pre show ?thesis by simp
qed

lemma TrimSpace_fix_head: "TrimSpace (a # s) = a # s \<Longrightarrow> \<not> space1 a"
  using TrimSpace_fix_left trim_gen_fix_head unfolding TrimLeftSpace_def by blast

lemma TrimSpace_Nil [simp]: "TrimSpace [] = []"
  by (simp add: TrimSpace_def TrimLeftSpace_def TrimRightSpace_def)

text \<open>
  The reviewed-text predicate the sources write out many times: present, bounded, without
  surrounding white space and without some control bytes.
\<close>

definition bounded_text :: "nat \<Rightarrow> string \<Rightarrow> string \<Rightarrow> bool" where
  "bounded_text maximum forbidden s \<longleftrightarrow>
     s \<noteq> [] \<and> length s \<le> maximum \<and> TrimSpace s = s \<and> \<not> ContainsAny s forbidden"

lemma bounded_textD:
  assumes "bounded_text maximum forbidden s"
  shows "s \<noteq> []" "length s \<le> maximum" "TrimSpace s = s" "set s \<inter> set forbidden = {}"
  using assms by (auto simp: bounded_text_def ContainsAny_iff)

lemmas trim_eval =
  TrimSpace_def TrimLeftSpace_def TrimRightSpace_def space1_def space2_def space3_def

lemmas bounded_text_eval = bounded_text_def ContainsAny_def trim_eval

subsection \<open>Lower case\<close>

text \<open>
  \<open>strings.ToLower\<close>: ASCII letters, and the two non-ASCII letters whose lower case is an ASCII
  letter (U+212A KELVIN SIGN and U+0130). Every other non-ASCII letter lowers to a non-ASCII
  letter; all uses compare the result with ASCII text, for which leaving them alone is the same.
\<close>

definition lower_char :: "char \<Rightarrow> char" where
  "lower_char c = (if 65 \<le> (of_char c :: nat) \<and> (of_char c :: nat) \<le> 90
                   then char_of ((of_char c :: nat) + 32) else c)"

fun ToLower :: "string \<Rightarrow> string" where
  "ToLower (a # b # c # s) =
     (if a = CHR 0xE2 \<and> b = CHR 0x84 \<and> c = CHR 0xAA then CHR ''k'' # ToLower s
      else if a = CHR 0xC4 \<and> b = CHR 0xB0 then CHR ''i'' # ToLower (c # s)
      else lower_char a # ToLower (b # c # s))"
| "ToLower [a, b] =
     (if a = CHR 0xC4 \<and> b = CHR 0xB0 then [CHR ''i''] else [lower_char a, lower_char b])"
| "ToLower [a] = [lower_char a]"
| "ToLower [] = []"

section \<open>Sets built from slices\<close>

text \<open>
  The idiom \<open>if _, exists := seen[v]; exists { return err }; seen[v] = struct{}{}\<close>.
\<close>

fun first_duplicate :: "'a list \<Rightarrow> 'a list \<Rightarrow> bool" where
  "first_duplicate seen [] = False"
| "first_duplicate seen (x # xs) = (x \<in> set seen \<or> first_duplicate (x # seen) xs)"

lemma first_duplicate_iff:
  "first_duplicate seen xs \<longleftrightarrow> \<not> distinct xs \<or> set xs \<inter> set seen \<noteq> {}"
  by (induction xs arbitrary: seen) auto

lemma no_duplicate_distinct [simp]: "\<not> first_duplicate [] xs \<longleftrightarrow> distinct xs"
  by (simp add: first_duplicate_iff)

text \<open>
  A loop over a slice whose body checks one element, given the elements before it, and returns
  the first error.
\<close>

fun each_seen :: "('a list \<Rightarrow> 'a \<Rightarrow> 'e option) \<Rightarrow> 'a list \<Rightarrow> 'a list \<Rightarrow> 'e option" where
  "each_seen body seen [] = None"
| "each_seen body seen (x # xs) =
     (case body seen x of Some e \<Rightarrow> Some e | None \<Rightarrow> each_seen body (x # seen) xs)"

lemma each_seen_None_elem:
  "each_seen body seen xs = None \<Longrightarrow> x \<in> set xs \<Longrightarrow> \<exists>before. body before x = None"
  by (induction xs arbitrary: seen) (auto split: option.splits)

lemma each_seen_None_nth:
  "each_seen body seen xs = None \<longleftrightarrow>
     (\<forall>i < length xs. body (rev (take i xs) @ seen) (xs ! i) = None)"
proof (induction xs arbitrary: seen)
  case (Cons x xs)
  have "each_seen body seen (x # xs) = None \<longleftrightarrow>
          body seen x = None \<and> each_seen body (x # seen) xs = None"
    by (simp split: option.splits)
  then show ?case
    by (auto simp: Cons.IH less_Suc_eq_0_disj)
qed simp

lemma each_seen_distinct:
  assumes "each_seen body seen xs = None"
    and "\<And>before x. body before x = None \<Longrightarrow> f x \<notin> f ` set before"
  shows "distinct (map f xs) \<and> f ` set xs \<inter> f ` set seen = {}"
  using assms(1)
proof (induction xs arbitrary: seen)
  case (Cons x xs)
  then have "body seen x = None" "each_seen body (x # seen) xs = None"
    by (auto split: option.splits)
  with Cons.IH [of "x # seen"] assms(2) [of seen x] show ?case by auto
qed simp

end
