(* ===== verification/Domain_Errors.thy ===== *)
theory Domain_Errors
  imports TG_Prelude
begin

text \<open>
  Errors as the gateway builds them (\<open>internal/domain/errors.go\<close> and Go's \<open>errors\<close> package):
  fresh \<open>errors.New\<close> values, package-level sentinels (compared by identity, so named by their
  variable), \<open>*domain.Error\<close> with its public code, \<open>fmt.Errorf("...: %w", err)\<close>,
  \<open>errors.Join\<close>, and \<open>ErrTyped\<close> for every other concrete error type: its type, the field
  callers inspect, its text and what it unwraps to. \<open>errors_Is\<close> and \<open>errors_As\<close> walk the chain as the standard library does.
\<close>

type_synonym ErrorCode = string

definition CodeInvalidArgument :: ErrorCode where "CodeInvalidArgument = ''invalid_argument''"
definition CodeNotFound :: ErrorCode where "CodeNotFound = ''not_found''"
definition CodeConflict :: ErrorCode where "CodeConflict = ''conflict''"
definition CodeForbidden :: ErrorCode where "CodeForbidden = ''forbidden''"
definition CodeUnavailable :: ErrorCode where "CodeUnavailable = ''unavailable''"
definition CodeInternal :: ErrorCode where "CodeInternal = ''internal''"
definition CodeServiceUnavailable :: ErrorCode where
  "CodeServiceUnavailable = ''service_unavailable''"
definition CodeInvalidContext :: ErrorCode where "CodeInvalidContext = ''invalid_context''"
definition CodeToolNotFound :: ErrorCode where "CodeToolNotFound = ''tool_not_found''"
definition CodeToolCallNotFound :: ErrorCode where
  "CodeToolCallNotFound = ''tool_call_not_found''"
definition CodeInvalidArguments :: ErrorCode where "CodeInvalidArguments = ''invalid_arguments''"
definition CodeReplayConflict :: ErrorCode where "CodeReplayConflict = ''replay_conflict''"
definition CodeAuthorizationDenied :: ErrorCode where
  "CodeAuthorizationDenied = ''authorization_denied''"
definition CodeCredentialUnavailable :: ErrorCode where
  "CodeCredentialUnavailable = ''credential_unavailable''"
definition CodeConnectorError :: ErrorCode where "CodeConnectorError = ''connector_error''"

lemmas error_code_defs =
  CodeInvalidArgument_def CodeNotFound_def CodeConflict_def CodeForbidden_def
  CodeUnavailable_def CodeInternal_def 
  CodeServiceUnavailable_def
  CodeInvalidContext_def CodeToolNotFound_def CodeToolCallNotFound_def
  CodeInvalidArguments_def CodeReplayConflict_def CodeAuthorizationDenied_def
  CodeCredentialUnavailable_def CodeConnectorError_def 
  

datatype goerror =
    ErrNew string
  | ErrVar string string
  | ErrDomain ErrorCode string "goerror option"
  | ErrWrap string goerror
  | ErrJoin "goerror list"
  | ErrTyped string string string "goerror option"

type_synonym 'a result = "goerror + 'a"

definition NewError :: "ErrorCode \<Rightarrow> string \<Rightarrow> goerror option \<Rightarrow> goerror" where
  "NewError code message cause = ErrDomain code message cause"

text \<open>
  The text an error prints. \<open>ErrVar\<close> carries the variable's name, its identity, and its text.
\<close>

fun Error :: "goerror \<Rightarrow> string" where
  "Error (ErrNew text) = text"
| "Error (ErrVar name text) = text"
| "Error (ErrDomain code message cause) =
     (if message = [] then code else code @ '': '' @ message)"
| "Error (ErrWrap prefix cause) = prefix @ '': '' @ Error cause"
| "Error (ErrJoin errs) = join_with (CHR 0x0A) (map Error errs)"
| "Error (ErrTyped type field text cause) = text"

text \<open>\<open>errors.Is(err, sentinel)\<close>: the chain contains that package-level variable.\<close>

fun errors_Is :: "goerror \<Rightarrow> goerror \<Rightarrow> bool" where
  "errors_Is (ErrNew text) target = False"
| "errors_Is (ErrVar name text) target = (ErrVar name text = target)"
| "errors_Is (ErrDomain code message cause) target =
     (case cause of None \<Rightarrow> False | Some e \<Rightarrow> errors_Is e target)"
| "errors_Is (ErrWrap prefix cause) target = errors_Is cause target"
| "errors_Is (ErrJoin errs) target = list_ex (\<lambda>e. errors_Is e target) errs"
| "errors_Is (ErrTyped type field text cause) target =
     (case cause of None \<Rightarrow> False | Some e \<Rightarrow> errors_Is e target)"

text \<open>\<open>errors.As(err, &domainError)\<close>: the first \<open>*domain.Error\<close> of the chain, depth first.\<close>

fun first_some :: "('a \<Rightarrow> 'b option) \<Rightarrow> 'a list \<Rightarrow> 'b option" where
  "first_some f [] = None"
| "first_some f (x # xs) = (case f x of Some y \<Rightarrow> Some y | None \<Rightarrow> first_some f xs)"

lemma first_some_cong [fundef_cong]:
  "xs = ys \<Longrightarrow> (\<And>x. x \<in> set ys \<Longrightarrow> f x = g x) \<Longrightarrow> first_some f xs = first_some g ys"
proof (induction xs arbitrary: ys)
  case (Cons x xs)
  then show ?case by (cases ys) (auto split: option.splits)
qed simp

fun errors_As :: "goerror \<Rightarrow> (ErrorCode \<times> string) option" where
  "errors_As (ErrNew text) = None"
| "errors_As (ErrVar name text) = None"
| "errors_As (ErrDomain code message cause) = Some (code, message)"
| "errors_As (ErrWrap prefix cause) = errors_As cause"
| "errors_As (ErrJoin errs) = first_some errors_As errs"
| "errors_As (ErrTyped type field text cause) =
     (case cause of None \<Rightarrow> None | Some e \<Rightarrow> errors_As e)"

text \<open>\<open>errors.As(err, &typed)\<close> for another concrete type: the inspected field of the first match.\<close>

fun errors_As_typed :: "string \<Rightarrow> goerror \<Rightarrow> string option" where
  "errors_As_typed ty (ErrNew text) = None"
| "errors_As_typed ty (ErrVar name text) = None"
| "errors_As_typed ty (ErrDomain code message cause) =
     (case cause of None \<Rightarrow> None | Some e \<Rightarrow> errors_As_typed ty e)"
| "errors_As_typed ty (ErrWrap prefix cause) = errors_As_typed ty cause"
| "errors_As_typed ty (ErrJoin errs) = first_some (errors_As_typed ty) errs"
| "errors_As_typed ty (ErrTyped type field text cause) =
     (if type = ty then Some field
      else case cause of None \<Rightarrow> None | Some e \<Rightarrow> errors_As_typed ty e)"

text \<open>The code a caller sees, and the idiom \<open>errors.As(err, &e) && e.Code == code\<close>.\<close>

definition error_code :: "goerror \<Rightarrow> ErrorCode option" where
  "error_code e = map_option fst (errors_As e)"

lemma error_code_NewError [simp]: "error_code (NewError code message cause) = Some code"
  by (simp add: error_code_def NewError_def)

lemma error_code_ErrDomain [simp]: "error_code (ErrDomain code message cause) = Some code"
  by (simp add: error_code_def)

lemma error_code_ErrWrap [simp]: "error_code (ErrWrap prefix e) = error_code e"
  by (simp add: error_code_def)

lemma errors_Is_NewError [simp]: "errors_Is (NewError code message (Some e)) t = errors_Is e t"
  by (simp add: NewError_def)

definition context_Canceled :: goerror where
  "context_Canceled = ErrVar ''context.Canceled'' ''context canceled''"

definition context_DeadlineExceeded :: goerror where
  "context_DeadlineExceeded = ErrVar ''context.DeadlineExceeded'' ''context deadline exceeded''"

end
