(* ===== verification/Contracts.thy ===== *)
theory Contracts
  imports TG_Prelude
begin

text \<open>
  The interfaces the components of the gateway rely on, as locales: the operations a client
  calls and the laws their provider promises, with the client's consequences proved once. Each
  locale is interpreted on the model of the code in the theory that provides the operations.
\<close>

section \<open>Optimistic concurrency\<close>

text \<open>
  A store whose commands name the version they were computed from. An accepted command consumes
  exactly that version; a rejected one leaves the store alone.
\<close>

definition apply_all :: "('s \<Rightarrow> 'c \<Rightarrow> 's \<times> 'e option) \<Rightarrow> 's \<Rightarrow> 'c list \<Rightarrow> 's" where
  "apply_all f s cs = foldl (\<lambda>t c. fst (f t c)) s cs"

lemma apply_all_simps [simp]:
  "apply_all f s [] = s"
  "apply_all f s (c # cs) = apply_all f (fst (f s c)) cs"
  by (simp_all add: apply_all_def)

locale versioned_machine =
  fixes apply_cmd :: "'s \<Rightarrow> 'c \<Rightarrow> 's \<times> 'e option"
    and version :: "'s \<Rightarrow> int"
    and expected :: "'c \<Rightarrow> int"
    and wf :: "'s \<Rightarrow> bool"
  assumes accepted: "apply_cmd s c = (t, None) \<Longrightarrow> wf s \<Longrightarrow>
      wf t \<and> expected c = version s \<and> version t = version s + 1"
    and rejected: "apply_cmd s c = (t, Some e) \<Longrightarrow> t = s"
begin

lemma step_cases:
  assumes "wf s"
  obtains "fst (apply_cmd s c) = s"
  | "snd (apply_cmd s c) = None" "expected c = version s" "wf (fst (apply_cmd s c))"
    "version (fst (apply_cmd s c)) = version s + 1"
proof (cases "snd (apply_cmd s c)")
  case None
  then have "apply_cmd s c = (fst (apply_cmd s c), None)" by (metis prod.collapse)
  from accepted [OF this assms] None that(2) show ?thesis by blast
next
  case (Some e)
  then have "apply_cmd s c = (fst (apply_cmd s c), Some e)" by (metis prod.collapse)
  from rejected [OF this] that(1) show ?thesis by blast
qed

lemma version_mono: "wf s \<Longrightarrow> version s \<le> version (apply_all apply_cmd s cs)"
proof (induction cs arbitrary: s)
  case (Cons c cs)
  from Cons.prems show ?case
    by (rule step_cases [of s c]) (use Cons.IH [of "fst (apply_cmd s c)"] Cons.prems in auto)
qed simp

lemma stale_batch_ignored:
  "wf s \<Longrightarrow> \<forall>c \<in> set cs. expected c < version s \<Longrightarrow> apply_all apply_cmd s cs = s"
proof (induction cs)
  case (Cons c cs)
  then have "fst (apply_cmd s c) = s" by (auto elim: step_cases [of s c])
  with Cons show ?case by simp
qed simp

lemma single_winner:
  assumes "\<forall>c \<in> set cs. expected c = version s" and "wf s"
  shows "apply_all apply_cmd s cs = s
    \<or> (\<exists>c \<in> set cs. apply_cmd s c = (apply_all apply_cmd s cs, None))"
  using assms
proof (induction cs)
  case (Cons c cs)
  from Cons.prems(2) show ?case
  proof (rule step_cases [of s c])
    assume "fst (apply_cmd s c) = s"
    with Cons show ?thesis by auto
  next
    assume acc: "snd (apply_cmd s c) = None" "wf (fst (apply_cmd s c))"
      "version (fst (apply_cmd s c)) = version s + 1"
    with Cons.prems have "apply_all apply_cmd (fst (apply_cmd s c)) cs = fst (apply_cmd s c)"
      by (intro stale_batch_ignored) auto
    with acc show ?thesis by (auto intro: prod_eqI)
  qed
qed simp

end

section \<open>Settled records\<close>

lemma foldl_steps: "(\<lambda>s t. \<exists>call. t = f s call)\<^sup>*\<^sup>* s (foldl f s calls)"
proof (induction calls arbitrary: s)
  case (Cons call calls)
  show ?case
    by (rule converse_rtranclp_into_rtranclp [of _ _ "f s call"]) (use Cons.IH in auto)
qed simp

text \<open>
  A store in which some facts are final: no step of any client changes a settled record. Finished
  attempts, completed claims, delivered messages and released tool versions are such records.
\<close>

locale settled_store =
  fixes step :: "'s \<Rightarrow> 's \<Rightarrow> bool"
    and settled :: "'k \<Rightarrow> 'v \<Rightarrow> 's \<Rightarrow> bool"
  assumes stays: "step s t \<Longrightarrow> settled k v s \<Longrightarrow> settled k v t"
    and unique: "settled k v s \<Longrightarrow> settled k w s \<Longrightarrow> v = w"
begin

lemma forever: "step\<^sup>*\<^sup>* s t \<Longrightarrow> settled k v s \<Longrightarrow> settled k v t"
  by (induction rule: rtranclp_induct) (auto intro: stays)

lemma settled_once: "step\<^sup>*\<^sup>* s t \<Longrightarrow> settled k v s \<Longrightarrow> settled k w t \<Longrightarrow> v = w"
  using forever unique by blast

end

end
