(* ===== verification/Invocation_State.thy ===== *)
theory Invocation_State
  imports Domain_Errors Contracts "HOL-Library.Sublist"
begin

text \<open>
  The invocation state machine (\<open>internal/invocationstate/state.go\<close>): states, actors, the rule
  table with its approval, fence and resolution requirements, and \<open>Transition\<close> with its guards
  in source order. Go's \<open>State\<close> and \<open>Actor\<close> are strings; the constants are constructors here
  and any other string is the extra constructor.
\<close>

section \<open>States, actors and commands\<close>

datatype State =
    Received | Validated | Authorized | PreToolPassed | WaitingForApproval | Ready | Executing
  | RetryWait | Reconciling | Ambiguous | ManualReview | PostTool | Succeeded | Failed | Denied
  | Blocked | Cancelled | OtherState string

datatype Actor =
    Ingress | Orchestrator | Worker | Reconciler | Operator | AGAdapter | GRAdapter
  | OtherActor string

fun State_text :: "State \<Rightarrow> string" where
  "State_text Received = ''received''"
| "State_text Validated = ''validated''"
| "State_text Authorized = ''authorized''"
| "State_text PreToolPassed = ''pre_tool_passed''"
| "State_text WaitingForApproval = ''waiting_for_approval''"
| "State_text Ready = ''ready''"
| "State_text Executing = ''executing''"
| "State_text RetryWait = ''retry_wait''"
| "State_text Reconciling = ''reconciling''"
| "State_text Ambiguous = ''ambiguous''"
| "State_text ManualReview = ''manual_review''"
| "State_text PostTool = ''post_tool''"
| "State_text Succeeded = ''succeeded''"
| "State_text Failed = ''failed''"
| "State_text Denied = ''denied''"
| "State_text Blocked = ''blocked''"
| "State_text Cancelled = ''cancelled''"
| "State_text (OtherState s) = s"

definition ErrInvalidState :: goerror where
  "ErrInvalidState = ErrVar ''ErrInvalidState'' ''invalid invocation state''"
definition ErrInvalidActor :: goerror where
  "ErrInvalidActor = ErrVar ''ErrInvalidActor'' ''invalid invocation actor''"
definition ErrVersionConflict :: goerror where
  "ErrVersionConflict = ErrVar ''ErrVersionConflict'' ''invocation state version conflict''"
definition ErrVersionExhausted :: goerror where
  "ErrVersionExhausted = ErrVar ''ErrVersionExhausted'' ''invocation state version exhausted''"
definition ErrTerminalImmutable :: goerror where
  "ErrTerminalImmutable =
     ErrVar ''ErrTerminalImmutable'' ''terminal invocation state is immutable''"
definition ErrIllegalTransition :: goerror where
  "ErrIllegalTransition = ErrVar ''ErrIllegalTransition'' ''illegal invocation state transition''"
definition ErrActorForbidden :: goerror where
  "ErrActorForbidden =
     ErrVar ''ErrActorForbidden'' ''actor may not perform invocation transition''"
definition ErrApprovalRequired :: goerror where
  "ErrApprovalRequired = ErrVar ''ErrApprovalRequired'' ''current approval is required''"
definition ErrCurrentFence :: goerror where
  "ErrCurrentFence = ErrVar ''ErrCurrentFence'' ''current attempt fence is required''"
definition ErrResolution :: goerror where
  "ErrResolution = ErrVar ''ErrResolution'' ''append-only manual resolution is required''"

lemmas transition_errors =
  ErrInvalidState_def ErrInvalidActor_def ErrVersionConflict_def ErrVersionExhausted_def
  ErrTerminalImmutable_def ErrIllegalTransition_def ErrActorForbidden_def
  ErrApprovalRequired_def ErrCurrentFence_def ErrResolution_def

record Snapshot =
  snap_State :: State
  snap_Version :: int

record Command =
  cmd_Actor :: Actor
  cmd_Target :: State
  cmd_ExpectedVersion :: int
  cmd_ApprovalSatisfied :: bool
  cmd_CurrentFence :: bool
  cmd_ResolutionRecorded :: bool

fun State_Valid :: "State \<Rightarrow> bool" where
  "State_Valid (OtherState s) = False"
| "State_Valid _ = True"

fun Terminal :: "State \<Rightarrow> bool" where
  "Terminal Succeeded = True"
| "Terminal Failed = True"
| "Terminal Denied = True"
| "Terminal Blocked = True"
| "Terminal Cancelled = True"
| "Terminal _ = False"

fun Actor_Valid :: "Actor \<Rightarrow> bool" where
  "Actor_Valid (OtherActor s) = False"
| "Actor_Valid _ = True"

section \<open>The rule table\<close>

record rule =
  rule_actors :: "Actor list"
  rule_approval :: bool
  rule_fence :: bool
  rule_resolution :: bool

definition allow :: "Actor list \<Rightarrow> rule" where
  "allow actors =
     \<lparr>rule_actors = actors, rule_approval = False, rule_fence = False, rule_resolution = False\<rparr>"

definition withApproval :: "rule \<Rightarrow> rule" where "withApproval r = r\<lparr>rule_approval := True\<rparr>"
definition withFence :: "rule \<Rightarrow> rule" where "withFence r = r\<lparr>rule_fence := True\<rparr>"
definition withResolution :: "rule \<Rightarrow> rule" where
  "withResolution r = r\<lparr>rule_resolution := True\<rparr>"

definition rules :: "((State \<times> State) \<times> rule) list" where
  "rules =
   [((Received, Validated), allow [Ingress, Orchestrator]),
    ((Received, Failed), allow [Ingress, Orchestrator]),
    ((Received, Cancelled), allow [Ingress, Orchestrator]),
    ((Validated, Authorized), allow [Orchestrator]),
    ((Validated, Failed), allow [Ingress, Orchestrator]),
    ((Validated, Denied), allow [Orchestrator]),
    ((Validated, Cancelled), allow [Ingress, Orchestrator]),
    ((Authorized, PreToolPassed), allow [Orchestrator]),
    ((Authorized, Validated), allow [Orchestrator]),
    ((Authorized, Failed), allow [Orchestrator]),
    ((Authorized, Blocked), allow [Orchestrator]),
    ((Authorized, Cancelled), allow [Ingress, Orchestrator]),
    ((PreToolPassed, WaitingForApproval), allow [Orchestrator]),
    ((PreToolPassed, Ready), allow [Orchestrator]),
    ((PreToolPassed, Validated), allow [Orchestrator]),
    ((PreToolPassed, Failed), allow [Orchestrator]),
    ((PreToolPassed, Blocked), allow [Orchestrator]),
    ((PreToolPassed, Cancelled), allow [Ingress, Orchestrator]),
    ((WaitingForApproval, Ready), withApproval (allow [Orchestrator])),
    ((WaitingForApproval, Validated), allow [Orchestrator]),
    ((WaitingForApproval, Failed), allow [Orchestrator]),
    ((WaitingForApproval, Blocked), allow [Orchestrator]),
    ((WaitingForApproval, Cancelled), allow [Ingress, Orchestrator]),
    ((Ready, Executing), withFence (allow [Worker])),
    ((Ready, Failed), allow [Orchestrator]),
    ((Ready, Cancelled), allow [Ingress, Orchestrator]),
    ((Executing, PostTool), withFence (allow [Worker])),
    ((Executing, RetryWait), withFence (allow [Worker])),
    ((Executing, Ambiguous), withFence (allow [Worker])),
    ((Executing, Failed), withFence (allow [Worker])),
    ((RetryWait, Executing), withFence (allow [Worker])),
    ((RetryWait, Failed), allow [Orchestrator]),
    ((RetryWait, Cancelled), allow [Orchestrator]),
    ((Ambiguous, Reconciling), withFence (allow [Reconciler])),
    ((Ambiguous, ManualReview), allow [Orchestrator, Reconciler]),
    ((Reconciling, PostTool), withFence (allow [Reconciler])),
    ((Reconciling, RetryWait), withFence (allow [Reconciler])),
    ((Reconciling, ManualReview), withFence (allow [Reconciler])),
    ((Reconciling, Failed), withFence (allow [Reconciler])),
    ((Reconciling, Cancelled), withFence (allow [Reconciler])),
    ((ManualReview, PostTool), withResolution (allow [Operator])),
    ((ManualReview, RetryWait), withResolution (allow [Operator])),
    ((ManualReview, Failed), withResolution (allow [Operator])),
    ((ManualReview, Cancelled), withResolution (allow [Operator])),
    ((PostTool, Succeeded), allow [Orchestrator]),
    ((PostTool, Failed), allow [Orchestrator]),
    ((PostTool, Blocked), allow [Orchestrator])]"

definition Transition :: "Snapshot \<Rightarrow> Command \<Rightarrow> Snapshot \<times> goerror option" where
  "Transition current command =
     (if \<not> State_Valid (snap_State current) \<or> \<not> State_Valid (cmd_Target command)
          \<or> snap_Version current < 0 then (current, Some ErrInvalidState)
      else if \<not> Actor_Valid (cmd_Actor command) then (current, Some ErrInvalidActor)
      else if cmd_ExpectedVersion command \<noteq> snap_Version current
        then (current, Some ErrVersionConflict)
      else if Terminal (snap_State current) then (current, Some ErrTerminalImmutable)
      else if snap_Version current = max_int64 then (current, Some ErrVersionExhausted)
      else case map_of rules (snap_State current, cmd_Target command) of
        None \<Rightarrow> (current, Some ErrIllegalTransition)
      | Some r \<Rightarrow>
          if cmd_Actor command \<notin> set (rule_actors r) then (current, Some ErrActorForbidden)
          else if rule_approval r \<and> \<not> cmd_ApprovalSatisfied command
            then (current, Some ErrApprovalRequired)
          else if rule_fence r \<and> \<not> cmd_CurrentFence command
            then (current, Some ErrCurrentFence)
          else if rule_resolution r \<and> \<not> cmd_ResolutionRecorded command
            then (current, Some ErrResolution)
          else (\<lparr>snap_State = cmd_Target command,
                 snap_Version = wrap64 (snap_Version current + 1)\<rparr>, None))"


section \<open>Accepted steps\<close>

text \<open>One accepted command, and the runs made of them.\<close>

inductive step :: "Snapshot \<Rightarrow> Command \<Rightarrow> Snapshot \<Rightarrow> bool" where
  stepI: "Transition s c = (t, None) \<Longrightarrow> step s c t"

inductive run :: "Snapshot \<Rightarrow> Command list \<Rightarrow> Snapshot \<Rightarrow> bool" where
  run_Nil: "run s [] s"
| run_snoc: "run s cs t \<Longrightarrow> step t c u \<Longrightarrow> run s (cs @ [c]) u"

inductive_simps step_iff: "step s c t"
inductive_cases run_NilE: "run s [] t"

text \<open>What a rule demands of the command that uses it.\<close>

definition grants :: "rule \<Rightarrow> Command \<Rightarrow> bool" where
  "grants r c \<longleftrightarrow>
     cmd_Actor c \<in> set (rule_actors r)
     \<and> (rule_approval r \<longrightarrow> cmd_ApprovalSatisfied c)
     \<and> (rule_fence r \<longrightarrow> cmd_CurrentFence c)
     \<and> (rule_resolution r \<longrightarrow> cmd_ResolutionRecorded c)"

lemmas rule_ops = allow_def withApproval_def withFence_def withResolution_def

lemma distinct_rules: "distinct (map fst rules)"
  by (simp add: rules_def)

lemma Transition_accepted_iff:
  "Transition s c = (t, None) \<longleftrightarrow>
     State_Valid (snap_State s) \<and> State_Valid (cmd_Target c) \<and> 0 \<le> snap_Version s
     \<and> Actor_Valid (cmd_Actor c) \<and> cmd_ExpectedVersion c = snap_Version s
     \<and> \<not> Terminal (snap_State s) \<and> snap_Version s \<noteq> max_int64
     \<and> (\<exists>r. map_of rules (snap_State s, cmd_Target c) = Some r \<and> grants r c)
     \<and> t = \<lparr>snap_State = cmd_Target c, snap_Version = wrap64 (snap_Version s + 1)\<rparr>"
  by (cases "map_of rules (snap_State s, cmd_Target c)")
     (auto simp: Transition_def grants_def)

lemma Transition_rejected: "Transition s c = (t, Some e) \<Longrightarrow> t = s"
  by (auto simp: Transition_def split: if_splits option.splits)

definition Snapshot_wf :: "Snapshot \<Rightarrow> bool" where
  "Snapshot_wf s \<longleftrightarrow> State_Valid (snap_State s) \<and> 0 \<le> snap_Version s \<and> snap_Version s \<le> max_int64"

lemma Transition_version:
  assumes "Transition s c = (t, None)" and "snap_Version s \<le> max_int64"
  shows "snap_Version t = snap_Version s + 1"
proof -
  from assms have "is_int64 (snap_Version s + 1)"
    by (auto simp: Transition_accepted_iff is_int64_def min_int64_def)
  with assms show ?thesis by (auto simp: Transition_accepted_iff)
qed

lemma step_rule:
  assumes "step s c t"
  obtains r where "((snap_State s, snap_State t), r) \<in> set rules" "grants r c"
    "cmd_Target c = snap_State t" "cmd_ExpectedVersion c = snap_Version s"
    "snap_Version s \<noteq> max_int64" "0 \<le> snap_Version s"
proof -
  from assms obtain r where "map_of rules (snap_State s, cmd_Target c) = Some r" "grants r c"
    "cmd_Target c = snap_State t" "cmd_ExpectedVersion c = snap_Version s"
    "snap_Version s \<noteq> max_int64" "0 \<le> snap_Version s"
    unfolding step_iff Transition_accepted_iff by (metis Snapshot.select_convs(1))
  then show ?thesis using that map_of_SomeD by metis
qed

lemma step_wf: "step s c t \<Longrightarrow> Snapshot_wf s \<Longrightarrow> Snapshot_wf t"
  using Transition_version [of s c t]
  by (auto simp: step_iff Snapshot_wf_def Transition_accepted_iff)

lemma run_wf: "run s cs t \<Longrightarrow> Snapshot_wf s \<Longrightarrow> Snapshot_wf t"
  by (induction rule: run.induct) (auto intro: step_wf)

lemma run_version:
  "run s cs t \<Longrightarrow> Snapshot_wf s \<Longrightarrow> snap_Version t = snap_Version s + int (length cs)"
proof (induction rule: run.induct)
  case (run_snoc s cs t c u)
  from run_wf run_snoc have "Snapshot_wf t" by blast
  with run_snoc show ?case by (simp add: step_iff Snapshot_wf_def Transition_version)
qed simp

text \<open>
  The rule table, read as a predicate on an edge: if a property of edges and commands holds of
  every row, it holds of every accepted step.
\<close>

lemma step_by_table:
  assumes "step s c t"
    and "\<forall>((a, b), r) \<in> set rules. grants r c \<and> cmd_Target c = b \<longrightarrow> P a b"
  shows "P (snap_State s) (snap_State t)"
  using assms by (auto elim!: step_rule)

section \<open>The contract of optimistic concurrency\<close>

interpretation invocation:
  versioned_machine Transition snap_Version cmd_ExpectedVersion Snapshot_wf
proof
  fix s c t
  assume "Transition s c = (t, None)" and "Snapshot_wf s"
  with step_wf [of s c t] Transition_version [of s c t]
  show "Snapshot_wf t \<and> cmd_ExpectedVersion c = snap_Version s
      \<and> snap_Version t = snap_Version s + 1"
    by (simp add: step_iff Snapshot_wf_def Transition_accepted_iff)
qed (rule Transition_rejected)

section \<open>What every run does\<close>

text \<open>
  The states every run from \<^const>\<open>Received\<close> must have entered, in this order, by the time it is
  in a given state.
\<close>

fun required_history :: "State \<Rightarrow> State list" where
  "required_history Received = []"
| "required_history Validated = [Validated]"
| "required_history Authorized = [Validated, Authorized]"
| "required_history PreToolPassed = [Validated, Authorized, PreToolPassed]"
| "required_history WaitingForApproval =
     [Validated, Authorized, PreToolPassed, WaitingForApproval]"
| "required_history Ready = [Validated, Authorized, PreToolPassed, Ready]"
| "required_history Succeeded =
     [Validated, Authorized, PreToolPassed, Ready, Executing, PostTool, Succeeded]"
| "required_history PostTool =
     [Validated, Authorized, PreToolPassed, Ready, Executing, PostTool]"
| "required_history Denied = [Validated, Denied]"
| "required_history Failed = []"
| "required_history Blocked = [Validated, Authorized, Blocked]"
| "required_history Cancelled = []"
| "required_history (OtherState s) = []"
| "required_history _ = [Validated, Authorized, PreToolPassed, Ready, Executing]"

lemma required_history_edge:
  "((a, b), r) \<in> set rules \<Longrightarrow> subseq (required_history b) (required_history a @ [b])"
  by (auto simp: rules_def)

lemma run_required_history:
  assumes "run s cs t" and "snap_State s = Received"
  shows "subseq (required_history (snap_State t)) (map cmd_Target cs)"
  using assms
proof (induction rule: run.induct)
  case (run_snoc s cs t c u)
  from \<open>step t c u\<close> obtain r
    where r: "((snap_State t, snap_State u), r) \<in> set rules" "cmd_Target c = snap_State u"
    by (rule step_rule)
  from run_snoc have "subseq (required_history (snap_State t) @ [snap_State u])
      (map cmd_Target cs @ [snap_State u])"
    by (intro list_emb_append_mono) simp_all
  from subseq_order.trans [OF required_history_edge [OF r(1)] this] r(2) show ?case by simp
qed simp

text \<open>An invariant of the edges that holds at the start of a run holds throughout it.\<close>

lemma run_invariant:
  assumes "run s cs t" and "P (snap_State s)"
    and "\<And>a b r. ((a, b), r) \<in> set rules \<Longrightarrow> P a \<Longrightarrow> P b"
  shows "P (snap_State t)"
  using assms(1,2)
proof (induction rule: run.induct)
  case (run_snoc s cs t c u)
  then show ?case by (metis assms(3) step_rule)
qed simp

text \<open>
  The same, where the invariant may be left by a command with some property: then the run
  contains such a command.
\<close>

lemma run_leaves_by:
  assumes "run s cs t" and "P (snap_State s)" and "\<not> P (snap_State t)"
    and "\<And>a b r c. ((a, b), r) \<in> set rules \<Longrightarrow> grants r c \<Longrightarrow> cmd_Target c = b \<Longrightarrow> P a
           \<Longrightarrow> P b \<or> Q c"
  shows "\<exists>c \<in> set cs. Q c"
  using assms(1-3)
proof (induction rule: run.induct)
  case (run_snoc s cs t c u)
  show ?case
  proof (cases "P (snap_State t)")
    case True
    from \<open>step t c u\<close> obtain r
      where "((snap_State t, snap_State u), r) \<in> set rules" "grants r c"
        "cmd_Target c = snap_State u"
      by (rule step_rule)
    with assms(4) True run_snoc.prems have "Q c" by blast
    then show ?thesis by simp
  next
    case False
    with run_snoc show ?thesis by auto
  qed
qed simp

lemma run_one: "step s c t \<Longrightarrow> run s [c] t"
  using run_snoc [OF run_Nil] by simp

lemma run_Cons: "step s c t \<Longrightarrow> run t cs u \<Longrightarrow> run s (c # cs) u"
proof (rotate_tac, induction rule: run.induct)
  case (run_Nil t)
  then show ?case by (rule run_one)
next
  case (run_snoc t cs u d v)
  then show ?case using run.run_snoc [of s "c # cs" u d v] by simp
qed

section \<open>Properties\<close>

definition initial_snapshot :: Snapshot where
  "initial_snapshot = \<lparr>snap_State = Received, snap_Version = 0\<rparr>"

definition command :: "Actor \<Rightarrow> State \<Rightarrow> int \<Rightarrow> Command" where
  "command actor target version =
     \<lparr>cmd_Actor = actor, cmd_Target = target, cmd_ExpectedVersion = version,
      cmd_ApprovalSatisfied = True, cmd_CurrentFence = True, cmd_ResolutionRecorded = True\<rparr>"

text \<open>A run the code accepts, for the concrete instances below.\<close>

fun run_commands :: "Snapshot \<Rightarrow> Command list \<Rightarrow> Snapshot option" where
  "run_commands s [] = Some s"
| "run_commands s (c # cs) =
     (case Transition s c of (t, None) \<Rightarrow> run_commands t cs | (t, Some e) \<Rightarrow> None)"

lemma run_commands_run: "run_commands s cs = Some t \<Longrightarrow> run s cs t"
  by (induction s cs rule: run_commands.induct)
     (auto split: prod.splits option.splits intro: run_Nil run_Cons stepI)

lemmas transition_eval =
  Transition_def rules_def rule_ops command_def initial_snapshot_def max_int64_def wrap64_def

text \<open>
  C2. Every run of accepted commands from a fresh invocation that ends \<^const>\<open>Succeeded\<close>, or in
  any state only execution leads to, was validated, authorized, passed the pre-tool check,
  became ready and was executed, in this order; the version counts the accepted commands; and
  some command moved it to \<^const>\<open>Executing\<close> on behalf of a worker holding the current fence.
\<close>

theorem execution_requires_checks:
  assumes "run initial_snapshot cs t"
    and "snap_State t \<in> {Executing, RetryWait, Ambiguous, Reconciling, ManualReview, PostTool,
           Succeeded}"
  shows "subseq [Validated, Authorized, PreToolPassed, Ready, Executing] (map cmd_Target cs)
    \<and> snap_Version t = int (length cs)
    \<and> (\<exists>c \<in> set cs. cmd_Target c = Executing \<and> cmd_Actor c = Worker \<and> cmd_CurrentFence c)"
proof (intro conjI)
  have "subseq [Validated, Authorized, PreToolPassed, Ready, Executing]
      (required_history (snap_State t))"
    using assms(2) by auto
  with run_required_history [OF assms(1)]
  show "subseq [Validated, Authorized, PreToolPassed, Ready, Executing] (map cmd_Target cs)"
    by (metis initial_snapshot_def Snapshot.select_convs(1) subseq_order.trans)
  show "snap_Version t = int (length cs)"
    using run_version [OF assms(1)]
    by (simp add: Snapshot_wf_def initial_snapshot_def max_int64_def)
  show "\<exists>c \<in> set cs. cmd_Target c = Executing \<and> cmd_Actor c = Worker \<and> cmd_CurrentFence c"
    by (rule run_leaves_by [where P = "\<lambda>a. a \<in> {Received, Validated, Authorized, PreToolPassed,
          WaitingForApproval, Ready, Failed, Denied, Blocked, Cancelled}", OF assms(1)])
      (use assms(2) in \<open>auto simp: initial_snapshot_def rules_def rule_ops grants_def\<close>)
qed

definition happy_path :: "Command list" where
  "happy_path =
     [command Ingress Validated 0, command Orchestrator Authorized 1,
      command Orchestrator PreToolPassed 2, command Orchestrator Ready 3,
      command Worker Executing 4, command Worker PostTool 5, command Orchestrator Succeeded 6]"

lemma happy_path_run: "run initial_snapshot happy_path \<lparr>snap_State = Succeeded, snap_Version = 7\<rparr>"
  by (rule run_commands_run) (simp add: happy_path_def transition_eval)

theorem execution_requires_checks_witness:
  "subseq [Validated, Authorized, PreToolPassed, Ready, Executing] (map cmd_Target happy_path)
    \<and> snap_Version \<lparr>snap_State = Succeeded, snap_Version = 7\<rparr> = int (length happy_path)
    \<and> (\<exists>c \<in> set happy_path. cmd_Target c = Executing \<and> cmd_Actor c = Worker
          \<and> cmd_CurrentFence c)"
  by (rule execution_requires_checks [OF happy_path_run]) simp

text \<open>
  C11. An invocation whose outcome is ambiguous is never retried blindly: every run from
  \<^const>\<open>Ambiguous\<close> to a new execution contains a decision to retry, taken by the reconciler
  holding the current fence or by an operator who recorded a resolution.
\<close>

theorem ambiguous_never_blindly_retried:
  assumes "run s cs t" and "snap_State s = Ambiguous" and "snap_State t = Executing"
  shows "\<exists>c \<in> set cs. cmd_Target c = RetryWait
    \<and> (cmd_Actor c = Reconciler \<and> cmd_CurrentFence c
       \<or> cmd_Actor c = Operator \<and> cmd_ResolutionRecorded c)"
  by (rule run_leaves_by [where P = "\<lambda>a. a \<in> {Ambiguous, Reconciling, ManualReview, PostTool,
        Succeeded, Failed, Blocked, Cancelled}", OF assms(1)])
    (use assms(2,3) in \<open>auto simp: rules_def rule_ops grants_def\<close>)

definition reconciled_retry :: "Command list" where
  "reconciled_retry =
     [command Reconciler Reconciling 6, command Reconciler RetryWait 7,
      command Worker Executing 8]"

lemma reconciled_retry_run:
  "run \<lparr>snap_State = Ambiguous, snap_Version = 6\<rparr> reconciled_retry
     \<lparr>snap_State = Executing, snap_Version = 9\<rparr>"
  by (rule run_commands_run) (simp add: reconciled_retry_def transition_eval)

theorem ambiguous_never_blindly_retried_witness:
  "\<exists>c \<in> set reconciled_retry. cmd_Target c = RetryWait
    \<and> (cmd_Actor c = Reconciler \<and> cmd_CurrentFence c
       \<or> cmd_Actor c = Operator \<and> cmd_ResolutionRecorded c)"
  by (rule ambiguous_never_blindly_retried [OF reconciled_retry_run]) simp_all


definition approved_execution :: "Command list" where
  "approved_execution = [command Orchestrator Ready 4, command Worker Executing 5]"

lemma approved_execution_run:
  "run \<lparr>snap_State = WaitingForApproval, snap_Version = 4\<rparr> approved_execution
     \<lparr>snap_State = Executing, snap_Version = 6\<rparr>"
  by (rule run_commands_run) (simp add: approved_execution_def transition_eval)


text \<open>
  C13. Concurrent commands computed from the same snapshot have one winner: applied in any order,
  they leave the snapshot alone or have the effect of exactly one accepted command.
\<close>

theorem transition_single_winner:
  assumes "\<forall>c \<in> set cs. cmd_ExpectedVersion c = snap_Version s" and "Snapshot_wf s"
  shows "apply_all Transition s cs = s
    \<or> (\<exists>c \<in> set cs. Transition s c = (apply_all Transition s cs, None))"
  using assms by (rule invocation.single_winner)

theorem transition_single_winner_witness:
  "apply_all Transition initial_snapshot [command Ingress Cancelled 0, command Ingress Validated 0]
     = initial_snapshot
    \<or> (\<exists>c \<in> set [command Ingress Cancelled 0, command Ingress Validated 0].
         Transition initial_snapshot c =
           (apply_all Transition initial_snapshot
              [command Ingress Cancelled 0, command Ingress Validated 0], None))"
  by (rule transition_single_winner)
    (simp_all add: command_def initial_snapshot_def Snapshot_wf_def max_int64_def)

text \<open>
  C14. No state is a dead end: from every well-formed snapshot that is not terminal, with two
  versions left, at most two accepted commands reach a terminal state.
\<close>

lemma step_command:
  assumes "case map_of rules (a, b) of None \<Rightarrow> False | Some r \<Rightarrow> grants r (command actor b v)"
    and "\<not> Terminal a" and "State_Valid a" and "State_Valid b" and "Actor_Valid actor"
    and "0 \<le> v" and "v < max_int64"
  shows "step \<lparr>snap_State = a, snap_Version = v\<rparr> (command actor b v)
    \<lparr>snap_State = b, snap_Version = v + 1\<rparr>"
proof -
  from assms have "wrap64 (v + 1) = v + 1"
    by (intro wrap64_id) (simp add: is_int64_def min_int64_def)
  with assms show ?thesis
    by (auto simp: step_iff Transition_accepted_iff command_def split: option.splits)
qed

definition failing_actor :: "State \<Rightarrow> Actor" where
  "failing_actor a = (case a of Executing \<Rightarrow> Worker | Reconciling \<Rightarrow> Reconciler
     | ManualReview \<Rightarrow> Operator | _ \<Rightarrow> Orchestrator)"

lemma step_to_Failed:
  assumes "State_Valid a" "\<not> Terminal a" "a \<noteq> Ambiguous" "0 \<le> v" "v < max_int64"
  shows "step \<lparr>snap_State = a, snap_Version = v\<rparr> (command (failing_actor a) Failed v)
    \<lparr>snap_State = Failed, snap_Version = v + 1\<rparr>"
  by (rule step_command, use assms in \<open>cases a\<close>)
    (use assms in \<open>simp_all add: rules_def rule_ops grants_def failing_actor_def command_def
       split: State.splits\<close>)



end
