(* ===== verification/Go_Bytes.thy ===== *)
theory Go_Bytes
  imports TG_Prelude
begin

text \<open>
  The byte-level parts of Go's standard library the gateway calls: \<open>[]byte\<close>/\<open>string\<close>
  conversions, \<open>encoding/hex\<close>, \<open>base64.RawURLEncoding\<close>, \<open>encoding/binary\<close> (big endian),
  decimal printing, and \<open>crypto/sha256\<close> with \<open>crypto/hmac\<close>, all executable, with the round
  trips the components use.
\<close>

unbundle bit_operations_syntax

section \<open>Strings and bytes\<close>

definition byte_of_nat :: "nat \<Rightarrow> byte" where
  "byte_of_nat n = word_of_nat n"

definition byte_of_char :: "char \<Rightarrow> byte" where
  "byte_of_char c = byte_of_nat (of_char c)"

definition char_of_byte :: "byte \<Rightarrow> char" where
  "char_of_byte b = char_of (unat b)"

definition bytes_of_string :: "string \<Rightarrow> bytes" where
  "bytes_of_string s = map byte_of_char s"

definition string_of_bytes :: "bytes \<Rightarrow> string" where
  "string_of_bytes bs = map char_of_byte bs"

lemma unat_byte_less [simp]: "unat (b :: byte) < 256"
  by (rule order_less_le_trans [OF unsigned_less]) simp

lemma unat_byte_le: "unat (b :: byte) \<le> 255"
  using unat_byte_less [of b] by (simp add: less_Suc_eq_le del: unat_byte_less)

lemma char_code_less [simp]: "(of_char c :: nat) < 256"
  by (metis of_char_of char_of_char mod_less_divisor zero_less_numeral)

lemma unat_byte_of_nat [simp]: "n < 256 \<Longrightarrow> unat (byte_of_nat n) = n"
  by (simp add: byte_of_nat_def unat_of_nat)

lemma byte_of_nat_unat [simp]: "byte_of_nat (unat b) = b"
  by (simp add: byte_of_nat_def)

lemma byte_of_char_of_byte [simp]: "byte_of_char (char_of_byte b) = b"
  by (simp add: byte_of_char_def char_of_byte_def)

lemma char_of_byte_of_char [simp]: "char_of_byte (byte_of_char c) = c"
  by (simp add: byte_of_char_def char_of_byte_def)

lemma string_of_bytes_of_string [simp]: "string_of_bytes (bytes_of_string s) = s"
  by (simp add: string_of_bytes_def bytes_of_string_def o_def)

lemma bytes_of_string_of_bytes [simp]: "bytes_of_string (string_of_bytes bs) = bs"
  by (simp add: string_of_bytes_def bytes_of_string_def o_def)

lemma bytes_of_string_inject [simp]: "bytes_of_string s = bytes_of_string t \<longleftrightarrow> s = t"
  by (metis string_of_bytes_of_string)

lemma string_of_bytes_inject [simp]: "string_of_bytes a = string_of_bytes b \<longleftrightarrow> a = b"
  by (metis bytes_of_string_of_bytes)

lemma length_bytes_of_string [simp]: "length (bytes_of_string s) = length s"
  by (simp add: bytes_of_string_def)

lemma length_string_of_bytes [simp]: "length (string_of_bytes s) = length s"
  by (simp add: string_of_bytes_def)

lemma bytes_of_string_append [simp]:
  "bytes_of_string (s @ t) = bytes_of_string s @ bytes_of_string t"
  by (simp add: bytes_of_string_def)

section \<open>Decimal numbers\<close>

definition digit_char :: "nat \<Rightarrow> char" where
  "digit_char d = char_of (48 + d)"

fun decimal :: "nat \<Rightarrow> string" where
  "decimal n = (if n < 10 then [digit_char n] else decimal (n div 10) @ [digit_char (n mod 10)])"

declare decimal.simps [simp del]

definition is_digit :: "char \<Rightarrow> bool" where
  "is_digit c \<longleftrightarrow> 48 \<le> (of_char c :: nat) \<and> (of_char c :: nat) \<le> 57"

definition digit_value :: "char \<Rightarrow> nat" where
  "digit_value c = of_char c - 48"

definition parse_decimal :: "string \<Rightarrow> nat" where
  "parse_decimal s = foldl (\<lambda>n c. n * 10 + digit_value c) 0 s"

lemma of_char_digit_char: "d < 10 \<Longrightarrow> (of_char (digit_char d) :: nat) = 48 + d"
  by (simp add: digit_char_def)

lemma is_digit_digit_char [simp]: "d < 10 \<Longrightarrow> is_digit (digit_char d)"
  by (simp add: is_digit_def of_char_digit_char)

lemma digit_value_digit_char [simp]: "d < 10 \<Longrightarrow> digit_value (digit_char d) = d"
  by (simp add: digit_value_def of_char_digit_char)

lemma digit_value_less: "is_digit c \<Longrightarrow> digit_value c < 10"
  unfolding is_digit_def digit_value_def by linarith

lemma digit_value_inject:
  "is_digit c \<Longrightarrow> is_digit d \<Longrightarrow> digit_value c = digit_value d \<longleftrightarrow> c = d"
proof -
  assume a: "is_digit c" "is_digit d"
  have "c = d" if "digit_value c = digit_value d"
  proof -
    from a that have "(of_char c :: nat) = of_char d"
      unfolding digit_value_def is_digit_def by linarith
    then show ?thesis by (simp add: of_char_eq_iff)
  qed
  then show ?thesis by blast
qed

lemma parse_decimal_snoc [simp]:
  "parse_decimal (s @ [c]) = parse_decimal s * 10 + digit_value c"
  by (simp add: parse_decimal_def)

lemma parse_decimal_decimal [simp]: "parse_decimal (decimal n) = n"
proof (induction n rule: decimal.induct)
  case (1 n)
  show ?case
  proof (cases "n < 10")
    case True
    then show ?thesis by (simp add: decimal.simps [of n] parse_decimal_def)
  next
    case False
    with 1 show ?thesis by (simp add: decimal.simps [of n])
  qed
qed

lemma decimal_digits: "c \<in> set (decimal n) \<Longrightarrow> is_digit c"
proof (induction n rule: decimal.induct)
  case (1 n)
  then show ?case by (cases "n < 10") (auto simp: decimal.simps [of n])
qed

lemma decimal_nonempty [simp]: "decimal n \<noteq> []"
  by (simp add: decimal.simps [of n])

lemma decimal_inject [simp]: "decimal m = decimal n \<longleftrightarrow> m = n"
  by (metis parse_decimal_decimal)

text \<open>\<open>strconv.Itoa\<close> and the verb \<open>%d\<close>.\<close>

definition Itoa :: "int \<Rightarrow> string" where
  "Itoa n = (if n < 0 then CHR ''-'' # decimal (nat (- n)) else decimal (nat n))"

lemma Itoa_inject [simp]: "Itoa m = Itoa n \<longleftrightarrow> m = n"
proof -
  have sign: "decimal k \<noteq> CHR ''-'' # s" for k s
    using decimal_digits [of "CHR ''-''" k] by (auto simp: is_digit_def)
  show ?thesis
    by (auto simp: Itoa_def sign sign [symmetric] eq_nat_nat_iff split: if_splits)
qed

section \<open>Hexadecimal\<close>

definition hex_digit :: "nat \<Rightarrow> char" where
  "hex_digit d = (if d < 10 then char_of (48 + d) else char_of (87 + d))"

definition hex_value :: "char \<Rightarrow> nat option" where
  "hex_value c = (let n = (of_char c :: nat) in
     if 48 \<le> n \<and> n \<le> 57 then Some (n - 48)
     else if 97 \<le> n \<and> n \<le> 102 then Some (n - 87)
     else if 65 \<le> n \<and> n \<le> 70 then Some (n - 55)
     else None)"

fun hex_EncodeToString :: "bytes \<Rightarrow> string" where
  "hex_EncodeToString [] = []"
| "hex_EncodeToString (b # bs) =
     hex_digit (unat b div 16) # hex_digit (unat b mod 16) # hex_EncodeToString bs"

fun hex_DecodeString :: "string \<Rightarrow> bytes option" where
  "hex_DecodeString [] = Some []"
| "hex_DecodeString [c] = None"
| "hex_DecodeString (c # d # s) =
     (case (hex_value c, hex_value d, hex_DecodeString s) of
        (Some h, Some l, Some bs) \<Rightarrow> Some (byte_of_nat (h * 16 + l) # bs)
      | _ \<Rightarrow> None)"

lemma hex_value_digit [simp]: "d < 16 \<Longrightarrow> hex_value (hex_digit d) = Some d"
  by (auto simp: hex_value_def hex_digit_def Let_def)

lemma hex_value_less: "hex_value c = Some n \<Longrightarrow> n < 16"
  by (auto simp: hex_value_def Let_def split: if_splits)

lemma byte_div_16 [simp]: "unat (b :: byte) div 16 < 16"
  using unat_byte_less [of b] by (simp add: div_less_iff_less_mult del: unat_byte_less)

lemma hex_roundtrip [simp]: "hex_DecodeString (hex_EncodeToString bs) = Some bs"
  by (induction bs) simp_all

lemma hex_encode_length [simp]: "length (hex_EncodeToString bs) = 2 * length bs"
  by (induction bs) simp_all

lemma hex_encode_inject [simp]: "hex_EncodeToString a = hex_EncodeToString b \<longleftrightarrow> a = b"
  by (metis hex_roundtrip option.inject)

lemma hex_decode_length: "hex_DecodeString s = Some bs \<Longrightarrow> length s = 2 * length bs"
  by (induction s arbitrary: bs rule: hex_DecodeString.induct) (auto split: option.splits)

lemma hex_decode_chars: "hex_DecodeString s = Some bs \<Longrightarrow> c \<in> set s \<Longrightarrow> hex_value c \<noteq> None"
  by (induction s arbitrary: bs rule: hex_DecodeString.induct) (auto split: option.splits)

lemma hex_encode_append [simp]:
  "hex_EncodeToString (a @ b) = hex_EncodeToString a @ hex_EncodeToString b"
  by (induction a) simp_all

definition is_lower_hex :: "char \<Rightarrow> bool" where
  "is_lower_hex c \<longleftrightarrow> (let n = (of_char c :: nat) in 48 \<le> n \<and> n \<le> 57 \<or> 97 \<le> n \<and> n \<le> 102)"

lemma hex_digit_lower: "d < 16 \<Longrightarrow> is_lower_hex (hex_digit d)"
  by (auto simp: is_lower_hex_def hex_digit_def Let_def)

lemma hex_encode_lower: "c \<in> set (hex_EncodeToString bs) \<Longrightarrow> is_lower_hex c"
  by (induction bs) (auto simp: hex_digit_lower)

lemma hex_digit_value: "is_lower_hex c \<Longrightarrow> hex_value c = Some n \<Longrightarrow> hex_digit n = c"
  by (auto simp: is_lower_hex_def hex_digit_def hex_value_def Let_def split: if_splits)

lemma hex_decode_encode:
  "hex_DecodeString s = Some bs \<Longrightarrow> \<forall>c \<in> set s. is_lower_hex c \<Longrightarrow> hex_EncodeToString bs = s"
proof (induction s arbitrary: bs rule: hex_DecodeString.induct)
  case (3 c d s)
  then obtain h l rest where
    "hex_value c = Some h" "hex_value d = Some l" "hex_DecodeString s = Some rest"
    "bs = byte_of_nat (h * 16 + l) # rest"
    by (auto split: option.splits)
  moreover from this have "h < 16" "l < 16" by (simp_all add: hex_value_less)
  ultimately show ?case
    using 3 hex_digit_value by simp
qed auto

section \<open>Big-endian integers\<close>

text \<open>\<open>binary.BigEndian.PutUint64\<close> and \<open>Uint64\<close>, at any width.\<close>

fun be_bytes :: "nat \<Rightarrow> nat \<Rightarrow> bytes" where
  "be_bytes 0 n = []"
| "be_bytes (Suc w) n = byte_of_nat (n div 256 ^ w mod 256) # be_bytes w n"

fun be_value :: "bytes \<Rightarrow> nat" where
  "be_value [] = 0"
| "be_value (b # bs) = unat b * 256 ^ length bs + be_value bs"

lemma length_be_bytes [simp]: "length (be_bytes w n) = w"
  by (induction w) simp_all

lemma be_value_less: "be_value bs < 256 ^ length bs"
proof (induction bs)
  case (Cons b bs)
  have "unat b * 256 ^ length bs + be_value bs < (unat b + 1) * 256 ^ length bs"
    using Cons by simp
  also have "\<dots> \<le> 256 * 256 ^ length bs"
    by (intro mult_right_mono) (use unat_byte_less [of b] in linarith, simp)
  finally show ?case by simp
qed simp

lemma be_value_bytes: "be_value (be_bytes w n) = n mod 256 ^ w"
proof (induction w)
  case (Suc w)
  have "n mod 256 ^ Suc w = n mod 256 ^ w + 256 ^ w * (n div 256 ^ w mod 256)"
    by (simp add: mod_mult2_eq mult.commute [of 256])
  with Suc show ?case by simp
qed simp

lemma be_value_bytes_id [simp]: "n < 256 ^ w \<Longrightarrow> be_value (be_bytes w n) = n"
  by (simp add: be_value_bytes)

lemma be_bytes_inject: "m < 256 ^ w \<Longrightarrow> n < 256 ^ w \<Longrightarrow> be_bytes w m = be_bytes w n \<longleftrightarrow> m = n"
  by (metis be_value_bytes_id)

section \<open>Unpadded URL-safe base64\<close>

definition b64_alphabet :: string where
  "b64_alphabet = ''ABCDEFGHIJKLMNOPQRSTUVWXYZabcdefghijklmnopqrstuvwxyz0123456789-_''"

definition b64_char :: "nat \<Rightarrow> char" where
  "b64_char n = b64_alphabet ! (n mod 64)"

definition b64_value :: "char \<Rightarrow> nat option" where
  "b64_value c = map_of (zip b64_alphabet [0..<64]) c"

fun b64_encode :: "bytes \<Rightarrow> string" where
  "b64_encode [] = []"
| "b64_encode [a] = (let n = unat a * 16 in [b64_char (n div 64), b64_char n])"
| "b64_encode [a, b] = (let n = (unat a * 256 + unat b) * 4 in
     [b64_char (n div 4096), b64_char (n div 64), b64_char n])"
| "b64_encode (a # b # c # s) = (let n = (unat a * 256 + unat b) * 256 + unat c in
     b64_char (n div 262144) # b64_char (n div 4096) # b64_char (n div 64) # b64_char n
       # b64_encode s)"

text \<open>
  Go's decoder skips carriage returns and line feeds, ignores the unused low bits of the last
  character and refuses every other byte outside the alphabet.
\<close>

fun b64_quanta :: "nat list \<Rightarrow> bytes option" where
  "b64_quanta [] = Some []"
| "b64_quanta [p] = None"
| "b64_quanta [p, q] = Some [byte_of_nat ((p * 64 + q) div 16)]"
| "b64_quanta [p, q, r] = (let n = ((p * 64 + q) * 64 + r) div 4 in
     Some [byte_of_nat (n div 256), byte_of_nat (n mod 256)])"
| "b64_quanta (p # q # r # s # t) = (let n = ((p * 64 + q) * 64 + r) * 64 + s in
     map_option (\<lambda>bs. byte_of_nat (n div 65536) # byte_of_nat (n div 256 mod 256)
                   # byte_of_nat (n mod 256) # bs) (b64_quanta t))"

definition b64_decode :: "string \<Rightarrow> bytes option" where
  "b64_decode s =
     (let cs = filter (\<lambda>c. c \<noteq> CHR 0x0A \<and> c \<noteq> CHR 0x0D) s in
      if list_all (\<lambda>c. b64_value c \<noteq> None) cs then b64_quanta (map (the \<circ> b64_value) cs)
      else None)"

lemma b64_alphabet_length: "length b64_alphabet = 64"
  by (simp add: b64_alphabet_def)

lemma b64_alphabet_distinct: "distinct b64_alphabet"
  by (simp add: b64_alphabet_def)

lemma b64_value_char [simp]: "b64_value (b64_char n) = Some (n mod 64)"
proof -
  have "map_of (zip b64_alphabet [0..<64]) (b64_alphabet ! (n mod 64)) = Some ([0..<64] ! (n mod 64))"
    by (rule map_of_zip_nth) (simp_all add: b64_alphabet_length b64_alphabet_distinct)
  then show ?thesis by (simp add: b64_value_def b64_char_def)
qed

lemma b64_char_in: "b64_char n \<in> set b64_alphabet"
  unfolding b64_char_def by (rule nth_mem) (simp add: b64_alphabet_length)

lemma b64_encode_alphabet: "set (b64_encode bs) \<subseteq> set b64_alphabet"
  by (induction bs rule: b64_encode.induct) (auto simp: Let_def b64_char_in)

lemma b64_encode_no: "c \<notin> set b64_alphabet \<Longrightarrow> c \<notin> set (b64_encode bs)"
  using b64_encode_alphabet by blast

lemma length_b64_encode: "length (b64_encode bs) \<le> 2 * length bs"
  by (induction bs rule: b64_encode.induct) (simp_all add: Let_def)

lemma b64_split12: "n < (4096 :: nat) \<Longrightarrow> n div 64 mod 64 * 64 + n mod 64 = n"
  using div_mult_mod_eq [of n 64] by (simp add: div_less_iff_less_mult)

lemma b64_split18:
  "n < (262144 :: nat) \<Longrightarrow> (n div 4096 mod 64 * 64 + n div 64 mod 64) * 64 + n mod 64 = n"
  using b64_split12 [of "n div 64"] div_mult_mod_eq [of n 64]
  by (simp add: div_less_iff_less_mult div_mult2_eq [symmetric])

lemma b64_split24:
  "n < (16777216 :: nat) \<Longrightarrow>
     ((n div 262144 mod 64 * 64 + n div 4096 mod 64) * 64 + n div 64 mod 64) * 64 + n mod 64 = n"
  using b64_split18 [of "n div 64"] div_mult_mod_eq [of n 64]
  by (simp add: div_less_iff_less_mult div_mult2_eq [symmetric])

lemma byte_pair_parts:
  "(m * 256 + unat (b :: byte)) div 256 = m" "(m * 256 + unat b) mod 256 = unat b"
  using unat_byte_less [of b] by simp_all

lemma b64_quanta_encode: "b64_quanta (map (the \<circ> b64_value) (b64_encode bs)) = Some bs"
proof (induction bs rule: b64_encode.induct)
  case (2 a)
  have "unat a * 16 < 4096" using unat_byte_less [of a] by linarith
  from b64_split12 [OF this]
  have "(unat a * 16 div 64 mod 64 * 64 + unat a * 16 mod 64) div 16 = unat a"
    by (metis nonzero_mult_div_cancel_right zero_neq_numeral)
  then show ?case by (simp only: b64_encode.simps Let_def list.map o_apply b64_value_char
        option.sel b64_quanta.simps byte_of_nat_unat)
next
  case (3 a b)
  let ?n = "(unat a * 256 + unat b) * 4"
  have "?n < 262144" using unat_byte_le [of a] unat_byte_le [of b] by simp
  from b64_split18 [OF this] have "((?n div 4096 mod 64 * 64 + ?n div 64 mod 64) * 64 + ?n mod 64) div 4
      = unat a * 256 + unat b" by (metis nonzero_mult_div_cancel_right zero_neq_numeral)
  then show ?case by (simp only: b64_encode.simps Let_def list.map o_apply b64_value_char
        option.sel b64_quanta.simps byte_pair_parts byte_of_nat_unat)
next
  case (4 a b c s)
  let ?n = "(unat a * 256 + unat b) * 256 + unat c"
  have less: "?n < 16777216"
    using unat_byte_le [of a] unat_byte_le [of b] unat_byte_le [of c] by simp
  have "?n div 65536 = ?n div 256 div 256" by (simp add: div_mult2_eq [symmetric])
  then have "?n div 65536 = unat a" by (simp only: byte_pair_parts)
  then show ?case
    by (simp only: b64_encode.simps Let_def list.map o_apply b64_value_char option.sel
        b64_quanta.simps b64_split24 [OF less] byte_pair_parts byte_of_nat_unat)
      (use 4 in \<open>simp add: o_def\<close>)
qed simp

lemma b64_roundtrip [simp]: "b64_decode (b64_encode bs) = Some bs"
proof -
  have "CHR 0x0A \<notin> set b64_alphabet" "CHR 0x0D \<notin> set b64_alphabet"
    by (simp_all add: b64_alphabet_def)
  then have "filter (\<lambda>c. c \<noteq> CHR 0x0A \<and> c \<noteq> CHR 0x0D) (b64_encode bs) = b64_encode bs"
    using b64_encode_no by (intro filter_True) blast
  moreover have "list_all (\<lambda>c. b64_value c \<noteq> None) (b64_encode bs)"
    by (induction bs rule: b64_encode.induct) (simp_all add: Let_def)
  ultimately show ?thesis by (simp add: b64_decode_def b64_quanta_encode)
qed

section \<open>SHA-256 and HMAC\<close>

type_synonym w32 = "32 word"

text \<open>
  The constants of FIPS 180-4: the first thirty-two bits of the fractional parts of the cube roots of
  the first sixty-four primes, and of the square roots of the first eight. \<open>root_bits k b n r\<close> extends
  the root \<open>r\<close> by its next \<open>b\<close> bits, from the highest; thirty-seven suffice below two to the fifth.
\<close>

fun root_bits :: "nat \<Rightarrow> nat \<Rightarrow> nat \<Rightarrow> nat \<Rightarrow> nat" where
  "root_bits k 0 n r = r"
| "root_bits k (Suc b) n r = root_bits k b n (if (r + 2 ^ b) ^ k \<le> n then r + 2 ^ b else r)"

definition root_fraction :: "nat \<Rightarrow> nat \<Rightarrow> w32" where
  "root_fraction k p = word_of_nat (root_bits k 37 (p * 2 ^ (32 * k)) 0)"

definition sha_primes :: "nat list" where
  "sha_primes =
    [2, 3, 5, 7, 11, 13, 17, 19, 23, 29, 31, 37, 41, 43, 47, 53, 59, 61, 67, 71, 73, 79, 83,
     89, 97, 101, 103, 107, 109, 113, 127, 131, 137, 139, 149, 151, 157, 163, 167, 173,
     179, 181, 191, 193, 197, 199, 211, 223, 227, 229, 233, 239, 241, 251, 257, 263, 269,
     271, 277, 281, 283, 293, 307, 311]"

definition sha_K :: "w32 list" where
  "sha_K = map (root_fraction 3) sha_primes"

definition sha_init :: "w32 list" where
  "sha_init = map (root_fraction 2) (take 8 sha_primes)"

definition rotr :: "nat \<Rightarrow> w32 \<Rightarrow> w32" where
  "rotr n x = drop_bit n x OR push_bit (32 - n) x"

text \<open>The message schedule, newest word first, and the sixty-four rounds.\<close>

fun sha_schedule :: "nat \<Rightarrow> w32 list \<Rightarrow> w32 list" where
  "sha_schedule 0 ws = ws"
| "sha_schedule (Suc n) ws =
     (let w15 = ws ! 14; w2 = ws ! 1;
          s0 = rotr 7 w15 XOR rotr 18 w15 XOR drop_bit 3 w15;
          s1 = rotr 17 w2 XOR rotr 19 w2 XOR drop_bit 10 w2
      in sha_schedule n ((ws ! 15 + s0 + ws ! 6 + s1) # ws))"

fun sha_round :: "w32 list \<Rightarrow> w32 \<times> w32 \<Rightarrow> w32 list" where
  "sha_round [a, b, c, d, e, f, g, h] (k, w) =
     (let s1 = rotr 6 e XOR rotr 11 e XOR rotr 25 e;
          ch = (e AND f) XOR (NOT e AND g);
          t1 = h + s1 + ch + k + w;
          s0 = rotr 2 a XOR rotr 13 a XOR rotr 22 a;
          maj = (a AND b) XOR (a AND c) XOR (b AND c);
          t2 = s0 + maj
      in [t1 + t2, a, b, c, d + t1, e, f, g])"
| "sha_round s kw = s"

definition w32_of_bytes :: "bytes \<Rightarrow> w32" where
  "w32_of_bytes bs = word_of_nat (be_value bs)"

definition sha_block :: "w32 list \<Rightarrow> bytes \<Rightarrow> w32 list" where
  "sha_block h block =
     (let ws = map (\<lambda>i. w32_of_bytes (take 4 (drop (4 * i) block))) [0..<16];
          schedule = rev (sha_schedule 48 (rev ws))
      in map2 (+) h (foldl sha_round h (zip sha_K schedule)))"

definition sha_pad :: "bytes \<Rightarrow> bytes" where
  "sha_pad m = m @ [0x80] @ replicate ((119 - length m mod 64) mod 64) 0
     @ be_bytes 8 (8 * length m)"

fun sha_blocks :: "nat \<Rightarrow> w32 list \<Rightarrow> bytes \<Rightarrow> w32 list" where
  "sha_blocks 0 h m = h"
| "sha_blocks (Suc n) h m = sha_blocks n (sha_block h (take 64 m)) (drop 64 m)"

definition Sum256 :: "bytes \<Rightarrow> bytes" where
  "Sum256 m = (let p = sha_pad m in
     concat (map (\<lambda>w. be_bytes 4 (unat w)) (sha_blocks (length p div 64) sha_init p)))"

definition hmac_sha256 :: "bytes \<Rightarrow> bytes \<Rightarrow> bytes" where
  "hmac_sha256 key m =
     (let k0 = (if length key > 64 then Sum256 key else key);
          k = k0 @ replicate (64 - length k0) 0
      in Sum256 (map (\<lambda>b. b XOR 0x5c) k @ Sum256 (map (\<lambda>b. b XOR 0x36) k @ m)))"

lemma length_sha_round: "length s = 8 \<Longrightarrow> length (sha_round s kw) = 8"
  by (induction s kw rule: sha_round.induct) (simp_all add: Let_def)

lemma length_sha_rounds: "length s = 8 \<Longrightarrow> length (foldl sha_round s kws) = 8"
  by (induction kws arbitrary: s) (simp_all add: length_sha_round)

lemma length_sha_block [simp]: "length h = 8 \<Longrightarrow> length (sha_block h b) = 8"
  by (simp add: sha_block_def Let_def length_sha_rounds)

lemma length_sha_blocks [simp]: "length h = 8 \<Longrightarrow> length (sha_blocks n h m) = 8"
  by (induction n h m rule: sha_blocks.induct) simp_all

lemma length_concat_const: "\<forall>x \<in> set xs. length (f x) = k \<Longrightarrow> length (concat (map f xs)) = k * length xs"
  by (induction xs) simp_all

lemma length_Sum256 [simp]: "length (Sum256 m) = 32"
  by (simp add: Sum256_def Let_def length_concat_const [where k = 4] sha_init_def sha_primes_def)

lemma length_hmac_sha256 [simp]: "length (hmac_sha256 k m) = 32"
  by (simp add: hmac_sha256_def Let_def)

end
