(* ===== verification/Domain_Primitives.thy ===== *)
theory Domain_Primitives
  imports Domain_Errors Go_Bytes
begin

text \<open>
  The value types of \<open>internal/domain/primitives.go\<close>: UUIDs (version 7 construction, parsing,
  printing), SHA-256 digests, quantities with checked arithmetic, and signed pagination cursors.
  A UUID is a list of sixteen bytes, a digest a list of thirty-two.
\<close>

section \<open>UUIDs\<close>

type_synonym UUID = bytes

text \<open>\<open>byte(milliseconds >> k)\<close> for the six shifts of the timestamp.\<close>

definition NewUUIDv7From :: "instant \<Rightarrow> bytes result \<Rightarrow> UUID result" where
  "NewUUIDv7From now random =
     (let milliseconds = UnixMilli now in
      if milliseconds < 0 \<or> milliseconds > 2 ^ 48 - 1
      then Inl (ErrNew ''UUIDv7 timestamp is out of range'')
      else case random of
        Inl err \<Rightarrow> Inl (ErrWrap ''read UUID entropy'' err)
      | Inr entropy \<Rightarrow>
          Inr (map (\<lambda>k. byte_of_nat (nat (milliseconds div 2 ^ k mod 256))) [40, 32, 24, 16, 8, 0]
               @ [0x70 OR (entropy ! 0 AND 0x0f), entropy ! 1, 0x80 OR (entropy ! 2 AND 0x3f)]
               @ take 7 (drop 3 entropy)))"

definition ParseUUID :: "string \<Rightarrow> UUID result" where
  "ParseUUID input =
     (if length input \<noteq> 36 \<or> input ! 8 \<noteq> CHR ''-'' \<or> input ! 13 \<noteq> CHR ''-''
         \<or> input ! 18 \<noteq> CHR ''-'' \<or> input ! 23 \<noteq> CHR ''-''
      then Inl (ErrNew ''invalid UUID format'')
      else case hex_DecodeString (filter (\<lambda>c. c \<noteq> CHR ''-'') input) of
        None \<Rightarrow> Inl (ErrNew ''invalid UUID format'')
      | Some decoded \<Rightarrow>
          if length decoded \<noteq> 16 then Inl (ErrNew ''invalid UUID format'') else Inr decoded)"

definition UUID_String :: "UUID \<Rightarrow> string" where
  "UUID_String uid =
     hex_EncodeToString (take 4 uid) @ ''-''
     @ hex_EncodeToString (take 2 (drop 4 uid)) @ ''-''
     @ hex_EncodeToString (take 2 (drop 6 uid)) @ ''-''
     @ hex_EncodeToString (take 2 (drop 8 uid)) @ ''-''
     @ hex_EncodeToString (take 6 (drop 10 uid))"

definition MillisecondsFromUUIDv7 :: "UUID \<Rightarrow> int result" where
  "MillisecondsFromUUIDv7 uid =
     (if drop_bit 4 (uid ! 6) \<noteq> 7 \<or> drop_bit 6 (uid ! 8) \<noteq> 2
      then Inl (ErrNew ''not an RFC 9562 UUIDv7'')
      else Inr (wrap64 (int (be_value ([0, 0] @ take 6 uid)))))"

lemma hex_no_dash: "CHR ''-'' \<notin> set (hex_EncodeToString bs)"
  using hex_encode_lower [of "CHR ''-''" bs] by (auto simp: is_lower_hex_def)

lemma filter_dash_hex [simp]:
  "filter (\<lambda>c. c \<noteq> CHR ''-'') (hex_EncodeToString bs) = hex_EncodeToString bs"
  using hex_no_dash by (intro filter_True) metis

lemma take_drop_join: "take m (drop n xs) @ drop (n + m) xs = drop n xs"
  by (metis append_take_drop_id drop_drop add.commute)

lemma UUID_bytes_split:
  assumes "length uid = 16"
  shows "take 4 uid @ take 2 (drop 4 uid) @ take 2 (drop 6 uid) @ take 2 (drop 8 uid)
    @ take 6 (drop 10 uid) = uid"
  using take_drop_join [of 2 4 uid] take_drop_join [of 2 6 uid] take_drop_join [of 2 8 uid]
    assms append_take_drop_id [of 4 uid] by simp

lemma ParseUUID_String:
  assumes "length uid = 16"
  shows "ParseUUID (UUID_String uid) = Inr uid"
proof -
  let ?s = "UUID_String uid"
  have len: "length ?s = 36" using assms by (simp add: UUID_String_def)
  have dashes: "?s ! 8 = CHR ''-''" "?s ! 13 = CHR ''-''" "?s ! 18 = CHR ''-''" "?s ! 23 = CHR ''-''"
    using assms by (simp_all add: UUID_String_def nth_append)
  have "filter (\<lambda>c. c \<noteq> CHR ''-'') ?s = hex_EncodeToString uid"
    using UUID_bytes_split [OF assms] by (simp add: UUID_String_def flip: hex_encode_append)
  with len dashes assms show ?thesis by (simp add: ParseUUID_def)
qed

lemma ParseUUID_length: "ParseUUID s = Inr uid \<Longrightarrow> length uid = 16"
  by (auto simp: ParseUUID_def split: if_splits option.splits)

lemma ParseUUID_nonempty: "ParseUUID s = Inr uid \<Longrightarrow> length s = 36"
  by (auto simp: ParseUUID_def split: if_splits)

lemma be_value_timestamp:
  assumes "0 \<le> ms" "ms < 2 ^ 48"
  shows "be_value (map (\<lambda>k. byte_of_nat (nat (ms div 2 ^ k mod 256))) [40, 32, 24, 16, 8, 0]) = nat ms"
proof -
  have "nat (ms div 2 ^ k mod 256) = nat ms div 2 ^ k mod 256" for k
    using assms by (simp add: nat_mod_distrib nat_div_distrib nat_power_eq pos_imp_zdiv_nonneg_iff)
  moreover have "be_bytes (Suc (Suc (Suc (Suc (Suc (Suc 0)))))) (nat ms) =
      map (\<lambda>k. byte_of_nat (nat ms div 2 ^ k mod 256)) [40, 32, 24, 16, 8, 0]"
    by simp
  moreover have "be_value (be_bytes (Suc (Suc (Suc (Suc (Suc (Suc 0)))))) (nat ms)) = nat ms"
    using assms by (intro be_value_bytes_id) (simp add: nat_less_iff)
  ultimately show ?thesis by simp
qed

lemma NewUUIDv7From_shape:
  assumes "NewUUIDv7From now (Inr entropy) = Inr uid" and "length entropy = 10"
  shows "length uid = 16" "MillisecondsFromUUIDv7 uid = Inr (UnixMilli now)"
proof -
  let ?ms = "UnixMilli now"
  let ?ts = "map (\<lambda>k. byte_of_nat (nat (?ms div 2 ^ k mod 256))) [40, 32, 24, 16, 8, 0]"
  from assms(1) have ms: "0 \<le> ?ms" "?ms < 2 ^ 48"
    and uid: "uid = ?ts @ [0x70 OR (entropy ! 0 AND 0x0f), entropy ! 1,
        0x80 OR (entropy ! 2 AND 0x3f)] @ take 7 (drop 3 entropy)"
    by (auto simp: NewUUIDv7From_def Let_def split: if_splits)
  from uid assms(2) show "length uid = 16" by simp
  have bits: "drop_bit 4 (uid ! 6) = 7" "drop_bit 6 (uid ! 8) = 2"
    by (simp_all add: uid drop_bit_or drop_bit_and)
  have "take 6 uid = ?ts" by (simp add: uid)
  moreover have "be_value ([0, 0] @ bs) = be_value bs" for bs by simp
  ultimately have "be_value ([0, 0] @ take 6 uid) = nat ?ms"
    using be_value_timestamp [OF ms] by metis
  moreover from ms have "is_int64 ?ms" by (simp add: is_int64_def min_int64_def max_int64_def)
  ultimately show "MillisecondsFromUUIDv7 uid = Inr ?ms"
    using bits ms by (simp add: MillisecondsFromUUIDv7_def)
qed

lemma UUID_String_inject:
  "length a = 16 \<Longrightarrow> length b = 16 \<Longrightarrow> UUID_String a = UUID_String b \<longleftrightarrow> a = b"
  by (metis ParseUUID_String Inr_inject)

section \<open>Digests\<close>

type_synonym Digest = bytes

definition DigestBytes :: "string \<Rightarrow> Digest" where
  "DigestBytes input = Sum256 (bytes_of_string input)"

definition Digest_String :: "Digest \<Rightarrow> string" where
  "Digest_String digest = hex_EncodeToString digest"

definition ParseDigest :: "string \<Rightarrow> Digest result" where
  "ParseDigest input =
     (case hex_DecodeString input of
        None \<Rightarrow> Inl (ErrNew ''invalid SHA-256 digest'')
      | Some decoded \<Rightarrow>
          if length decoded \<noteq> 32 then Inl (ErrNew ''invalid SHA-256 digest'') else Inr decoded)"

lemma ParseDigest_String [simp]: "length d = 32 \<Longrightarrow> ParseDigest (Digest_String d) = Inr d"
  by (simp add: ParseDigest_def Digest_String_def)

lemma length_DigestBytes [simp]: "length (DigestBytes s) = 32"
  by (simp add: DigestBytes_def)

lemma ParseDigest_length: "ParseDigest s = Inr d \<Longrightarrow> length s = 64 \<and> length d = 32"
  by (auto simp: ParseDigest_def split: option.splits if_splits dest: hex_decode_length)

lemma ParseDigest_chars: "ParseDigest s = Inr d \<Longrightarrow> c \<in> set s \<Longrightarrow> hex_value c \<noteq> None"
  by (auto simp: ParseDigest_def split: option.splits if_splits dest: hex_decode_chars)

section \<open>Quantities\<close>

record Quantity =
  qty_amount :: int
  qty_unit :: string

definition NewQuantity :: "int \<Rightarrow> string \<Rightarrow> Quantity result" where
  "NewQuantity amount u =
     (if amount < 0 then Inl (ErrNew ''quantity cannot be negative'')
      else let unit' = TrimSpace u in
        if unit' = [] \<or> length unit' > 32 then Inl (ErrNew ''quantity unit is invalid'')
        else Inr \<lparr>qty_amount = amount, qty_unit = unit'\<rparr>)"

definition Quantity_Add :: "Quantity \<Rightarrow> Quantity \<Rightarrow> Quantity result" where
  "Quantity_Add q r =
     (if qty_unit q \<noteq> qty_unit r then Inl (ErrNew ''quantity units differ'')
      else if qty_amount r > wrap64 (max_int64 - qty_amount q)
        then Inl (ErrNew ''quantity overflow'')
      else Inr \<lparr>qty_amount = wrap64 (qty_amount q + qty_amount r), qty_unit = qty_unit q\<rparr>)"

definition Quantity_Multiply :: "Quantity \<Rightarrow> int \<Rightarrow> Quantity result" where
  "Quantity_Multiply q multiplier =
     (if multiplier < 0 then Inl (ErrNew ''quantity multiplier cannot be negative'')
      else if qty_amount q \<noteq> 0 \<and> multiplier > quot64 max_int64 (qty_amount q)
        then Inl (ErrNew ''quantity overflow'')
      else Inr \<lparr>qty_amount = wrap64 (qty_amount q * multiplier), qty_unit = qty_unit q\<rparr>)"

definition CheckedAdd :: "int \<Rightarrow> int \<Rightarrow> int result" where
  "CheckedAdd left right =
     (if (right > 0 \<and> left > wrap64 (max_int64 - right))
         \<or> (right < 0 \<and> left < wrap64 (min_int64 - right))
      then Inl (ErrNew ''integer overflow'') else Inr (wrap64 (left + right)))"

definition Quantity_wf :: "Quantity \<Rightarrow> bool" where
  "Quantity_wf q \<longleftrightarrow> 0 \<le> qty_amount q \<and> qty_amount q \<le> max_int64 \<and> qty_unit q \<noteq> []
     \<and> length (qty_unit q) \<le> 32"

lemma NewQuantity_wf: "NewQuantity a u = Inr q \<Longrightarrow> is_int64 a \<Longrightarrow> Quantity_wf q"
  by (auto simp: NewQuantity_def Quantity_wf_def is_int64_def Let_def split: if_splits)

lemma Quantity_Add_exact:
  assumes "Quantity_wf q" "Quantity_wf r" "qty_unit q = qty_unit r"
  shows "Quantity_Add q r =
    (if qty_amount q + qty_amount r \<le> max_int64
     then Inr \<lparr>qty_amount = qty_amount q + qty_amount r, qty_unit = qty_unit q\<rparr>
     else Inl (ErrNew ''quantity overflow''))"
proof -
  from assms have "is_int64 (max_int64 - qty_amount q)"
    by (simp add: Quantity_wf_def is_int64_def min_int64_def max_int64_def)
  moreover have "is_int64 (qty_amount q + qty_amount r)"
    if "qty_amount q + qty_amount r \<le> max_int64"
    using that assms by (simp add: Quantity_wf_def is_int64_def min_int64_def)
  ultimately show ?thesis using assms by (auto simp: Quantity_Add_def)
qed

lemma Quantity_Multiply_exact:
  assumes "Quantity_wf q" "0 \<le> m"
  shows "Quantity_Multiply q m =
    (if qty_amount q * m \<le> max_int64
     then Inr \<lparr>qty_amount = qty_amount q * m, qty_unit = qty_unit q\<rparr>
     else Inl (ErrNew ''quantity overflow''))"
proof (cases "qty_amount q = 0")
  case True
  then show ?thesis using assms
    by (simp add: Quantity_Multiply_def max_int64_def wrap64_def)
next
  case False
  with assms have pos: "0 < qty_amount q" by (simp add: Quantity_wf_def)
  have le: "m \<le> quot64 max_int64 (qty_amount q) \<longleftrightarrow> qty_amount q * m \<le> max_int64"
    using pos by (simp add: quot64_nonneg int_le_div_iff max_int64_def)
  have "is_int64 (qty_amount q * m)" if "qty_amount q * m \<le> max_int64"
    using that pos assms(2) by (simp add: is_int64_def min_int64_def mult_nonneg_nonneg order_trans [of _ 0])
  with le pos assms show ?thesis
    by (auto simp: Quantity_Multiply_def not_less [symmetric])
qed

lemma CheckedAdd_exact:
  assumes "is_int64 a" "is_int64 b"
  shows "CheckedAdd a b = (if is_int64 (a + b) then Inr (a + b) else Inl (ErrNew ''integer overflow''))"
proof -
  have "b > 0 \<Longrightarrow> is_int64 (max_int64 - b)" "b < 0 \<Longrightarrow> is_int64 (min_int64 - b)"
    using assms by (auto simp: is_int64_def min_int64_def max_int64_def)
  with assms show ?thesis
    by (auto simp: CheckedAdd_def is_int64_def)
qed

end
