(* ===== verification/Go_Regexp.thy ===== *)
theory Go_Regexp
  imports TG_Prelude
begin

text \<open>
  The fragment of Go's \<open>regexp\<close> the sources use: anchored patterns \<open>^...$\<close> over byte classes,
  concatenation, alternation, \<open>*\<close>, \<open>+\<close>, \<open>?\<close> and bounded repetition. \<open>MatchString\<close> computes
  by derivatives; \<open>in_lang\<close> is the meaning of a pattern, and the two agree.
\<close>

datatype re =
    Void
  | Eps
  | Cls "(nat \<times> nat) list"
  | Cat re re
  | Alt re re
  | Star re

definition in_class :: "(nat \<times> nat) list \<Rightarrow> char \<Rightarrow> bool" where
  "in_class rs c = list_ex (\<lambda>(lo, hi). lo \<le> of_char c \<and> of_char c \<le> hi) rs"

definition Chr :: "char \<Rightarrow> re" where
  "Chr c = Cls [(of_char c, of_char c)]"

definition Plus :: "re \<Rightarrow> re" where
  "Plus r = Cat r (Star r)"

definition Opt :: "re \<Rightarrow> re" where
  "Opt r = Alt Eps r"

fun Upto :: "nat \<Rightarrow> re \<Rightarrow> re" where
  "Upto 0 r = Eps"
| "Upto (Suc n) r = Opt (Cat r (Upto n r))"

fun Times :: "nat \<Rightarrow> re \<Rightarrow> re" where
  "Times 0 r = Eps"
| "Times (Suc n) r = Cat r (Times n r)"

definition cls_lower :: "(nat \<times> nat) list" where "cls_lower = [(97, 122)]"
definition cls_upper :: "(nat \<times> nat) list" where "cls_upper = [(65, 90)]"
definition cls_digit :: "(nat \<times> nat) list" where "cls_digit = [(48, 57)]"

inductive in_lang :: "re \<Rightarrow> string \<Rightarrow> bool" where
  eps: "in_lang Eps []"
| cls: "in_class rs c \<Longrightarrow> in_lang (Cls rs) [c]"
| cat: "in_lang r s \<Longrightarrow> in_lang q t \<Longrightarrow> in_lang (Cat r q) (s @ t)"
| alt1: "in_lang r s \<Longrightarrow> in_lang (Alt r q) s"
| alt2: "in_lang q s \<Longrightarrow> in_lang (Alt r q) s"
| star0: "in_lang (Star r) []"
| star1: "in_lang r s \<Longrightarrow> in_lang (Star r) t \<Longrightarrow> in_lang (Star r) (s @ t)"

inductive_cases in_lang_VoidE: "in_lang Void s"
inductive_cases in_lang_EpsE: "in_lang Eps s"
inductive_cases in_lang_ClsE: "in_lang (Cls rs) s"
inductive_cases in_lang_CatE: "in_lang (Cat r q) s"
inductive_cases in_lang_AltE: "in_lang (Alt r q) s"
inductive_cases in_lang_StarE: "in_lang (Star r) s"

lemmas in_lang_elims = in_lang_VoidE in_lang_EpsE in_lang_ClsE in_lang_CatE in_lang_AltE

fun nullable :: "re \<Rightarrow> bool" where
  "nullable Void = False"
| "nullable Eps = True"
| "nullable (Cls rs) = False"
| "nullable (Cat r q) = (nullable r \<and> nullable q)"
| "nullable (Alt r q) = (nullable r \<or> nullable q)"
| "nullable (Star r) = True"

fun deriv :: "char \<Rightarrow> re \<Rightarrow> re" where
  "deriv c Void = Void"
| "deriv c Eps = Void"
| "deriv c (Cls rs) = (if in_class rs c then Eps else Void)"
| "deriv c (Cat r q) =
     (if nullable r then Alt (Cat (deriv c r) q) (deriv c q) else Cat (deriv c r) q)"
| "deriv c (Alt r q) = Alt (deriv c r) (deriv c q)"
| "deriv c (Star r) = Cat (deriv c r) (Star r)"

text \<open>Dropping the empty pattern keeps the derivatives small.\<close>

fun simp_cat :: "re \<Rightarrow> re \<Rightarrow> re" where
  "simp_cat Void q = Void"
| "simp_cat Eps q = q"
| "simp_cat r q = Cat r q"

fun simp_alt :: "re \<Rightarrow> re \<Rightarrow> re" where
  "simp_alt Void q = q"
| "simp_alt r Void = r"
| "simp_alt r q = (if r = q then r else Alt r q)"

fun simplify :: "re \<Rightarrow> re" where
  "simplify (Cat r q) = simp_cat (simplify r) q"
| "simplify (Alt r q) = simp_alt (simplify r) (simplify q)"
| "simplify r = r"

fun MatchString :: "re \<Rightarrow> string \<Rightarrow> bool" where
  "MatchString r [] = nullable r"
| "MatchString r (c # s) = MatchString (simplify (deriv c r)) s"

section \<open>The matcher decides the language\<close>

lemma in_lang_Void [simp]: "\<not> in_lang Void s"
  by (auto elim: in_lang_VoidE)

lemma in_lang_Eps [simp]: "in_lang Eps s \<longleftrightarrow> s = []"
  by (auto elim: in_lang_EpsE intro: eps)

lemma in_lang_Cls [simp]: "in_lang (Cls rs) s \<longleftrightarrow> (\<exists>c. s = [c] \<and> in_class rs c)"
  by (auto elim: in_lang_ClsE intro: cls)

lemma in_lang_Cat: "in_lang (Cat r q) s \<longleftrightarrow> (\<exists>a b. s = a @ b \<and> in_lang r a \<and> in_lang q b)"
  by (blast elim: in_lang_CatE intro: cat)

lemma in_lang_Cat_Cls:
  "in_lang (Cat (Cls rs) q) s \<longleftrightarrow> (\<exists>c t. s = c # t \<and> in_class rs c \<and> in_lang q t)"
  using cat [of "Cls rs" "[c]" q t for c t] by (fastforce simp: in_lang_Cat)

lemma in_lang_Alt [simp]: "in_lang (Alt r q) s \<longleftrightarrow> in_lang r s \<or> in_lang q s"
  by (auto elim: in_lang_AltE intro: alt1 alt2)

lemma nullable_iff: "nullable r \<longleftrightarrow> in_lang r []"
  by (induction r) (auto simp: in_lang_Cat intro: star0)

lemma star_Cons:
  "in_lang (Star r) (c # s) \<Longrightarrow> \<exists>a b. s = a @ b \<and> in_lang r (c # a) \<and> in_lang (Star r) b"
proof (induction "Star r" "c # s" arbitrary: s rule: in_lang.induct)
  case (star1 a t)
  show ?case
  proof (cases a)
    case Nil
    with star1 show ?thesis by simp
  next
    case (Cons x xs)
    with star1 show ?thesis by auto
  qed
qed

lemma deriv_iff: "in_lang (deriv c r) s \<longleftrightarrow> in_lang r (c # s)"
proof (induction r arbitrary: s)
  case (Cat r q)
  have "in_lang (Cat r q) (c # s) \<longleftrightarrow>
      (\<exists>a b. s = a @ b \<and> in_lang r (c # a) \<and> in_lang q b) \<or> in_lang r [] \<and> in_lang q (c # s)"
    by (auto simp: in_lang_Cat Cons_eq_append_conv)
  with Cat show ?case by (auto simp: in_lang_Cat nullable_iff)
next
  case (Star r)
  show ?case
  proof
    assume "in_lang (deriv c (Star r)) s"
    with Star show "in_lang (Star r) (c # s)"
      by (auto simp: in_lang_Cat dest: star1 [of r "c # _"])
  next
    assume "in_lang (Star r) (c # s)"
    with Star show "in_lang (deriv c (Star r)) s"
      using star_Cons by (fastforce simp: in_lang_Cat)
  qed
qed auto

lemma simp_cat_iff [simp]: "in_lang (simp_cat r q) s \<longleftrightarrow> in_lang (Cat r q) s"
  by (cases r) (auto simp: in_lang_Cat)

lemma simp_alt_iff [simp]: "in_lang (simp_alt r q) s \<longleftrightarrow> in_lang r s \<or> in_lang q s"
  by (induction r q rule: simp_alt.induct) auto

lemma simplify_iff [simp]: "in_lang (simplify r) s \<longleftrightarrow> in_lang r s"
  by (induction r arbitrary: s rule: simplify.induct) (auto simp: in_lang_Cat)

lemma MatchString_iff: "MatchString r s \<longleftrightarrow> in_lang r s"
  by (induction r s rule: MatchString.induct) (simp_all add: nullable_iff deriv_iff)

section \<open>Which bytes a match contains\<close>

fun re_allows :: "re \<Rightarrow> char \<Rightarrow> bool" where
  "re_allows Void c = False"
| "re_allows Eps c = False"
| "re_allows (Cls rs) c = in_class rs c"
| "re_allows (Cat r q) c = (re_allows r c \<or> re_allows q c)"
| "re_allows (Alt r q) c = (re_allows r c \<or> re_allows q c)"
| "re_allows (Star r) c = re_allows r c"

lemma in_lang_allows: "in_lang r s \<Longrightarrow> c \<in> set s \<Longrightarrow> re_allows r c"
  by (induction rule: in_lang.induct) auto

lemma MatchString_allows: "MatchString r s \<Longrightarrow> c \<in> set s \<Longrightarrow> re_allows r c"
  by (simp add: MatchString_iff in_lang_allows)

lemma MatchString_excludes: "\<not> re_allows r c \<Longrightarrow> MatchString r s \<Longrightarrow> c \<notin> set s"
  using MatchString_allows by blast

lemma in_lang_Star_class: "in_lang (Star (Cls rs)) s \<longleftrightarrow> (\<forall>c \<in> set s. in_class rs c)"
proof
  show "in_lang (Star (Cls rs)) s \<Longrightarrow> \<forall>c \<in> set s. in_class rs c"
    using in_lang_allows by fastforce
  show "\<forall>c \<in> set s. in_class rs c \<Longrightarrow> in_lang (Star (Cls rs)) s"
  proof (induction s)
    case (Cons c s)
    then show ?case using star1 [of "Cls rs" "[c]" s] by simp
  qed (simp add: star0)
qed

lemma in_lang_Plus_class:
  "in_lang (Plus (Cls rs)) s \<longleftrightarrow> s \<noteq> [] \<and> (\<forall>c \<in> set s. in_class rs c)"
proof (cases s)
  case (Cons a t)
  then have "in_lang (Plus (Cls rs)) s \<longleftrightarrow> in_class rs a \<and> (\<forall>c \<in> set t. in_class rs c)"
    by (auto simp: Plus_def in_lang_Cat_Cls in_lang_Star_class)
  with Cons show ?thesis by simp
qed (simp add: Plus_def in_lang_Cat)

lemmas re_eval = Chr_def Plus_def Opt_def in_class_def cls_lower_def cls_upper_def cls_digit_def

end
