(* ===== verification/Go_JSON.thy ===== *)
theory Go_JSON
  imports Domain_Errors Go_Bytes
begin

text \<open>
  \<open>encoding/json\<close> at the level of bytes: UTF-8 decoding, string quoting and unquoting, the
  scanner and the decoder, and compact printing. A JSON value keeps the text of its numbers
  (\<open>Decoder.UseNumber\<close>) and its object members in document order; \<open>normalize\<close> merges equal keys
  the way decoding into \<open>map[string]any\<close> does.
\<close>

datatype json =
    JNull
  | JBool bool
  | JNumber string
  | JString string
  | JArray "json list"
  | JObject "(string \<times> json) list"

section \<open>UTF-8\<close>

definition code :: "char \<Rightarrow> nat" where
  "code c = of_char c"

definition between :: "nat \<Rightarrow> nat \<Rightarrow> char \<Rightarrow> bool" where
  "between lo hi c \<longleftrightarrow> lo \<le> code c \<and> code c \<le> hi"

text \<open>
  The length of the well-formed multi-byte sequence at the head of the input, the ranges being
  those of \<open>unicode/utf8\<close>; \<^const>\<open>None\<close> where \<open>DecodeRune\<close> answers \<open>RuneError\<close>.
\<close>

fun utf8_len :: "string \<Rightarrow> nat option" where
  "utf8_len (a # b # c # d # s) =
     (if between 0xC2 0xDF a \<and> between 0x80 0xBF b then Some 2
      else if (a = CHR 0xE0 \<and> between 0xA0 0xBF b \<or> between 0xE1 0xEC a \<and> between 0x80 0xBF b
               \<or> a = CHR 0xED \<and> between 0x80 0x9F b \<or> between 0xEE 0xEF a \<and> between 0x80 0xBF b)
              \<and> between 0x80 0xBF c then Some 3
      else if (a = CHR 0xF0 \<and> between 0x90 0xBF b \<or> between 0xF1 0xF3 a \<and> between 0x80 0xBF b
               \<or> a = CHR 0xF4 \<and> between 0x80 0x8F b)
              \<and> between 0x80 0xBF c \<and> between 0x80 0xBF d then Some 4
      else None)"
| "utf8_len [a, b, c] =
     (if between 0xC2 0xDF a \<and> between 0x80 0xBF b then Some 2
      else if (a = CHR 0xE0 \<and> between 0xA0 0xBF b \<or> between 0xE1 0xEC a \<and> between 0x80 0xBF b
               \<or> a = CHR 0xED \<and> between 0x80 0x9F b \<or> between 0xEE 0xEF a \<and> between 0x80 0xBF b)
              \<and> between 0x80 0xBF c then Some 3
      else None)"
| "utf8_len [a, b] = (if between 0xC2 0xDF a \<and> between 0x80 0xBF b then Some 2 else None)"
| "utf8_len _ = None"

lemma utf8_len_bounds: "utf8_len s = Some n \<Longrightarrow> 2 \<le> n \<and> n \<le> 4 \<and> n \<le> length s"
  by (induction s rule: utf8_len.induct) (auto split: if_splits)

lemma utf8_len_append: "utf8_len s = Some n \<Longrightarrow> utf8_len (take n s @ t) = Some n"
proof (induction s rule: utf8_len.induct)
  case (1 a b c d s)
  then show ?case by (cases t; cases "tl t"; simp split: if_splits)
next
  case (2 a b c)
  then show ?case by (cases t; cases "tl t"; simp split: if_splits)
next
  case (3 a b)
  then show ?case by (cases t; cases "tl t"; simp split: if_splits)
qed simp_all

text \<open>\<open>utf8.AppendRune\<close> for a code point that is not a surrogate.\<close>

definition utf8_encode :: "nat \<Rightarrow> string" where
  "utf8_encode r =
     (if r < 0x80 then [char_of r]
      else if r < 0x800 then [char_of (0xC0 + r div 64), char_of (0x80 + r mod 64)]
      else if r < 0x10000 then
        [char_of (0xE0 + r div 4096), char_of (0x80 + r div 64 mod 64), char_of (0x80 + r mod 64)]
      else
        [char_of (0xF0 + r div 262144), char_of (0x80 + r div 4096 mod 64),
         char_of (0x80 + r div 64 mod 64), char_of (0x80 + r mod 64)])"

definition replacement :: string where
  "replacement = [CHR 0xEF, CHR 0xBF, CHR 0xBD]"

function utf8_valid :: "string \<Rightarrow> bool" where
  "utf8_valid s =
     (case s of [] \<Rightarrow> True
      | c # t \<Rightarrow> if code c < 0x80 then utf8_valid t
                else case utf8_len s of None \<Rightarrow> False | Some n \<Rightarrow> utf8_valid (drop n s))"
  by pat_completeness auto
termination
proof (relation "measure length")
  fix s :: string and c t n
  assume "s = c # t" "utf8_len s = Some n"
  then show "(drop n s, s) \<in> measure length" using utf8_len_bounds [of s n] by auto
qed auto

declare utf8_valid.simps [simp del]

section \<open>Strings\<close>

text \<open>The bytes below 0x80 that \<open>json.Marshal\<close> escapes, HTML-sensitive ones included.\<close>

definition escape_ascii :: "char \<Rightarrow> string" where
  "escape_ascii c =
     (if c = CHR 0x22 then [CHR 0x5C, CHR 0x22]
      else if c = CHR 0x5C then [CHR 0x5C, CHR 0x5C]
      else if c = CHR 0x08 then [CHR 0x5C, CHR ''b'']
      else if c = CHR 0x0C then [CHR 0x5C, CHR ''f'']
      else if c = CHR 0x0A then [CHR 0x5C, CHR ''n'']
      else if c = CHR 0x0D then [CHR 0x5C, CHR ''r'']
      else if c = CHR 0x09 then [CHR 0x5C, CHR ''t'']
      else if code c < 0x20 \<or> c = CHR ''<'' \<or> c = CHR ''>'' \<or> c = CHR ''&''
        then CHR 0x5C # ''u00'' @ [hex_digit (code c div 16), hex_digit (code c mod 16)]
      else [c])"

function quote_body :: "string \<Rightarrow> string" where
  "quote_body s =
     (case s of [] \<Rightarrow> []
      | c # t \<Rightarrow>
          if code c < 0x80 then escape_ascii c @ quote_body t
          else case utf8_len s of
            None \<Rightarrow> CHR 0x5C # ''ufffd'' @ quote_body t
          | Some n \<Rightarrow>
              (if take n s = [CHR 0xE2, CHR 0x80, CHR 0xA8] then CHR 0x5C # ''u2028''
               else if take n s = [CHR 0xE2, CHR 0x80, CHR 0xA9] then CHR 0x5C # ''u2029''
               else take n s) @ quote_body (drop n s))"
  by pat_completeness auto
termination
proof (relation "measure length")
  fix s :: string and c t n
  assume "s = c # t" "utf8_len s = Some n"
  then show "(drop n s, s) \<in> measure length" using utf8_len_bounds [of s n] by auto
qed auto

declare quote_body.simps [simp del]

definition quote :: "string \<Rightarrow> string" where
  "quote s = CHR 0x22 # quote_body s @ [CHR 0x22]"

definition hex4 :: "string \<Rightarrow> nat option" where
  "hex4 s = (case s of a # b # c # d # _ \<Rightarrow>
       (case (hex_value a, hex_value b, hex_value c, hex_value d) of
          (Some w, Some x, Some y, Some z) \<Rightarrow> Some (((w * 16 + x) * 16 + y) * 16 + z)
        | _ \<Rightarrow> None)
     | _ \<Rightarrow> None)"

definition simple_escape :: "char \<Rightarrow> char option" where
  "simple_escape e =
     (if e = CHR 0x22 \<or> e = CHR 0x5C \<or> e = CHR ''/'' then Some e
      else if e = CHR ''b'' then Some CHR 0x08
      else if e = CHR ''f'' then Some CHR 0x0C
      else if e = CHR ''n'' then Some CHR 0x0A
      else if e = CHR ''r'' then Some CHR 0x0D
      else if e = CHR ''t'' then Some CHR 0x09
      else None)"

definition is_surrogate :: "nat \<Rightarrow> bool" where
  "is_surrogate r \<longleftrightarrow> 0xD800 \<le> r \<and> r < 0xE000"

text \<open>The low half that completes a surrogate pair, if it follows.\<close>

definition surrogate_pair :: "nat \<Rightarrow> string \<Rightarrow> nat option" where
  "surrogate_pair r s =
     (case s of p # q # t \<Rightarrow>
        if p = CHR 0x5C \<and> q = CHR ''u'' \<and> r < 0xDC00 then
          (case hex4 t of
             Some r2 \<Rightarrow> if 0xDC00 \<le> r2 \<and> r2 < 0xE000
                        then Some ((r - 0xD800) * 1024 + (r2 - 0xDC00) + 0x10000) else None
           | None \<Rightarrow> None)
        else None
      | _ \<Rightarrow> None)"

definition prepend :: "string \<Rightarrow> (string \<times> string) option \<Rightarrow> (string \<times> string) option" where
  "prepend p = map_option (\<lambda>(s, rest). (p @ s, rest))"

text \<open>The characters after an opening quote, up to and including the closing one.\<close>

function parse_str :: "string \<Rightarrow> (string \<times> string) option" where
  "parse_str s =
     (case s of [] \<Rightarrow> None
      | c # t \<Rightarrow>
          if c = CHR 0x22 then Some ([], t)
          else if c = CHR 0x5C then
            (case t of [] \<Rightarrow> None
             | e # u \<Rightarrow>
                (case simple_escape e of
                   Some x \<Rightarrow> prepend [x] (parse_str u)
                 | None \<Rightarrow>
                    if e \<noteq> CHR ''u'' then None
                    else (case hex4 u of
                       None \<Rightarrow> None
                     | Some r \<Rightarrow>
                        if is_surrogate r then
                          (case surrogate_pair r (drop 4 u) of
                             Some r' \<Rightarrow> prepend (utf8_encode r') (parse_str (drop 10 u))
                           | None \<Rightarrow> prepend replacement (parse_str (drop 4 u)))
                        else prepend (utf8_encode r) (parse_str (drop 4 u)))))
          else if code c < 0x20 then None
          else if code c < 0x80 then prepend [c] (parse_str t)
          else case utf8_len s of
            None \<Rightarrow> prepend replacement (parse_str t)
          | Some n \<Rightarrow> prepend (take n s) (parse_str (drop n s)))"
  by pat_completeness auto
termination
proof (relation "measure length")
  fix s :: string and c t n
  assume "s = c # t" "utf8_len s = Some n"
  then show "(drop n s, s) \<in> measure length" using utf8_len_bounds [of s n] by auto
qed auto

declare parse_str.simps [simp del]

lemma code_inject [simp]: "code c = code d \<longleftrightarrow> c = d"
  by (simp add: code_def)

lemma char_of_code [simp]: "char_of (code c) = c"
  by (simp add: code_def)

lemma hex_byte_roundtrip [simp]: "hex4 (CHR ''0'' # CHR ''0'' # hex_digit (n div 16) # hex_digit (n mod 16) # s)
    = Some n" if "n < 256"
proof -
  have "hex_value CHR ''0'' = Some 0" by (simp add: hex_value_def)
  moreover from that have "n div 16 < 16" by simp
  ultimately show ?thesis by (simp add: hex4_def)
qed

lemma parse_str_escape_ascii:
  assumes "code c < 0x80"
  shows "parse_str (escape_ascii c @ s) = prepend [c] (parse_str s)"
proof -
  have special: ?thesis if "c \<in> {CHR 0x22, CHR 0x5C, CHR 0x08, CHR 0x0C, CHR 0x0A, CHR 0x0D, CHR 0x09}"
    using that by (auto simp: escape_ascii_def parse_str.simps [of "CHR 0x5C # _"] simple_escape_def)
  have hex: ?thesis if "escape_ascii c
      = CHR 0x5C # ''u00'' @ [hex_digit (code c div 16), hex_digit (code c mod 16)]"
  proof -
    have "simple_escape CHR ''u'' = None" by (simp add: simple_escape_def)
    moreover have "\<not> is_surrogate (code c)" using assms by (simp add: is_surrogate_def)
    moreover have "utf8_encode (code c) = [c]" using assms by (simp add: utf8_encode_def)
    ultimately show ?thesis
      using assms unfolding that
      by (subst parse_str.simps) simp
  qed
  have plain: ?thesis if "escape_ascii c = [c]" "c \<noteq> CHR 0x22" "c \<noteq> CHR 0x5C" "\<not> code c < 0x20"
    using that assms by (simp add: parse_str.simps [of "c # s"])
  show ?thesis
  proof (cases "c \<in> {CHR 0x22, CHR 0x5C, CHR 0x08, CHR 0x0C, CHR 0x0A, CHR 0x0D, CHR 0x09}")
    case True
    then show ?thesis by (rule special)
  next
    case False
    show ?thesis
    proof (cases "code c < 0x20 \<or> c = CHR ''<'' \<or> c = CHR ''>'' \<or> c = CHR ''&''")
      case True
      with False show ?thesis by (intro hex) (simp add: escape_ascii_def)
    next
      case plain_char: False
      with False show ?thesis by (intro plain) (simp_all add: escape_ascii_def)
    qed
  qed
qed

lemma parse_str_multibyte:
  assumes "utf8_len s = Some n" and "\<not> code (hd s) < 0x80"
  shows "parse_str (take n s @ t) = prepend (take n s) (parse_str t)"
proof -
  obtain c u where tk: "take n s = c # u" "hd s = c"
    using assms(1) utf8_len_bounds [of s n] by (cases s; cases n) auto
  moreover have "utf8_len (take n s @ t) = Some n" using assms(1) by (rule utf8_len_append)
  moreover have "length (take n s) = n" using assms(1) utf8_len_bounds by fastforce
  moreover from assms(2) tk have "c \<noteq> CHR 0x22" "c \<noteq> CHR 0x5C" "\<not> code c < 0x20"
    by (auto simp: code_def)
  ultimately show ?thesis
    using assms(2) by (subst parse_str.simps) (auto simp: split: option.splits)
qed

lemma line_separator_bytes:
  "[char_of (226 :: nat), char_of (128 :: nat), char_of (168 :: nat)] = [CHR 0xE2, CHR 0x80, CHR 0xA8]"
  "[char_of (226 :: nat), char_of (128 :: nat), char_of (169 :: nat)] = [CHR 0xE2, CHR 0x80, CHR 0xA9]"
  by (simp_all add: char_of_def bit_0)

lemma parse_str_u2028:
  "parse_str (CHR 0x5C # ''u2028'' @ t) = prepend [CHR 0xE2, CHR 0x80, CHR 0xA8] (parse_str t)"
  "parse_str (CHR 0x5C # ''u2029'' @ t) = prepend [CHR 0xE2, CHR 0x80, CHR 0xA9] (parse_str t)"
  by (subst parse_str.simps,
      simp add: simple_escape_def hex4_def hex_value_def is_surrogate_def utf8_encode_def
        line_separator_bytes)+

lemma prepend_Some [simp]: "prepend p (Some (s, r)) = Some (p @ s, r)"
  by (simp add: prepend_def)

lemma parse_str_quote_body:
  "utf8_valid s \<Longrightarrow> parse_str (quote_body s @ CHR 0x22 # rest) = Some (s, rest)"
proof (induction s rule: quote_body.induct)
  case (1 s)
  show ?case
  proof (cases s)
    case Nil
    then show ?thesis by (simp add: quote_body.simps parse_str.simps)
  next
    case (Cons c t)
    show ?thesis
    proof (cases "code c < 0x80")
      case True
      with "1.prems" Cons have "utf8_valid t" by (simp add: utf8_valid.simps [of "c # t"])
      with "1.IH" Cons True have "parse_str (quote_body t @ CHR 0x22 # rest) = Some (t, rest)"
        by blast
      with True Cons show ?thesis
        by (simp add: quote_body.simps [of "c # t"] parse_str_escape_ascii)
    next
      case False
      with "1.prems" Cons obtain n where n: "utf8_len s = Some n" "utf8_valid (drop n s)"
        by (auto simp: utf8_valid.simps [of "c # t"] split: option.splits)
      with "1.IH" Cons False have IH: "parse_str (quote_body (drop n s) @ CHR 0x22 # rest)
          = Some (drop n s, rest)" by blast
      define chunk where "chunk = (if take n s = [CHR 0xE2, CHR 0x80, CHR 0xA8]
          then CHR 0x5C # ''u2028'' else if take n s = [CHR 0xE2, CHR 0x80, CHR 0xA9]
          then CHR 0x5C # ''u2029'' else take n s)"
      have "parse_str (chunk @ u) = prepend (take n s) (parse_str u)" for u
        using parse_str_multibyte [OF n(1)] parse_str_u2028 [of u] False Cons
        by (auto simp: chunk_def)
      moreover have "quote_body s = chunk @ quote_body (drop n s)"
        using n(1) False Cons by (simp add: quote_body.simps [of "c # t"] chunk_def)
      ultimately have "parse_str (quote_body s @ CHR 0x22 # rest)
          = prepend (take n s) (Some (drop n s, rest))"
        using IH by simp
      then show ?thesis by simp
    qed
  qed
qed

section \<open>Values\<close>

definition is_ws :: "char \<Rightarrow> bool" where
  "is_ws c \<longleftrightarrow> c = CHR 0x20 \<or> c = CHR 0x09 \<or> c = CHR 0x0A \<or> c = CHR 0x0D"

definition skip_ws :: "string \<Rightarrow> string" where
  "skip_ws = dropWhile is_ws"

text \<open>
  The number at the head of the input: an optional sign, an integer part without leading zeros,
  and optional fraction and exponent.
\<close>

definition scan_int :: "string \<Rightarrow> (string \<times> string) option" where
  "scan_int s = (case s of [] \<Rightarrow> None
     | c # t \<Rightarrow> if c = CHR ''0'' then Some ([c], t)
               else if is_digit c then Some (takeWhile is_digit s, dropWhile is_digit s)
               else None)"

definition scan_frac :: "string \<Rightarrow> (string \<times> string) option" where
  "scan_frac s = (case s of [] \<Rightarrow> Some ([], s)
     | c # t \<Rightarrow> if c \<noteq> CHR ''.'' then Some ([], s)
               else if takeWhile is_digit t = [] then None
               else Some (c # takeWhile is_digit t, dropWhile is_digit t))"

definition scan_sign :: "string \<Rightarrow> string \<times> string" where
  "scan_sign s = (case s of c # t \<Rightarrow> if c = CHR ''+'' \<or> c = CHR ''-'' then ([c], t) else ([], s)
     | [] \<Rightarrow> ([], s))"

definition scan_exp :: "string \<Rightarrow> (string \<times> string) option" where
  "scan_exp s = (case s of [] \<Rightarrow> Some ([], s)
     | c # t \<Rightarrow> if c \<noteq> CHR ''e'' \<and> c \<noteq> CHR ''E'' then Some ([], s)
               else let (sg, u) = scan_sign t in
                 if takeWhile is_digit u = [] then None
                 else Some (c # sg @ takeWhile is_digit u, dropWhile is_digit u))"

definition scan_number :: "string \<Rightarrow> (string \<times> string) option" where
  "scan_number s =
     (let (m, s1) = (case s of c # t \<Rightarrow> if c = CHR ''-'' then ([c], t) else ([], s) | [] \<Rightarrow> ([], s))
      in case scan_int s1 of None \<Rightarrow> None
       | Some (i, s2) \<Rightarrow> (case scan_frac s2 of None \<Rightarrow> None
           | Some (f, s3) \<Rightarrow> (case scan_exp s3 of None \<Rightarrow> None
               | Some (e, s4) \<Rightarrow> Some (m @ i @ f @ e, s4))))"

definition max_depth :: nat where
  "max_depth = 10000"

definition parse_literal :: "string \<Rightarrow> json \<Rightarrow> string \<Rightarrow> (json \<times> string) option" where
  "parse_literal w v s = (if HasPrefix s w then Some (v, drop (length w) s) else None)"

definition parse_atom :: "string \<Rightarrow> (json \<times> string) option" where
  "parse_atom s = (case s of [] \<Rightarrow> None
     | c # t \<Rightarrow>
        if c = CHR 0x22 then map_option (\<lambda>(x, rest). (JString x, rest)) (parse_str t)
        else if c = CHR ''t'' then parse_literal ''true'' (JBool True) s
        else if c = CHR ''f'' then parse_literal ''false'' (JBool False) s
        else if c = CHR ''n'' then parse_literal ''null'' JNull s
        else map_option (\<lambda>(x, rest). (JNumber x, rest)) (scan_number s))"

text \<open>
  The decoder, with a fuel that bounds its recursion and the nesting depth Go limits to ten
  thousand. Arrays and objects are read element by element; \<open>parse_elems\<close> and
  \<open>parse_members\<close> start after the opening bracket of a non-empty array or object.
\<close>

definition expect :: "char \<Rightarrow> string \<Rightarrow> string option" where
  "expect x s = (case skip_ws s of [] \<Rightarrow> None | c # t \<Rightarrow> if c = x then Some t else None)"

fun parse_value :: "nat \<Rightarrow> nat \<Rightarrow> string \<Rightarrow> (json \<times> string) option"
and parse_elems :: "nat \<Rightarrow> nat \<Rightarrow> string \<Rightarrow> (json list \<times> string) option"
and parse_members :: "nat \<Rightarrow> nat \<Rightarrow> string \<Rightarrow> ((string \<times> json) list \<times> string) option" where
  "parse_value 0 d s = None"
| "parse_value (Suc n) d s =
     (case skip_ws s of
        [] \<Rightarrow> None
      | c # t \<Rightarrow>
          if c = CHR ''['' then
            (if d \<ge> max_depth then None
             else case expect CHR '']'' t of
               Some u \<Rightarrow> Some (JArray [], u)
             | None \<Rightarrow> map_option (\<lambda>(vs, u). (JArray vs, u)) (parse_elems n (Suc d) t))
          else if c = CHR ''{'' then
            (if d \<ge> max_depth then None
             else case expect CHR ''}'' t of
               Some u \<Rightarrow> Some (JObject [], u)
             | None \<Rightarrow> map_option (\<lambda>(ms, u). (JObject ms, u)) (parse_members n (Suc d) t))
          else parse_atom (c # t))"
| "parse_elems 0 d s = None"
| "parse_elems (Suc n) d s =
     (case parse_value n d s of
        None \<Rightarrow> None
      | Some (v, t) \<Rightarrow>
          (case expect CHR '']'' t of
             Some u \<Rightarrow> Some ([v], u)
           | None \<Rightarrow> (case expect CHR '','' t of
               Some u \<Rightarrow> map_option (\<lambda>(vs, w). (v # vs, w)) (parse_elems n d u)
             | None \<Rightarrow> None)))"
| "parse_members 0 d s = None"
| "parse_members (Suc n) d s =
     (case expect CHR 0x22 s of
        None \<Rightarrow> None
      | Some t \<Rightarrow>
          (case parse_str t of
             None \<Rightarrow> None
           | Some (k, u) \<Rightarrow>
               (case expect CHR '':'' u of
                  None \<Rightarrow> None
                | Some w \<Rightarrow>
                    (case parse_value n d w of
                       None \<Rightarrow> None
                     | Some (v, x) \<Rightarrow>
                         (case expect CHR ''}'' x of
                            Some y \<Rightarrow> Some ([(k, v)], y)
                          | None \<Rightarrow> (case expect CHR '','' x of
                              Some y \<Rightarrow>
                                map_option (\<lambda>(ms, z). ((k, v) # ms, z)) (parse_members n d y)
                            | None \<Rightarrow> None))))))"

text \<open>\<open>Decoder.Decode\<close> reads one value; \<open>json.Valid\<close> and \<open>json.Unmarshal\<close> need nothing after it.\<close>

definition Decode_value :: "string \<Rightarrow> (json \<times> string) option" where
  "Decode_value s = parse_value (Suc (length s)) 0 s"

definition Unmarshal_value :: "string \<Rightarrow> json option" where
  "Unmarshal_value s = (case Decode_value s of
     Some (v, rest) \<Rightarrow> if skip_ws rest = [] then Some v else None | None \<Rightarrow> None)"

definition json_Valid :: "string \<Rightarrow> bool" where
  "json_Valid s \<longleftrightarrow> Unmarshal_value s \<noteq> None"

section \<open>Printing\<close>

text \<open>\<open>json.Marshal\<close>: compact, members in the order given.\<close>

fun json_print :: "json \<Rightarrow> string" where
  "json_print JNull = ''null''"
| "json_print (JBool b) = (if b then ''true'' else ''false'')"
| "json_print (JNumber n) = n"
| "json_print (JString s) = quote s"
| "json_print (JArray vs) = CHR ''['' # join_with CHR '','' (map json_print vs) @ '']''"
| "json_print (JObject ms) =
     CHR ''{'' # join_with CHR '','' (map (\<lambda>(k, v). quote k @ CHR '':'' # json_print v) ms) @ ''}''"

text \<open>Decoding into \<open>map[string]any\<close>: a later member replaces an earlier one with its key.\<close>

fun JObject_put :: "(string \<times> json) list \<Rightarrow> string \<Rightarrow> json \<Rightarrow> (string \<times> json) list" where
  "JObject_put [] k v = [(k, v)]"
| "JObject_put ((k', v') # kvs) k v =
     (if k' = k then (k, v) # kvs else (k', v') # JObject_put kvs k v)"

fun normalize :: "json \<Rightarrow> json" where
  "normalize (JArray vs) = JArray (map normalize vs)"
| "normalize (JObject ms) =
     JObject (foldl (\<lambda>acc (k, v). JObject_put acc k v) [] (map (\<lambda>(k, v). (k, normalize v)) ms))"
| "normalize v = v"

lemma JObject_put_lookup: "map_of (JObject_put kvs k v) = (map_of kvs)(k \<mapsto> v)"
  by (induction kvs k v rule: JObject_put.induct) auto

lemma JObject_put_keys: "fst ` set (JObject_put kvs k v) = insert k (fst ` set kvs)"
  by (induction kvs k v rule: JObject_put.induct) auto

lemma JObject_put_distinct:
  "distinct (map fst kvs) \<Longrightarrow> distinct (map fst (JObject_put kvs k v))"
proof (induction kvs k v rule: JObject_put.induct)
  case (2 k' v' kvs k v)
  moreover have "k' \<notin> fst ` set (JObject_put kvs k v)" if "k' \<noteq> k"
    using that 2 by (auto simp: JObject_put_keys)
  ultimately show ?case by auto
qed simp

text \<open>Decoding into a string field: null leaves it alone.\<close>

definition decode_text :: "string \<Rightarrow> json \<Rightarrow> string option" where
  "decode_text old v = (case v of JNull \<Rightarrow> Some old | JString s \<Rightarrow> Some s | _ \<Rightarrow> None)"

text \<open>
  Decoding an object into a struct of string fields: names match without regard to case (U+212A folds to
  k and U+017F to s), a repeated field overwrites, unknown fields are refused when \<open>strict\<close>.
\<close>

fun fold_name :: "string \<Rightarrow> string" where
  "fold_name (a # b # c # s) =
     (if a = CHR 0xE2 \<and> b = CHR 0x84 \<and> c = CHR 0xAA then CHR ''k'' # fold_name s
      else if a = CHR 0xC5 \<and> b = CHR 0xBF then CHR ''s'' # fold_name (c # s)
      else lower_char a # fold_name (b # c # s))"
| "fold_name [a, b] = (if a = CHR 0xC5 \<and> b = CHR 0xBF then ''s'' else [lower_char a, lower_char b])"
| "fold_name [a] = [lower_char a]"
| "fold_name [] = []"

fun decode_strings :: "bool \<Rightarrow> string list \<Rightarrow> (string \<times> json) list \<Rightarrow> (string \<Rightarrow> string) \<Rightarrow> (string \<Rightarrow> string) option" where
  "decode_strings strict names [] fields = Some fields"
| "decode_strings strict names ((k, v) # ms) fields =
     (if fold_name k \<notin> set names then (if strict then None else decode_strings strict names ms fields)
      else case decode_text (fields (fold_name k)) v of
          None \<Rightarrow> None
        | Some s \<Rightarrow> decode_strings strict names ms (fields(fold_name k := s)))"

definition decode_struct :: "bool \<Rightarrow> string list \<Rightarrow> json \<Rightarrow> (string \<Rightarrow> string) option" where
  "decode_struct strict names v =
     (case v of
        JObject ms \<Rightarrow> decode_strings strict names ms (\<lambda>_. [])
      | JNull \<Rightarrow> Some (\<lambda>_. [])
      | _ \<Rightarrow> None)"

lemma utf8_valid_ascii: "\<forall>c \<in> set s. code c < 0x80 \<Longrightarrow> utf8_valid s"
  by (induction s) (auto simp: utf8_valid.simps [of "_ # _"] utf8_valid.simps [of "[]"])

section \<open>Decoding what was printed\<close>

fun json_wf :: "json \<Rightarrow> bool" where
  "json_wf (JNumber n) = (scan_number n = Some (n, []))"
| "json_wf (JString s) = utf8_valid s"
| "json_wf (JArray vs) = list_all json_wf vs"
| "json_wf (JObject ms) = list_all (\<lambda>(k, v). utf8_valid k \<and> json_wf v) ms"
| "json_wf v = True"

fun json_depth :: "json \<Rightarrow> nat" where
  "json_depth (JArray vs) = Suc (Max (insert 0 (set (map json_depth vs))))"
| "json_depth (JObject ms) = Suc (Max (insert 0 (set (map (\<lambda>(k, v). json_depth v) ms))))"
| "json_depth v = 0"

definition delimited :: "string \<Rightarrow> bool" where
  "delimited rest \<longleftrightarrow> rest = [] \<or> hd rest \<notin> {CHR ''.'', CHR ''e'', CHR ''E''} \<and> \<not> is_digit (hd rest)"

lemma delimited_simps [simp]:
  "delimited []" "delimited (CHR '','' # r)" "delimited (CHR '']'' # r)" "delimited (CHR ''}'' # r)"
  by (simp_all add: delimited_def is_digit_def)

lemma span_append:
  assumes "dropWhile P u \<noteq> [] \<or> rest = [] \<or> \<not> P (hd rest)"
  shows "takeWhile P (u @ rest) = takeWhile P u" "dropWhile P (u @ rest) = dropWhile P u @ rest"
proof -
  have "takeWhile P (u @ rest) = takeWhile P u \<and> dropWhile P (u @ rest) = dropWhile P u @ rest"
    using assms
  proof (induction u)
    case Nil
    then show ?case by (cases rest) auto
  qed auto
  then show "takeWhile P (u @ rest) = takeWhile P u" "dropWhile P (u @ rest) = dropWhile P u @ rest"
    by auto
qed

lemma scan_exp_append:
  "scan_exp s = Some (e, []) \<Longrightarrow> delimited rest \<Longrightarrow> scan_exp (s @ rest) = Some (e, rest)"
proof (cases s)
  case Nil
  then show "scan_exp s = Some (e, []) \<Longrightarrow> delimited rest \<Longrightarrow> scan_exp (s @ rest) = Some (e, rest)"
    by (cases rest) (auto simp: scan_exp_def delimited_def)
next
  case (Cons c t)
  assume exp: "scan_exp s = Some (e, [])" and del: "delimited rest"
  obtain sg u where sg: "scan_sign t = (sg, u)" by fastforce
  with exp Cons have c: "c = CHR ''e'' \<or> c = CHR ''E''" "takeWhile is_digit u \<noteq> []"
    "e = c # sg @ takeWhile is_digit u" "dropWhile is_digit u = []"
    by (auto simp: scan_exp_def split: if_splits)
  from c(2) have "u \<noteq> []" by auto
  with sg have "scan_sign (t @ rest) = (sg, u @ rest)"
    by (cases t) (auto simp: scan_sign_def split: if_splits)
  moreover have "takeWhile is_digit (u @ rest) = takeWhile is_digit u"
    "dropWhile is_digit (u @ rest) = rest"
    using span_append [of is_digit u rest] del c(4) by (auto simp: delimited_def)
  ultimately show ?thesis using c Cons by (auto simp: scan_exp_def)
qed

lemma scan_frac_append:
  "scan_frac s = Some (f, t) \<Longrightarrow> delimited rest \<or> t \<noteq> [] \<Longrightarrow> scan_frac (s @ rest) = Some (f, t @ rest)"
proof (cases s)
  case Nil
  then show "scan_frac s = Some (f, t) \<Longrightarrow> delimited rest \<or> t \<noteq> []
      \<Longrightarrow> scan_frac (s @ rest) = Some (f, t @ rest)"
    by (cases rest) (auto simp: scan_frac_def delimited_def)
next
  case (Cons c u)
  assume frac: "scan_frac s = Some (f, t)" and del: "delimited rest \<or> t \<noteq> []"
  show ?thesis
  proof (cases "c = CHR ''.''")
    case False
    with frac Cons show ?thesis by (auto simp: scan_frac_def)
  next
    case True
    with frac Cons have u: "takeWhile is_digit u \<noteq> []" "f = c # takeWhile is_digit u"
      "t = dropWhile is_digit u"
      by (auto simp: scan_frac_def split: if_splits)
    with span_append [of is_digit u rest] del True Cons show ?thesis
      by (auto simp: scan_frac_def delimited_def)
  qed
qed

lemma scan_int_append:
  "scan_int s = Some (i, t) \<Longrightarrow> delimited rest \<or> t \<noteq> [] \<Longrightarrow> scan_int (s @ rest) = Some (i, t @ rest)"
  using span_append [of is_digit s rest]
  by (cases s) (auto simp: scan_int_def delimited_def split: if_splits)

lemma scan_number_append:
  assumes "scan_number n = Some (n, [])" and "delimited rest"
  shows "scan_number (n @ rest) = Some (n, rest)"
proof -
  obtain m s1 where m: "(case n of c # t \<Rightarrow> if c = CHR ''-'' then ([c], t) else ([], n)
      | [] \<Rightarrow> ([], n)) = (m, s1)" by fastforce
  with assms(1) obtain i s2 f s3 e where parts: "scan_int s1 = Some (i, s2)"
    "scan_frac s2 = Some (f, s3)" "scan_exp s3 = Some (e, [])" "n = m @ i @ f @ e"
    unfolding scan_number_def by (auto simp: Let_def split: option.splits prod.splits)
  from parts(1) have "s1 \<noteq> []" by (auto simp: scan_int_def)
  with m have "n \<noteq> []" by (cases n) (auto split: if_splits)
  then have m': "(case n @ rest of c # t \<Rightarrow> if c = CHR ''-'' then ([c], t) else ([], n @ rest)
      | [] \<Rightarrow> ([], n @ rest)) = (m, s1 @ rest)"
    using m by (cases n) (auto split: if_splits)
  have "scan_int (s1 @ rest) = Some (i, s2 @ rest)" "scan_frac (s2 @ rest) = Some (f, s3 @ rest)"
    "scan_exp (s3 @ rest) = Some (e, rest)"
    using scan_int_append [OF parts(1)] scan_frac_append [OF parts(2)]
      scan_exp_append [OF parts(3)] assms(2) by auto
  with m' parts(4) show ?thesis unfolding scan_number_def by simp
qed

lemma scan_number_first:
  assumes "scan_number n = Some (n, [])"
  obtains c t where "n = c # t" "c = CHR ''-'' \<or> is_digit c"
proof (cases n)
  case Nil
  with assms show ?thesis by (simp add: scan_number_def scan_int_def)
next
  case (Cons c t)
  with assms have "c = CHR ''-'' \<or> is_digit c"
    by (auto simp: scan_number_def scan_int_def is_digit_def split: if_splits)
  with Cons that show ?thesis by blast
qed

lemma json_print_first:
  assumes "json_wf v"
  obtains c t where "json_print v = c # t" "\<not> is_ws c" "c \<notin> {CHR '']'', CHR ''}''}"
proof (cases v)
  case (JNumber n)
  with assms obtain c t where "n = c # t" "c = CHR ''-'' \<or> is_digit c"
    using scan_number_first by auto
  moreover from this(2) have "\<not> is_ws c" "c \<notin> {CHR '']'', CHR ''}''}"
    by (auto simp: is_ws_def is_digit_def)
  ultimately show ?thesis using JNumber that by auto
next
  case (JBool b)
  with that show ?thesis by (cases b) (auto simp: is_ws_def)
qed (use that in \<open>auto simp: quote_def is_ws_def split: if_splits\<close>)

lemma skip_ws_Cons [simp]: "\<not> is_ws c \<Longrightarrow> skip_ws (c # t) = c # t"
  by (simp add: skip_ws_def)

lemma expect_same [simp]: "\<not> is_ws c \<Longrightarrow> expect c (c # t) = Some t"
  by (simp add: expect_def)

lemma expect_other [simp]: "\<not> is_ws c \<Longrightarrow> c \<noteq> x \<Longrightarrow> expect x (c # t) = None"
  by (simp add: expect_def)

lemma not_ws_chars [simp]:
  "\<not> is_ws CHR '']''" "\<not> is_ws CHR ''}''" "\<not> is_ws CHR '',''" "\<not> is_ws CHR '':''"
  "\<not> is_ws CHR ''[''" "\<not> is_ws CHR ''{''" "\<not> is_ws CHR 0x22"
  by (simp_all add: is_ws_def)

lemma expect_print:
  "json_wf v \<Longrightarrow> expect CHR '']'' (json_print v @ r) = None \<and> expect CHR ''}'' (json_print v @ r) = None"
  by (erule json_print_first [of v]) auto

lemma parse_atom_string:
  "utf8_valid s \<Longrightarrow> parse_atom (quote s @ rest) = Some (JString s, rest)"
  using parse_str_quote_body [of s rest] by (simp add: parse_atom_def quote_def)

lemma parse_atom_number:
  assumes "scan_number n = Some (n, [])" "delimited rest"
  shows "parse_atom (n @ rest) = Some (JNumber n, rest)"
proof -
  from assms(1) obtain c t where c: "n = c # t" "c = CHR ''-'' \<or> is_digit c"
    by (rule scan_number_first)
  then have "c \<notin> {CHR 0x22, CHR ''t'', CHR ''f'', CHR ''n''}" by (auto simp: is_digit_def)
  with c scan_number_append [OF assms] show ?thesis by (auto simp: parse_atom_def)
qed

lemma parse_value_atom:
  assumes "n > 0" and "s = c # t" and "\<not> is_ws c" and "c \<noteq> CHR ''[''" and "c \<noteq> CHR ''{''"
  shows "parse_value n d s = parse_atom s"
  using assms by (cases n) simp_all

text \<open>
  The inductive statement for one value, and its consequences for the elements of an array and
  the members of an object whose values satisfy it.
\<close>

definition reparses :: "json \<Rightarrow> bool" where
  "reparses v \<longleftrightarrow> (\<forall>n d rest. json_wf v \<longrightarrow> json_depth v + d \<le> max_depth \<longrightarrow> length (json_print v) \<le> n
     \<longrightarrow> delimited rest \<longrightarrow> parse_value n d (json_print v @ rest) = Some (v, rest))"

lemma reparsesD:
  "reparses v \<Longrightarrow> json_wf v \<Longrightarrow> json_depth v + d \<le> max_depth \<Longrightarrow> length (json_print v) \<le> n
     \<Longrightarrow> delimited rest \<Longrightarrow> parse_value n d (json_print v @ rest) = Some (v, rest)"
  by (simp add: reparses_def)

lemma join_with_Cons:
  "join_with sep (p # ps) = (if ps = [] then p else p @ sep # join_with sep ps)"
  by (cases ps) simp_all

lemma parse_elems_print:
  assumes "vs \<noteq> []" and "\<forall>v \<in> set vs. reparses v \<and> json_wf v \<and> json_depth v + d \<le> max_depth"
    and "length (join_with CHR '','' (map json_print vs)) < n"
  shows "parse_elems n d (join_with CHR '','' (map json_print vs) @ CHR '']'' # rest) = Some (vs, rest)"
  using assms
proof (induction vs arbitrary: n)
  case (Cons v vs)
  then obtain k where k: "n = Suc k" by (cases n) auto
  show ?case
  proof (cases "vs = []")
    case True
    with Cons.prems k have "parse_value k d (json_print v @ CHR '']'' # rest) = Some (v, CHR '']'' # rest)"
      by (intro reparsesD) auto
    with True k show ?thesis by simp
  next
    case False
    let ?tail = "join_with CHR '','' (map json_print vs) @ CHR '']'' # rest"
    from False Cons.prems k have "parse_value k d (json_print v @ CHR '','' # ?tail) = Some (v, CHR '','' # ?tail)"
      by (intro reparsesD) (auto simp: join_with_Cons)
    moreover from False Cons k have "parse_elems k d ?tail = Some (vs, rest)"
      by (intro Cons.IH) (auto simp: join_with_Cons)
    ultimately show ?thesis using False k by (simp add: join_with_Cons)
  qed
qed simp

lemma parse_members_print:
  assumes "ms \<noteq> []"
    and "\<forall>(k, v) \<in> set ms. utf8_valid k \<and> reparses v \<and> json_wf v \<and> json_depth v + d \<le> max_depth"
    and "length (join_with CHR '','' (map (\<lambda>(k, v). quote k @ CHR '':'' # json_print v) ms)) < n"
  shows "parse_members n d (join_with CHR '','' (map (\<lambda>(k, v). quote k @ CHR '':'' # json_print v) ms)
    @ CHR ''}'' # rest) = Some (ms, rest)"
  using assms
proof (induction ms arbitrary: n)
  case (Cons m ms)
  obtain key v where m: "m = (key, v)" by fastforce
  obtain k where k: "n = Suc k" using Cons.prems by (cases n) auto
  have key: "parse_str (quote_body key @ CHR 0x22 # u) = Some (key, u)" for u
    using Cons.prems m by (intro parse_str_quote_body) auto
  show ?case
  proof (cases "ms = []")
    case True
    with Cons.prems k m have "parse_value k d (json_print v @ CHR ''}'' # rest) = Some (v, CHR ''}'' # rest)"
      by (intro reparsesD) auto
    with True k m key show ?thesis by (simp add: quote_def)
  next
    case False
    let ?tail = "join_with CHR '','' (map (\<lambda>(k, v). quote k @ CHR '':'' # json_print v) ms)
      @ CHR ''}'' # rest"
    from False Cons.prems k m have "parse_value k d (json_print v @ CHR '','' # ?tail) = Some (v, CHR '','' # ?tail)"
      by (intro reparsesD) (auto simp: join_with_Cons)
    moreover from False Cons k have "parse_members k d ?tail = Some (ms, rest)"
      by (intro Cons.IH) (auto simp: join_with_Cons)
    ultimately show ?thesis using False k m key by (simp add: join_with_Cons quote_def)
  qed
qed simp

lemma depth_elem: "v \<in> set vs \<Longrightarrow> json_depth v < json_depth (JArray vs)"
  by (auto simp: less_Suc_eq_le intro!: Max_ge)

lemma depth_member: "(k, v) \<in> set ms \<Longrightarrow> json_depth v < json_depth (JObject ms)"
  by (force simp: less_Suc_eq_le intro!: Max_ge)

lemma reparses_array:
  assumes "\<forall>v \<in> set vs. reparses v"
  shows "reparses (JArray vs)"
  unfolding reparses_def
proof (intro allI impI)
  fix n d rest
  assume wf: "json_wf (JArray vs)" and depth: "json_depth (JArray vs) + d \<le> max_depth"
    and len: "length (json_print (JArray vs)) \<le> n"
  obtain k where k: "n = Suc k" using len by (cases n) auto
  have d: "\<not> max_depth \<le> d" using depth by simp
  show "parse_value n d (json_print (JArray vs) @ rest) = Some (JArray vs, rest)"
  proof (cases vs)
    case Nil
    with k d show ?thesis by simp
  next
    case (Cons v us)
    have "\<forall>v \<in> set vs. reparses v \<and> json_wf v \<and> json_depth v + Suc d \<le> max_depth"
      using assms wf depth depth_elem [of _ vs] by (fastforce simp: list_all_iff)
    moreover have "length (join_with CHR '','' (map json_print vs)) < k" using len k by simp
    ultimately have elems: "parse_elems k (Suc d) (join_with CHR '','' (map json_print vs)
        @ CHR '']'' # rest) = Some (vs, rest)"
      using Cons by (intro parse_elems_print) auto
    have "expect CHR '']'' (join_with CHR '','' (map json_print vs) @ CHR '']'' # rest) = None"
      using Cons wf expect_print [of v] by (auto simp: join_with_Cons)
    with k d elems show ?thesis by simp
  qed
qed

lemma reparses_object:
  assumes "\<forall>(k, v) \<in> set ms. reparses v"
  shows "reparses (JObject ms)"
  unfolding reparses_def
proof (intro allI impI)
  fix n d rest
  assume wf: "json_wf (JObject ms)" and depth: "json_depth (JObject ms) + d \<le> max_depth"
    and len: "length (json_print (JObject ms)) \<le> n"
  let ?body = "join_with CHR '','' (map (\<lambda>(k, v). quote k @ CHR '':'' # json_print v) ms)"
  obtain k where k: "n = Suc k" using len by (cases n) auto
  have d: "\<not> max_depth \<le> d" using depth by simp
  show "parse_value n d (json_print (JObject ms) @ rest) = Some (JObject ms, rest)"
  proof (cases ms)
    case Nil
    with k d show ?thesis by simp
  next
    case (Cons m us)
    have "\<forall>(k, v) \<in> set ms. utf8_valid k \<and> reparses v \<and> json_wf v \<and> json_depth v + Suc d \<le> max_depth"
      using assms wf depth depth_member [of _ _ ms] by (fastforce simp: list_all_iff)
    moreover have "length ?body < k" using len k by simp
    ultimately have members: "parse_members k (Suc d) (?body @ CHR ''}'' # rest) = Some (ms, rest)"
      using Cons by (intro parse_members_print) auto
    have "expect CHR ''}'' (?body @ CHR ''}'' # rest) = None"
      using Cons by (cases m) (auto simp: join_with_Cons quote_def)
    with k d members show ?thesis by simp
  qed
qed

lemma reparses_all: "reparses v"
proof (induction v)
  case (JNumber n)
  show ?case unfolding reparses_def
  proof (intro allI impI)
    fix k d rest
    assume wf: "json_wf (JNumber n)" and len: "length (json_print (JNumber n)) \<le> k"
      and del: "delimited rest"
    from wf obtain c t where c: "n = c # t" "c = CHR ''-'' \<or> is_digit c"
      using scan_number_first by auto
    then have "\<not> is_ws c" "c \<noteq> CHR ''[''" "c \<noteq> CHR ''{''" by (auto simp: is_ws_def is_digit_def)
    with c len have "parse_value k d (n @ rest) = parse_atom (n @ rest)"
      by (intro parse_value_atom [of _ _ c "t @ rest"]) auto
    with parse_atom_number [of n rest] wf del
    show "parse_value k d (json_print (JNumber n) @ rest) = Some (JNumber n, rest)" by simp
  qed
next
  case (JString s)
  show ?case unfolding reparses_def
  proof (intro allI impI)
    fix k d rest
    assume wf: "json_wf (JString s)" and len: "length (json_print (JString s)) \<le> k"
    then have "parse_value k d (quote s @ rest) = parse_atom (quote s @ rest)"
      by (intro parse_value_atom [of _ _ "CHR 0x22" "quote_body s @ CHR 0x22 # rest"])
        (auto simp: quote_def)
    with parse_atom_string [of s rest] wf
    show "parse_value k d (json_print (JString s) @ rest) = Some (JString s, rest)" by simp
  qed
next
  case (JArray vs)
  then show ?case by (intro reparses_array) blast
next
  case (JObject ms)
  then show ?case by (intro reparses_object) auto
next
  case JNull
  show ?case unfolding reparses_def
    by (auto simp: parse_value_atom [of _ _ "CHR ''n''"] is_ws_def parse_atom_def parse_literal_def)
next
  case (JBool b)
  show ?case unfolding reparses_def
    by (cases b) (auto simp: parse_value_atom [of _ _ "CHR ''t''"] parse_value_atom [of _ _ "CHR ''f''"]
        is_ws_def parse_atom_def parse_literal_def)
qed

lemma Decode_value_print:
  assumes "json_wf v" and "json_depth v \<le> max_depth" and "delimited rest"
  shows "Decode_value (json_print v @ rest) = Some (v, rest)"
  unfolding Decode_value_def using assms by (intro reparsesD [OF reparses_all]) auto

lemma Unmarshal_value_print:
  "json_wf v \<Longrightarrow> json_depth v \<le> max_depth \<Longrightarrow> Unmarshal_value (json_print v) = Some v"
  using Decode_value_print [of v "[]"] by (simp add: Unmarshal_value_def skip_ws_def)

lemma json_print_inject:
  assumes "json_wf v" "json_wf w" "json_depth v \<le> max_depth" "json_depth w \<le> max_depth"
  shows "json_print v = json_print w \<longleftrightarrow> v = w"
  using Unmarshal_value_print assms by (metis option.inject)

lemma decimal_hd: "0 < n \<Longrightarrow> hd (decimal n) \<noteq> CHR ''0''"
proof (induction n rule: decimal.induct)
  case (1 n)
  show ?case
  proof (cases "n < 10")
    case True
    with 1 have "(of_char (digit_char n) :: nat) \<noteq> of_char CHR ''0''" by (simp add: of_char_digit_char)
    then have "digit_char n \<noteq> CHR ''0''" by metis
    with True show ?thesis by (simp add: decimal.simps [of n])
  next
    case False
    then have "hd (decimal (n div 10) @ [digit_char (n mod 10)]) = hd (decimal (n div 10))"
      by simp
    with False 1 show ?thesis by (simp add: decimal.simps [of n])
  qed
qed

lemma scan_int_decimal: "scan_int (decimal n) = Some (decimal n, [])"
proof (cases "n = 0")
  case True
  then show ?thesis by (simp add: decimal.simps [of 0] scan_int_def digit_char_def char_of_def bit_0)
next
  case False
  obtain c t where ct: "decimal n = c # t" by (cases "decimal n") auto
  with decimal_hd [of n] False have "c \<noteq> CHR ''0''" by simp
  moreover have "takeWhile is_digit (decimal n) = decimal n" "dropWhile is_digit (decimal n) = []"
    using decimal_digits [of _ n] by auto
  ultimately show ?thesis using ct decimal_digits [of c n] by (simp add: scan_int_def)
qed

lemma json_wf_Itoa [simp]: "json_wf (JNumber (Itoa n))"
proof (cases "n < 0")
  case True
  then show ?thesis
    by (simp add: Itoa_def scan_number_def scan_int_decimal scan_frac_def scan_exp_def)
next
  case False
  obtain c t where ct: "decimal (nat n) = c # t" by (cases "decimal (nat n)") auto
  with decimal_digits [of c "nat n"] have "c \<noteq> CHR ''-''" by (auto simp: is_digit_def)
  with ct scan_int_decimal [of "nat n"] False show ?thesis
    by (simp add: Itoa_def scan_number_def scan_frac_def scan_exp_def)
qed

end
