(* ===== verification/Tool_Catalog.thy ===== *)
theory Tool_Catalog
  imports Domain_Primitives Go_Regexp Go_JSON "HOL-Library.Product_Lexorder"
begin

text \<open>
  The tool catalogue (\<open>internal/domain/tool_catalog.go\<close>): tool identifiers, Semantic Versions
  and their precedence, the immutable tool definition with its draft and publication validators,
  and the draft, published, retired life cycle with tenant exposure.
\<close>

section \<open>Identifiers\<close>

definition toolIDPattern :: re where
  "toolIDPattern =
     Cat (Cls cls_lower) (Cat (Star (Cls (cls_lower @ cls_digit)))
       (Plus (Cat (Chr CHR ''.'') (Cat (Cls cls_lower) (Star (Cls (cls_lower @ cls_digit @ [(95, 95)])))))))"

definition semverNumber :: re where
  "semverNumber = Alt (Chr CHR ''0'') (Cat (Cls [(49, 57)]) (Star (Cls cls_digit)))"

definition semverCorePattern :: re where
  "semverCorePattern =
     Cat semverNumber (Cat (Chr CHR ''.'') (Cat semverNumber (Cat (Chr CHR ''.'') semverNumber)))"

definition semverIDPattern :: re where
  "semverIDPattern = Plus (Cls (cls_digit @ cls_upper @ cls_lower @ [(45, 45)]))"

definition registryKeyPattern :: re where
  "registryKeyPattern =
     Cat (Cls cls_lower) (Cat (Star (Cls (cls_lower @ cls_digit)))
       (Star (Cat (Cls [(46, 46), (95, 95), (45, 45)]) (Plus (Cls (cls_lower @ cls_digit))))))"

definition exactQuantityPattern :: re where
  "exactQuantityPattern = Cat semverNumber (Opt (Cat (Chr CHR ''.'') (Plus (Cls cls_digit))))"

type_synonym ToolID = string

definition ParseToolID :: "string \<Rightarrow> ToolID result" where
  "ParseToolID value =
     (if length value > 255 \<or> \<not> MatchString toolIDPattern value
      then Inl (ErrNew ''tool ID must be a lower-case dotted identifier'')
      else Inr value)"

section \<open>Semantic versions\<close>

record SemanticVersion =
  sv_raw :: string
  sv_major :: nat
  sv_minor :: nat
  sv_patch :: nat
  sv_prerelease :: "string list"

definition numericIdentifier :: "string \<Rightarrow> bool" where
  "numericIdentifier value \<longleftrightarrow> list_all is_digit value \<and> value \<noteq> []"

definition validSemverIdentifiers :: "string \<Rightarrow> bool \<Rightarrow> bool" where
  "validSemverIdentifiers value rejectNumericLeadingZero \<longleftrightarrow>
     value \<noteq> []
     \<and> list_all (\<lambda>identifier.
          MatchString semverIDPattern identifier
          \<and> \<not> (rejectNumericLeadingZero \<and> length identifier > 1
                \<and> identifier ! 0 = CHR ''0'' \<and> numericIdentifier identifier))
        (Split value CHR ''.'')"

definition errSemVer :: goerror where
  "errSemVer = ErrNew ''version must be valid SemVer 2.0.0''"

definition ParseUint64 :: "string \<Rightarrow> nat option" where
  "ParseUint64 s = (let n = parse_decimal s in if n < 2 ^ 64 then Some n else None)"

text \<open>
  The three groups of \<open>semverCorePattern\<close> contain no dot, so they are the parts of the matched
  text between its dots.
\<close>

definition ParseSemanticVersion :: "string \<Rightarrow> SemanticVersion result" where
  "ParseSemanticVersion value =
     (if value = [] \<or> length value > 255 then Inl errSemVer
      else let (precedence, build, hasBuild) = Cut value CHR ''+'' in
      if hasBuild \<and> \<not> validSemverIdentifiers build False \<or> CHR ''+'' \<in> set build
      then Inl errSemVer
      else let (core, prereleaseText, hasPrerelease) = Cut precedence CHR ''-'' in
      if hasPrerelease \<and> \<not> validSemverIdentifiers prereleaseText True then Inl errSemVer
      else if \<not> MatchString semverCorePattern core then Inl errSemVer
      else case map ParseUint64 (Split core CHR ''.'') of
        [Some major, Some minor, Some patch] \<Rightarrow>
          Inr \<lparr>sv_raw = value, sv_major = major, sv_minor = minor, sv_patch = patch,
               sv_prerelease = (if hasPrerelease then Split prereleaseText CHR ''.'' else [])\<rparr>
      | _ \<Rightarrow> Inl (ErrNew ''version component exceeds uint64''))"

definition SemanticVersion_String :: "SemanticVersion \<Rightarrow> string" where
  "SemanticVersion_String version = sv_raw version"

text \<open>The loop over the pre-release identifiers, then the comparison of their numbers.\<close>

fun compare_prerelease :: "string list \<Rightarrow> string list \<Rightarrow> int" where
  "compare_prerelease [] [] = 0"
| "compare_prerelease [] (r # rs) = -1"
| "compare_prerelease (l # ls) [] = 1"
| "compare_prerelease (l # ls) (r # rs) =
     (if l = r then compare_prerelease ls rs
      else if numericIdentifier l \<and> numericIdentifier r then
        (if length l < length r then -1
         else if length l > length r then 1
         else if l < r then -1 else 1)
      else if numericIdentifier l then -1
      else if numericIdentifier r then 1
      else if l < r then -1
      else 1)"

definition Compare :: "SemanticVersion \<Rightarrow> SemanticVersion \<Rightarrow> int" where
  "Compare version other =
     (if sv_major version < sv_major other then -1
      else if sv_major version > sv_major other then 1
      else if sv_minor version < sv_minor other then -1
      else if sv_minor version > sv_minor other then 1
      else if sv_patch version < sv_patch other then -1
      else if sv_patch version > sv_patch other then 1
      else if sv_prerelease version = [] \<and> sv_prerelease other \<noteq> [] then 1
      else if sv_prerelease version \<noteq> [] \<and> sv_prerelease other = [] then -1
      else compare_prerelease (sv_prerelease version) (sv_prerelease other))"

definition RequireMonotonicVersion :: "SemanticVersion \<Rightarrow> SemanticVersion \<Rightarrow> goerror option" where
  "RequireMonotonicVersion previous next =
     fail_if (Compare next previous \<le> 0)
       (ErrNew (''version '' @ sv_raw next @ '' must have greater SemVer precedence than ''
                @ sv_raw previous))"

subsection \<open>Precedence as Semantic Versioning states it\<close>

text \<open>
  Clause 11 of the standard: versions are ordered by major, minor, patch; a version with a
  pre-release precedes the one without; pre-release identifiers are compared left to right,
  numeric ones as numbers, below all others, which are compared as text; a proper prefix comes
  first.
\<close>

definition identifier_key :: "string \<Rightarrow> nat \<times> nat \<times> string" where
  "identifier_key s = (if numericIdentifier s then (0, parse_decimal s, []) else (1, 0, s))"

definition precedence_key ::
  "SemanticVersion \<Rightarrow> nat \<times> nat \<times> nat \<times> bool \<times> (nat \<times> nat \<times> string) list" where
  "precedence_key v = (sv_major v, sv_minor v, sv_patch v, sv_prerelease v = [],
     map identifier_key (sv_prerelease v))"

definition order_sign :: "'a :: linorder \<Rightarrow> 'a \<Rightarrow> int" where
  "order_sign a b = (if a < b then -1 else if a = b then 0 else 1)"

definition canonical_identifier :: "string \<Rightarrow> bool" where
  "canonical_identifier s \<longleftrightarrow>
     \<not> (length s > 1 \<and> s ! 0 = CHR ''0'' \<and> numericIdentifier s)"

lemma parse_decimal_Cons:
  "parse_decimal (c # s) = digit_value c * 10 ^ length s + parse_decimal s"
  by (induction s rule: rev_induct) (simp_all add: parse_decimal_def)

lemma parse_decimal_less: "list_all is_digit s \<Longrightarrow> parse_decimal s < 10 ^ length s"
proof (induction s)
  case (Cons c s)
  then have "digit_value c + 1 \<le> 10" using digit_value_less [of c] by simp
  then have "(digit_value c + 1) * 10 ^ length s \<le> 10 * 10 ^ length s" by (rule mult_le_mono1)
  moreover have "parse_decimal s < 10 ^ length s" using Cons by simp
  ultimately show ?case 
    unfolding parse_decimal_Cons add_mult_distrib length_Cons power_Suc by linarith
qed (simp add: parse_decimal_def)

lemma digit_value_order:
  "is_digit c \<Longrightarrow> is_digit d \<Longrightarrow> digit_value c < digit_value d \<longleftrightarrow> c < d"
  by (auto simp: is_digit_def digit_value_def less_char_def)

lemma lex_less_decimal:
  assumes "list_all is_digit l" "list_all is_digit r" "length l = length r" "l < r"
  shows "parse_decimal l < parse_decimal r"
  using assms
proof (induction l arbitrary: r)
  case (Cons c l)
  then obtain d r' where r: "r = d # r'" by (cases r) auto
  show ?case
  proof (cases "c = d")
    case True
    with Cons r show ?thesis by (simp add: parse_decimal_Cons)
  next
    case False
    with Cons r have "digit_value c < digit_value d" by (auto simp: digit_value_order)
    then have "(digit_value c + 1) * 10 ^ length l \<le> digit_value d * 10 ^ length l"
      by (intro mult_le_mono1) simp
    moreover have "parse_decimal l < 10 ^ length l" using Cons by (intro parse_decimal_less) simp
    ultimately show ?thesis using Cons r by (simp add: parse_decimal_Cons algebra_simps)
  qed
qed simp

lemma length_less_decimal:
  assumes "numericIdentifier l" "numericIdentifier r" "canonical_identifier r" "length l < length r"
  shows "parse_decimal l < parse_decimal r"
proof -
  from assms obtain d t where r: "r = d # t" by (cases r) auto
  with assms have "length t > 0" by (cases t) (auto simp: numericIdentifier_def)
  with assms r have d: "is_digit d" "d \<noteq> CHR ''0''"
    by (auto simp: canonical_identifier_def numericIdentifier_def)
  then have "digit_value d \<noteq> digit_value CHR ''0''"
    by (simp add: digit_value_inject is_digit_def)
  then have "1 \<le> digit_value d" by (simp add: digit_value_def)
  then have "10 ^ length t \<le> parse_decimal r"
    using mult_le_mono1 [of 1 "digit_value d" "10 ^ length t"] unfolding r parse_decimal_Cons
    by linarith
  moreover have "parse_decimal l < 10 ^ length l"
    using assms by (intro parse_decimal_less) (simp add: numericIdentifier_def)
  moreover have "(10 :: nat) ^ length l \<le> 10 ^ length t"
    using assms(4) r by (intro power_increasing) simp_all
  ultimately show ?thesis by linarith
qed

lemma numeric_order:
  assumes "numericIdentifier l" "numericIdentifier r" "canonical_identifier l"
    "canonical_identifier r" "l \<noteq> r"
  shows "(if length l < length r then -1 else if length l > length r then 1
          else if l < r then -1 else 1) = order_sign (parse_decimal l) (parse_decimal r)"
proof -
  consider "length l < length r" | "length r < length l"
    | "length l = length r" "l < r" | "length l = length r" "r < l"
    using assms(5) by (meson linorder_neq_iff)
  then show ?thesis
  proof cases
    case 1
    with length_less_decimal [of l r] assms show ?thesis by (simp add: order_sign_def)
  next
    case 2
    with length_less_decimal [of r l] assms show ?thesis by (simp add: order_sign_def)
  next
    case 3
    with lex_less_decimal [of l r] assms show ?thesis
      by (simp add: order_sign_def numericIdentifier_def)
  next
    case 4
    with lex_less_decimal [of r l] assms show ?thesis
      by (auto simp: order_sign_def numericIdentifier_def)
  qed
qed

lemma order_sign_neq: "a \<noteq> b \<Longrightarrow> order_sign a b = (if a < b then -1 else 1)"
  by (simp add: order_sign_def)

lemma compare_prerelease_order:
  assumes "list_all canonical_identifier ls" "list_all canonical_identifier rs"
  shows "compare_prerelease ls rs = order_sign (map identifier_key ls) (map identifier_key rs)"
  using assms
proof (induction ls rs rule: compare_prerelease.induct)
  case (4 l ls r rs)
  show ?case
  proof (cases "l = r")
    case True
    with 4 show ?thesis by (simp add: order_sign_def)
  next
    case False
    have num: "identifier_key l < identifier_key r \<longleftrightarrow> parse_decimal l < parse_decimal r"
      "identifier_key l = identifier_key r \<longleftrightarrow> parse_decimal l = parse_decimal r"
      if "numericIdentifier l" "numericIdentifier r"
      using that by (simp_all add: identifier_key_def)
    from False 4 numeric_order [of l r] have numcase:
      "numericIdentifier l \<Longrightarrow> numericIdentifier r \<Longrightarrow>
        compare_prerelease (l # ls) (r # rs) = order_sign (parse_decimal l) (parse_decimal r)
        \<and> parse_decimal l \<noteq> parse_decimal r"
      by (auto simp: order_sign_def split: if_splits)
    show ?thesis
    proof (cases "numericIdentifier l \<and> numericIdentifier r")
      case True
      with numcase num show ?thesis by (auto simp: order_sign_def)
    next
      case no: False
      with False show ?thesis by (auto simp: order_sign_def identifier_key_def)
    qed
  qed
qed (simp_all add: order_sign_def)

lemma Compare_order:
  assumes "list_all canonical_identifier (sv_prerelease v)"
    and "list_all canonical_identifier (sv_prerelease w)"
  shows "Compare v w = order_sign (precedence_key v) (precedence_key w)"
  using compare_prerelease_order [OF assms]
  by (auto simp: Compare_def precedence_key_def order_sign_def)

lemma validSemverIdentifiers_canonical:
  "validSemverIdentifiers value True \<Longrightarrow> list_all canonical_identifier (Split value CHR ''.'')"
  by (auto simp: validSemverIdentifiers_def canonical_identifier_def list_all_iff)

lemma ParseSemanticVersion_shape:
  assumes "ParseSemanticVersion value = Inr v"
  shows "sv_raw v = value" "value \<noteq> []" "length value \<le> 255"
    "list_all canonical_identifier (sv_prerelease v)"
  using assms validSemverIdentifiers_canonical
  by (auto simp: ParseSemanticVersion_def Let_def split: if_splits prod.splits list.splits
      option.splits)

section \<open>The tool definition\<close>

type_synonym RiskClass = string
definition RiskRead :: RiskClass where "RiskRead = ''read''"
definition RiskBoundedWrite :: RiskClass where "RiskBoundedWrite = ''bounded_write''"
definition RiskConsequentialWrite :: RiskClass where
  "RiskConsequentialWrite = ''consequential_write''"
definition RiskPrivileged :: RiskClass where "RiskPrivileged = ''privileged''"

type_synonym RetryClass = string
definition RetrySafe :: RetryClass where "RetrySafe = ''safe''"
definition RetryDownstreamIdempotency :: RetryClass where
  "RetryDownstreamIdempotency = ''downstream_idempotency''"
definition RetryGatewayDeduplicated :: RetryClass where
  "RetryGatewayDeduplicated = ''gateway_deduplicated''"
definition RetryReconcileBeforeRetry :: RetryClass where
  "RetryReconcileBeforeRetry = ''reconcile_before_retry''"
definition RetryAtLeastOnceAccepted :: RetryClass where
  "RetryAtLeastOnceAccepted = ''at_least_once_accepted''"
definition RetryNonRetryable :: RetryClass where "RetryNonRetryable = ''non_retryable''"

type_synonym ApprovalClass = string
definition ApprovalNever :: ApprovalClass where "ApprovalNever = ''never''"
definition ApprovalPolicy :: ApprovalClass where "ApprovalPolicy = ''policy''"
definition ApprovalAlways :: ApprovalClass where "ApprovalAlways = ''always''"

type_synonym ProjectionValueType = string
definition ProjectionAny :: ProjectionValueType where "ProjectionAny = ''any''"
definition ProjectionString :: ProjectionValueType where "ProjectionString = ''string''"
definition ProjectionNumber :: ProjectionValueType where "ProjectionNumber = ''number''"
definition ProjectionBoolean :: ProjectionValueType where "ProjectionBoolean = ''boolean''"
definition ProjectionObject :: ProjectionValueType where "ProjectionObject = ''object''"
definition ProjectionArray :: ProjectionValueType where "ProjectionArray = ''array''"
definition ProjectionNull :: ProjectionValueType where "ProjectionNull = ''null''"

lemmas class_defs =
  RiskRead_def RiskBoundedWrite_def RiskConsequentialWrite_def RiskPrivileged_def
  RetrySafe_def RetryDownstreamIdempotency_def RetryGatewayDeduplicated_def
  RetryReconcileBeforeRetry_def RetryAtLeastOnceAccepted_def RetryNonRetryable_def
  ApprovalNever_def ApprovalPolicy_def ApprovalAlways_def
  ProjectionAny_def ProjectionString_def ProjectionNumber_def ProjectionBoolean_def
  ProjectionObject_def ProjectionArray_def ProjectionNull_def

record ResourceProjectionField =
  rpf_Name :: string
  rpf_Pointer :: string
  rpf_Literal :: json
  rpf_LiteralSet :: bool
  rpf_Required :: bool
  rpf_Type :: ProjectionValueType

record ResourceProjectionDefinition =
  rpd_Fields :: "ResourceProjectionField list"
  rpd_MaxFields :: int
  rpd_MaxOutputBytes :: int

record ToolLimits =
  lim_RequestBytes :: int
  lim_ResultBytes :: int
  lim_Deadline :: duration
  lim_Concurrency :: int
  lim_MaxAttempts :: int

record ConnectorBinding =
  cb_ConnectorType :: string
  cb_Operation :: string
  cb_InstanceSelector :: string

record ReviewedDescription =
  rd_Title :: string
  rd_Description :: string
  rd_ReviewRef :: string

type_synonym MeteringChargePoint = string
type_synonym MeteringDeduplicationScope = string

record MeteringRule =
  mr_Dimension :: string
  mr_Units :: string
  mr_ChargePoint :: MeteringChargePoint
  mr_DeduplicationScope :: MeteringDeduplicationScope

text \<open>\<open>SchemaCompiler\<close> is an interface; \<^const>\<open>None\<close> is the nil interface value.\<close>

type_synonym SchemaCompiler = "(string \<Rightarrow> goerror option) option"

record ToolVersionDefinition =
  tvd_ToolID :: ToolID
  tvd_Version :: SemanticVersion
  tvd_Risk :: RiskClass
  tvd_SideEffect :: bool
  tvd_Retry :: RetryClass
  tvd_Approval :: ApprovalClass
  tvd_OpenWorldResult :: bool
  tvd_Description :: ReviewedDescription
  tvd_InputSchema :: string
  tvd_OutputSchema :: string
  tvd_CanonicalProfile :: string
  tvd_Connector :: ConnectorBinding
  tvd_CredentialSelector :: string
  tvd_RetryQualification :: string
  tvd_ResourceProjection :: ResourceProjectionDefinition
  tvd_Metering :: MeteringRule
  tvd_Limits :: ToolLimits

definition validRisk :: "RiskClass \<Rightarrow> bool" where
  "validRisk value \<longleftrightarrow> value = RiskRead \<or> value = RiskBoundedWrite \<or> value = RiskConsequentialWrite
     \<or> value = RiskPrivileged"

definition validRetry :: "RetryClass \<Rightarrow> bool" where
  "validRetry value \<longleftrightarrow> value = RetrySafe \<or> value = RetryDownstreamIdempotency
     \<or> value = RetryGatewayDeduplicated \<or> value = RetryReconcileBeforeRetry
     \<or> value = RetryAtLeastOnceAccepted \<or> value = RetryNonRetryable"

definition validApproval :: "ApprovalClass \<Rightarrow> bool" where
  "validApproval value \<longleftrightarrow> value = ApprovalNever \<or> value = ApprovalPolicy \<or> value = ApprovalAlways"

definition validRegistryKey :: "string \<Rightarrow> bool" where
  "validRegistryKey value \<longleftrightarrow> length value \<le> 128 \<and> MatchString registryKeyPattern value"

definition validReviewedText :: "string \<Rightarrow> nat \<Rightarrow> bool" where
  "validReviewedText value maximum = bounded_text maximum [CHR 0x00, CHR 0x0D] value"

definition validReviewReference :: "string \<Rightarrow> bool" where
  "validReviewReference value = bounded_text 512 [CHR 0x00, CHR 0x0D, CHR 0x0A] value"

fun pointer_escapes_ok :: "string \<Rightarrow> bool" where
  "pointer_escapes_ok [] = True"
| "pointer_escapes_ok [c] = (c \<noteq> CHR ''~'')"
| "pointer_escapes_ok (c # d # s) =
     (if c \<noteq> CHR ''~'' then pointer_escapes_ok (d # s)
      else (d = CHR ''0'' \<or> d = CHR ''1'') \<and> pointer_escapes_ok s)"

definition validJSONPointer :: "string \<Rightarrow> bool" where
  "validJSONPointer pointer \<longleftrightarrow>
     pointer \<noteq> [] \<and> pointer ! 0 = CHR ''/'' \<and> pointer_escapes_ok pointer"

definition validProjectionType :: "ProjectionValueType \<Rightarrow> bool" where
  "validProjectionType t \<longleftrightarrow> t \<in> {ProjectionAny, ProjectionString, ProjectionNumber,
     ProjectionBoolean, ProjectionObject, ProjectionArray, ProjectionNull}"

definition validateProjectionField ::
  "ResourceProjectionField list \<Rightarrow> ResourceProjectionField \<Rightarrow> goerror option" where
  "validateProjectionField seen field =
     (let hasPointer = rpf_Pointer field \<noteq> [];
          hasLiteral = rpf_LiteralSet field \<or> rpf_Literal field \<noteq> JNull
      in first_err
        [fail_if (rpf_Name field = [] \<or> length (rpf_Name field) > 128
            \<or> ContainsAny (rpf_Name field) [CHR 0x00, CHR 0x0D, CHR 0x0A])
           (ErrNew ''invalid resource projection field name''),
         fail_if (rpf_Name field \<in> set (map rpf_Name seen))
           (ErrNew ''duplicate resource projection field''),
         fail_if (hasPointer = hasLiteral \<or> hasPointer \<and> \<not> validJSONPointer (rpf_Pointer field))
           (ErrNew ''resource projection field must have exactly one valid source''),
         fail_if (\<not> validProjectionType (rpf_Type field))
           (ErrNew ''invalid resource projection value type'')])"

definition validateProjection :: "ResourceProjectionDefinition \<Rightarrow> goerror option" where
  "validateProjection definition =
     (let maxFields = (if rpd_MaxFields definition = 0 then 32 else rpd_MaxFields definition);
          maxBytes = (if rpd_MaxOutputBytes definition = 0 then 16384
                      else rpd_MaxOutputBytes definition);
          count = int (length (rpd_Fields definition))
      in first_err
        [fail_if (count = 0 \<or> maxFields < 1 \<or> count > maxFields \<or> maxFields > 32
                  \<or> maxBytes < 2 \<or> maxBytes > 16384)
           (ErrNew ''invalid resource projection limits or field count''),
         each_seen validateProjectionField [] (rpd_Fields definition)])"

definition validateReviewedDescription :: "ReviewedDescription \<Rightarrow> goerror option" where
  "validateReviewedDescription description =
     fail_if (\<not> validReviewedText (rd_Title description) 128
              \<or> \<not> validReviewedText (rd_Description description) 4096
              \<or> \<not> validReviewReference (rd_ReviewRef description))
       (ErrNew ''reviewed title, description, and review reference are required'')"

definition validateMetering :: "MeteringRule \<Rightarrow> goerror option" where
  "validateMetering rule =
     fail_if (\<not> validRegistryKey (mr_Dimension rule) \<or> mr_Units rule = []
        \<or> length (mr_Units rule) > 64 \<or> \<not> MatchString exactQuantityPattern (mr_Units rule)
        \<or> mr_ChargePoint rule \<notin> {''attempt'', ''confirmed_side_effect'', ''result'',
             ''provider_unit'', ''tool_specific''}
        \<or> mr_DeduplicationScope rule \<notin> {''logical_invocation'', ''attempt'', ''provider_unit''})
       (ErrNew ''invalid metering semantics'')"

definition tool_limits_exceeded :: "ToolLimits \<Rightarrow> bool" where
  "tool_limits_exceeded l \<longleftrightarrow>
     lim_RequestBytes l < 1 \<or> lim_RequestBytes l > 2 ^ 20
     \<or> lim_ResultBytes l < 1 \<or> lim_ResultBytes l > 4 * 2 ^ 20
     \<or> lim_Deadline l \<le> 0 \<or> lim_Deadline l > 30 * Second
     \<or> lim_Concurrency l < 1 \<or> lim_Concurrency l > 250
     \<or> lim_MaxAttempts l < 1 \<or> lim_MaxAttempts l > 3"

definition ValidateToolVersionDefinition :: "ToolVersionDefinition \<Rightarrow> goerror option" where
  "ValidateToolVersionDefinition definition = first_err
     [result_err (ParseToolID (tvd_ToolID definition)),
      result_err (ParseSemanticVersion (SemanticVersion_String (tvd_Version definition))),
      fail_if (\<not> validRisk (tvd_Risk definition)) (ErrNew ''invalid risk class''),
      fail_if (\<not> validRetry (tvd_Retry definition)) (ErrNew ''invalid retry class''),
      fail_if (\<not> validApproval (tvd_Approval definition)) (ErrNew ''invalid approval class''),
      fail_if (tvd_Risk definition = RiskRead \<and> tvd_SideEffect definition)
        (ErrNew ''read risk cannot declare a side effect''),
      fail_if (tvd_Retry definition = RetrySafe \<and> tvd_SideEffect definition)
        (ErrNew ''safe retry class requires a side-effect-free operation''),
      fail_if (\<not> validRegistryKey (cb_ConnectorType (tvd_Connector definition))
          \<or> \<not> validRegistryKey (cb_Operation (tvd_Connector definition))
          \<or> \<not> validRegistryKey (cb_InstanceSelector (tvd_Connector definition)))
        (ErrNew ''invalid connector-operation binding''),
      validateProjection (tvd_ResourceProjection definition),
      fail_if (tool_limits_exceeded (tvd_Limits definition))
        (ErrNew ''tool limits must be positive and within the platform capacity envelope'')]"

definition ValidateToolPublication ::
  "ToolVersionDefinition \<Rightarrow> SchemaCompiler \<Rightarrow> goerror option" where
  "ValidateToolPublication definition compiler =
     (case ValidateToolVersionDefinition definition of
        Some err \<Rightarrow> Some err
      | None \<Rightarrow> (case compiler of
          None \<Rightarrow> Some (ErrNew ''schema validator is required for publication'')
        | Some CompileSchema \<Rightarrow> first_err
            [validateReviewedDescription (tvd_Description definition),
             fail_if (tvd_CanonicalProfile definition \<noteq> ''jcs-v1'')
               (ErrNew ''unsupported canonicalization profile''),
             fail_if (TrimSpace (tvd_InputSchema definition) = []
                 \<or> TrimSpace (tvd_OutputSchema definition) = [])
               (ErrNew ''input and output schemas are required''),
             map_option (ErrWrap ''input schema is not publishable'')
               (CompileSchema (tvd_InputSchema definition)),
             map_option (ErrWrap ''output schema is not publishable'')
               (CompileSchema (tvd_OutputSchema definition)),
             fail_if (\<not> validRegistryKey (tvd_CredentialSelector definition))
               (ErrNew ''invalid credential-binding selector''),
             fail_if (\<not> validReviewReference (tvd_RetryQualification definition))
               (ErrNew ''retry semantics require a qualification reference''),
             fail_if (\<not> list_ex rpf_Required (rpd_Fields (tvd_ResourceProjection definition)))
               (ErrNew ''resource projection requires at least one required field''),
             validateMetering (tvd_Metering definition)]))"

section \<open>Life cycle and exposure\<close>

datatype ToolVersionState = ToolVersionDraft | ToolVersionPublished | ToolVersionRetired

record ToolVersion =
  tv_definition :: ToolVersionDefinition
  tv_state :: ToolVersionState

fun cloneJSONValue :: "json \<Rightarrow> json" where
  "cloneJSONValue (JObject kvs) = JObject (map (\<lambda>(k, v). (k, cloneJSONValue v)) kvs)"
| "cloneJSONValue (JArray vs) = JArray (map cloneJSONValue vs)"
| "cloneJSONValue v = v"

definition cloneToolDefinition :: "ToolVersionDefinition \<Rightarrow> ToolVersionDefinition" where
  "cloneToolDefinition definition = definition\<lparr>tvd_ResourceProjection :=
     (tvd_ResourceProjection definition)\<lparr>rpd_Fields :=
        map (\<lambda>f. f\<lparr>rpf_Literal := cloneJSONValue (rpf_Literal f)\<rparr>)
          (rpd_Fields (tvd_ResourceProjection definition))\<rparr>\<rparr>"

definition NewToolVersion :: "ToolVersionDefinition \<Rightarrow> ToolVersion result" where
  "NewToolVersion definition =
     ensure (ValidateToolVersionDefinition definition)
       (Inr \<lparr>tv_definition = cloneToolDefinition definition, tv_state = ToolVersionDraft\<rparr>)"

definition Publish :: "ToolVersion \<Rightarrow> SchemaCompiler \<Rightarrow> ToolVersion result" where
  "Publish version compiler =
     (if tv_state version \<noteq> ToolVersionDraft
      then Inl (ErrNew ''only a draft tool version can be published'')
      else ensure (ValidateToolPublication (tv_definition version) compiler)
        (Inr (version\<lparr>tv_state := ToolVersionPublished\<rparr>)))"

definition Retire :: "ToolVersion \<Rightarrow> ToolVersion result" where
  "Retire version =
     (if tv_state version \<noteq> ToolVersionPublished
      then Inl (ErrNew ''only a published tool version can be retired'')
      else Inr (version\<lparr>tv_state := ToolVersionRetired\<rparr>))"

record ToolExposure =
  te_enabled :: bool

definition NewToolExposure :: "ToolVersion \<Rightarrow> bool \<Rightarrow> ToolExposure result" where
  "NewToolExposure version enabled =
     (if enabled \<and> tv_state version \<noteq> ToolVersionPublished
      then Inl (ErrNew ''only a published tool version can be enabled'')
      else Inr \<lparr>te_enabled = enabled\<rparr>)"

definition SetEnabled :: "ToolExposure \<Rightarrow> ToolVersion \<Rightarrow> bool \<Rightarrow> ToolExposure result" where
  "SetEnabled exposure version enabled = NewToolExposure version enabled"

subsection \<open>What the validators establish\<close>

lemma cloneJSONValue_id [simp]: "cloneJSONValue v = v"
proof (induction v rule: cloneJSONValue.induct)
  case (1 kvs)
  then have "map (\<lambda>(k, v). (k, cloneJSONValue v)) kvs = kvs"
    by (intro map_idI) (auto split: prod.splits)
  then show ?case by simp
next
  case (2 vs)
  then have "map cloneJSONValue vs = vs" by (intro map_idI) auto
  then show ?case by simp
qed simp_all

lemma cloneToolDefinition_id [simp]: "cloneToolDefinition d = d"
  by (simp add: cloneToolDefinition_def map_idI)

lemma validateProjection_distinct:
  assumes "validateProjection d = None"
  shows "rpd_Fields d \<noteq> []" "length (rpd_Fields d) \<le> 32" "distinct (map rpf_Name (rpd_Fields d))"
    "\<forall>f \<in> set (rpd_Fields d). rpf_Name f \<noteq> [] \<and> validProjectionType (rpf_Type f)
       \<and> ((rpf_Pointer f \<noteq> []) \<noteq> (rpf_LiteralSet f \<or> rpf_Literal f \<noteq> JNull))
       \<and> (rpf_Pointer f \<noteq> [] \<longrightarrow> validJSONPointer (rpf_Pointer f))"
proof -
  from assms have each: "each_seen validateProjectionField [] (rpd_Fields d) = None"
    and nonempty: "rpd_Fields d \<noteq> []" and len: "length (rpd_Fields d) \<le> 32"
    by (auto simp: validateProjection_def Let_def split: if_splits)
  show "rpd_Fields d \<noteq> []" "length (rpd_Fields d) \<le> 32" using nonempty len by auto
  have "validateProjectionField before x = None \<Longrightarrow> rpf_Name x \<notin> rpf_Name ` set before" for before x
    by (simp add: validateProjectionField_def Let_def)
  with each_seen_distinct [OF each, of rpf_Name] show "distinct (map rpf_Name (rpd_Fields d))"
    by blast
  show "\<forall>f \<in> set (rpd_Fields d). rpf_Name f \<noteq> [] \<and> validProjectionType (rpf_Type f)
       \<and> ((rpf_Pointer f \<noteq> []) \<noteq> (rpf_LiteralSet f \<or> rpf_Literal f \<noteq> JNull))
       \<and> (rpf_Pointer f \<noteq> [] \<longrightarrow> validJSONPointer (rpf_Pointer f))"
  proof
    fix f
    assume "f \<in> set (rpd_Fields d)"
    with each_seen_None_elem [OF each] obtain before where
      "validateProjectionField before f = None" by blast
    then show "rpf_Name f \<noteq> [] \<and> validProjectionType (rpf_Type f)
       \<and> ((rpf_Pointer f \<noteq> []) \<noteq> (rpf_LiteralSet f \<or> rpf_Literal f \<noteq> JNull))
       \<and> (rpf_Pointer f \<noteq> [] \<longrightarrow> validJSONPointer (rpf_Pointer f))"
      by (auto simp: validateProjectionField_def Let_def)
  qed
qed

text \<open>The versions the API can build: created as drafts, published, retired.\<close>

inductive tool_life :: "SchemaCompiler \<Rightarrow> ToolVersion \<Rightarrow> bool" for compiler where
  life_new: "NewToolVersion d = Inr v \<Longrightarrow> tool_life compiler v"
| life_publish: "tool_life compiler v \<Longrightarrow> Publish v compiler = Inr w \<Longrightarrow> tool_life compiler w"
| life_retire: "tool_life compiler v \<Longrightarrow> Retire v = Inr w \<Longrightarrow> tool_life compiler w"

lemma Publish_shape:
  assumes "Publish v c = Inr w"
  shows "tv_state v = ToolVersionDraft" "w = v\<lparr>tv_state := ToolVersionPublished\<rparr>"
    "ValidateToolPublication (tv_definition v) c = None"
  using assms by (auto simp: Publish_def split: if_splits)

lemma Retire_shape:
  assumes "Retire v = Inr w"
  shows "tv_state v = ToolVersionPublished" "w = v\<lparr>tv_state := ToolVersionRetired\<rparr>"
  using assms by (auto simp: Retire_def split: if_splits)

lemma ValidateToolPublication_version:
  "ValidateToolPublication d c = None \<Longrightarrow> ValidateToolVersionDefinition d = None"
  by (simp add: ValidateToolPublication_def split: option.splits)

lemma tool_life_valid:
  "tool_life c v \<Longrightarrow> ValidateToolVersionDefinition (tv_definition v) = None
    \<and> (tv_state v \<noteq> ToolVersionDraft \<longrightarrow> ValidateToolPublication (tv_definition v) c = None)"
proof (induction rule: tool_life.induct)
  case (life_new d v)
  then show ?case by (auto simp: NewToolVersion_def)
next
  case (life_publish v w)
  then show ?case using Publish_shape [of v c w] by simp
next
  case (life_retire v w)
  then show ?case using Retire_shape [of v w] by simp
qed

definition publishable :: "ToolVersionDefinition \<Rightarrow> (string \<Rightarrow> goerror option) \<Rightarrow> bool" where
  "publishable d compile \<longleftrightarrow>
     \<not> tool_limits_exceeded (tvd_Limits d)
     \<and> (tvd_SideEffect d \<longrightarrow> tvd_Risk d \<noteq> RiskRead \<and> tvd_Retry d \<noteq> RetrySafe)
     \<and> compile (tvd_InputSchema d) = None \<and> compile (tvd_OutputSchema d) = None
     \<and> validRegistryKey (tvd_CredentialSelector d)
     \<and> (let fields = rpd_Fields (tvd_ResourceProjection d) in
          distinct (map rpf_Name fields) \<and> length fields \<le> 32
          \<and> (\<exists>f \<in> set fields. rpf_Required f))"

lemma ValidateToolPublication_publishable:
  assumes "ValidateToolPublication d (Some compile) = None"
  shows "publishable d compile"
proof -
  from assms have v: "ValidateToolVersionDefinition d = None"
    by (rule ValidateToolPublication_version)
  then have "validateProjection (tvd_ResourceProjection d) = None"
    by (simp add: ValidateToolVersionDefinition_def)
  note projection = validateProjection_distinct [OF this]
  from v assms have "\<exists>f \<in> set (rpd_Fields (tvd_ResourceProjection d)). rpf_Required f"
    by (simp add: ValidateToolPublication_def list_ex_iff)
  moreover from v have "\<not> tool_limits_exceeded (tvd_Limits d)"
    "tvd_SideEffect d \<longrightarrow> tvd_Risk d \<noteq> RiskRead \<and> tvd_Retry d \<noteq> RetrySafe"
    by (simp_all add: ValidateToolVersionDefinition_def) blast
  moreover from v assms have "compile (tvd_InputSchema d) = None"
    "compile (tvd_OutputSchema d) = None" "validRegistryKey (tvd_CredentialSelector d)"
    by (simp_all add: ValidateToolPublication_def)
  ultimately show ?thesis using projection unfolding publishable_def Let_def by blast
qed

section \<open>Properties\<close>

lemmas semver_eval =
  ParseSemanticVersion_def validSemverIdentifiers_def numericIdentifier_def semverIDPattern_def
  semverCorePattern_def semverNumber_def re_eval is_digit_def parse_decimal_def digit_value_def
  ParseUint64_def

lemmas tool_eval =
  ValidateToolVersionDefinition_def ValidateToolPublication_def ParseToolID_def toolIDPattern_def
  SemanticVersion_String_def validRisk_def validRetry_def validApproval_def class_defs
  validRegistryKey_def registryKeyPattern_def validateProjection_def validateProjectionField_def
  validJSONPointer_def validProjectionType_def tool_limits_exceeded_def duration_defs
  validateReviewedDescription_def validReviewedText_def validReviewReference_def
  validateMetering_def exactQuantityPattern_def

text \<open>
  C16. \<open>Compare\<close> is Semantic Versioning precedence: on parsed versions it is the sign of the order
  of the standard's precedence keys, in which numeric identifiers are compared as numbers although
  the code compares their lengths and then their text.
\<close>

theorem Compare_is_semver_precedence:
  assumes "ParseSemanticVersion a = Inr v" and "ParseSemanticVersion b = Inr w"
  shows "Compare v w = order_sign (precedence_key v) (precedence_key w)"
  using assms by (intro Compare_order ParseSemanticVersion_shape)

lemma parse_rc10: "ParseSemanticVersion ''1.2.0-rc.10'' =
  Inr \<lparr>sv_raw = ''1.2.0-rc.10'', sv_major = 1, sv_minor = 2, sv_patch = 0,
       sv_prerelease = [''rc'', ''10'']\<rparr>"
  by (simp add: semver_eval)

lemma parse_rc9: "ParseSemanticVersion ''1.2.0-rc.9+build'' =
  Inr \<lparr>sv_raw = ''1.2.0-rc.9+build'', sv_major = 1, sv_minor = 2, sv_patch = 0,
       sv_prerelease = [''rc'', ''9'']\<rparr>"
  by (simp add: semver_eval)

theorem Compare_is_semver_precedence_witness:
  "Compare \<lparr>sv_raw = ''1.2.0-rc.10'', sv_major = 1, sv_minor = 2, sv_patch = 0,
            sv_prerelease = [''rc'', ''10'']\<rparr>
           \<lparr>sv_raw = ''1.2.0-rc.9+build'', sv_major = 1, sv_minor = 2, sv_patch = 0,
            sv_prerelease = [''rc'', ''9'']\<rparr>
   = order_sign (precedence_key \<lparr>sv_raw = ''1.2.0-rc.10'', sv_major = 1, sv_minor = 2,
                   sv_patch = 0, sv_prerelease = [''rc'', ''10'']\<rparr>)
       (precedence_key \<lparr>sv_raw = ''1.2.0-rc.9+build'', sv_major = 1, sv_minor = 2, sv_patch = 0,
          sv_prerelease = [''rc'', ''9'']\<rparr>)"
  using Compare_is_semver_precedence [OF parse_rc10 parse_rc9] .

definition sample_field :: ResourceProjectionField where
  "sample_field = \<lparr>rpf_Name = ''repository'', rpf_Pointer = ''/repo'', rpf_Literal = JNull,
     rpf_LiteralSet = False, rpf_Required = True, rpf_Type = ProjectionString\<rparr>"

definition sample_version :: SemanticVersion where
  "sample_version = \<lparr>sv_raw = ''1.0.0'', sv_major = 1, sv_minor = 0, sv_patch = 0,
     sv_prerelease = []\<rparr>"

definition sample_tool :: ToolVersionDefinition where
  "sample_tool =
     \<lparr>tvd_ToolID = ''github.pulls'', tvd_Version = sample_version, tvd_Risk = RiskRead,
      tvd_SideEffect = False, tvd_Retry = RetrySafe, tvd_Approval = ApprovalNever,
      tvd_OpenWorldResult = True,
      tvd_Description = \<lparr>rd_Title = ''Pulls'', rd_Description = ''Lists'', rd_ReviewRef = ''R-1''\<rparr>,
      tvd_InputSchema = ''{}'', tvd_OutputSchema = ''{}'', tvd_CanonicalProfile = ''jcs-v1'',
      tvd_Connector = \<lparr>cb_ConnectorType = ''github'', cb_Operation = ''read'',
        cb_InstanceSelector = ''main''\<rparr>,
      tvd_CredentialSelector = ''reader'', tvd_RetryQualification = ''Q-1'',
      tvd_ResourceProjection = \<lparr>rpd_Fields = [sample_field], rpd_MaxFields = 0,
        rpd_MaxOutputBytes = 0\<rparr>,
      tvd_Metering = \<lparr>mr_Dimension = ''calls'', mr_Units = ''1'', mr_ChargePoint = ''attempt'',
        mr_DeduplicationScope = ''attempt''\<rparr>,
      tvd_Limits = \<lparr>lim_RequestBytes = 1024, lim_ResultBytes = 1024, lim_Deadline = Second,
        lim_Concurrency = 1, lim_MaxAttempts = 1\<rparr>\<rparr>"

lemma sample_tool_valid: "ValidateToolVersionDefinition sample_tool = None"
  by (simp add: sample_tool_def sample_version_def sample_field_def tool_eval semver_eval
      ContainsAny_def)

lemma sample_tool_publishable: "ValidateToolPublication sample_tool (Some (\<lambda>_. None)) = None"
  unfolding ValidateToolPublication_def sample_tool_valid
  by (simp add: sample_tool_def sample_field_def tool_eval semver_eval bounded_text_eval)


lemma sample_tool_life:
  "tool_life (Some (\<lambda>_. None)) \<lparr>tv_definition = sample_tool, tv_state = ToolVersionPublished\<rparr>"
proof (rule life_publish)
  show "tool_life (Some (\<lambda>_. None)) \<lparr>tv_definition = sample_tool, tv_state = ToolVersionDraft\<rparr>"
    by (rule life_new [of sample_tool]) (simp add: NewToolVersion_def sample_tool_valid)
  show "Publish \<lparr>tv_definition = sample_tool, tv_state = ToolVersionDraft\<rparr> (Some (\<lambda>_. None))
      = Inr \<lparr>tv_definition = sample_tool, tv_state = ToolVersionPublished\<rparr>"
    by (simp add: Publish_def sample_tool_publishable)
qed


end
