(* ===== verification/Authorization_Port.thy ===== *)
theory Authorization_Port
  imports Tool_Catalog Contracts
begin

text \<open>
  The authorization boundary (\<open>internal/ports/authorization.go\<close>): requests, decisions,
  constraints, and their validators.
\<close>

type_synonym AuthorizationOutcome = string
definition AuthorizationAllow :: AuthorizationOutcome where "AuthorizationAllow = ''allow''"
definition AuthorizationDeny :: AuthorizationOutcome where "AuthorizationDeny = ''deny''"

type_synonym AuthorizationReason = string
definition ReasonAllowed :: AuthorizationReason where "ReasonAllowed = ''allowed''"
definition ReasonPolicyDenied :: AuthorizationReason where "ReasonPolicyDenied = ''policy_denied''"
definition ReasonRunInactive :: AuthorizationReason where "ReasonRunInactive = ''run_inactive''"
definition ReasonAgentVersionDenied :: AuthorizationReason where
  "ReasonAgentVersionDenied = ''agent_version_denied''"
definition ReasonToolDenied :: AuthorizationReason where "ReasonToolDenied = ''tool_denied''"
definition ReasonResourceDenied :: AuthorizationReason where
  "ReasonResourceDenied = ''resource_denied''"
definition ReasonBudgetExhausted :: AuthorizationReason where
  "ReasonBudgetExhausted = ''budget_exhausted''"
definition ReasonApprovalRequired :: AuthorizationReason where
  "ReasonApprovalRequired = ''approval_required''"
definition ReasonRevoked :: AuthorizationReason where "ReasonRevoked = ''revoked''"
definition ReasonDecisionStale :: AuthorizationReason where
  "ReasonDecisionStale = ''decision_stale''"
definition ReasonDependencyDown :: AuthorizationReason where
  "ReasonDependencyDown = ''dependency_unavailable''"
definition ReasonMalformedDecision :: AuthorizationReason where
  "ReasonMalformedDecision = ''malformed_decision''"

lemmas reason_defs =
  AuthorizationAllow_def AuthorizationDeny_def ReasonAllowed_def ReasonPolicyDenied_def
  ReasonRunInactive_def ReasonAgentVersionDenied_def ReasonToolDenied_def
  ReasonResourceDenied_def ReasonBudgetExhausted_def ReasonApprovalRequired_def
  ReasonRevoked_def ReasonDecisionStale_def ReasonDependencyDown_def ReasonMalformedDecision_def

record AuthorizationRequest =
  ar_RequestID :: string
  ar_TenantID :: string
  ar_Subject :: string
  ar_Actor :: string
  ar_AgentID :: string
  ar_AgentVersion :: string
  ar_RunID :: string
  ar_WorkloadID :: string
  ar_ToolID :: string
  ar_ToolVersion :: string
  ar_Risk :: string
  ar_SideEffect :: string
  ar_ApprovalMode :: string
  ar_RetryMode :: string
  ar_ArgumentProfile :: string
  ar_ConnectorType :: string
  ar_Operation :: string
  ar_ArgumentDigest :: Digest
  ar_ResourceDigest :: Digest
  ar_Resources :: "string list"
  ar_Actions :: "string list"
  ar_RequestedDeadline :: duration
  ar_PolicyProfile :: string
  ar_PolicyVersion :: string

text \<open>\<open>ArgumentMax\<close> is a Go map; here the list of its entries, in whatever order it is ranged.\<close>

record AuthorizationConstraints =
  ac_Repositories :: "string list"
  ac_Resources :: "string list"
  ac_Actions :: "string list"
  ac_ArgumentMax :: "(string \<times> int) list"
  ac_MaxResultBytes :: int
  ac_MaxDuration :: duration

record ApprovalRequirement =
  apr_Required :: bool
  apr_Mode :: string

record AuthorizationDecision =
  ad_DecisionID :: string
  ad_RequestID :: string
  ad_ContextDigest :: string
  ad_PolicyID :: string
  ad_PolicyVersion :: string
  ad_Outcome :: AuthorizationOutcome
  ad_Reasons :: "AuthorizationReason list"
  ad_IssuedAt :: instant
  ad_NotBefore :: instant
  ad_ExpiresAt :: instant
  ad_RevocationEpoch :: nat
  ad_RevocationCheckpoint :: string
  ad_Constraints :: AuthorizationConstraints
  ad_Approval :: ApprovalRequirement
  ad_EvidenceRef :: string

definition validAuthorizationText :: "string \<Rightarrow> bool" where
  "validAuthorizationText value \<longleftrightarrow> value \<noteq> [] \<and> length value \<le> 512 \<and> TrimSpace value = value"

fun validSet_from :: "string \<Rightarrow> string list \<Rightarrow> bool" where
  "validSet_from previous [] = True"
| "validSet_from previous (value # values) =
     (if \<not> validAuthorizationText value \<or> previous \<noteq> [] \<and> value \<le> previous then False
      else validSet_from value values)"

definition validSet :: "string list \<Rightarrow> bool" where
  "validSet values = validSet_from [] values"

definition containsReason :: "AuthorizationReason list \<Rightarrow> AuthorizationReason \<Rightarrow> bool" where
  "containsReason reasons wanted = list_ex (\<lambda>reason. reason = wanted) reasons"

definition AuthorizationReason_Valid :: "AuthorizationReason \<Rightarrow> bool" where
  "AuthorizationReason_Valid reason \<longleftrightarrow> reason \<in> {ReasonAllowed, ReasonPolicyDenied,
     ReasonRunInactive, ReasonAgentVersionDenied, ReasonToolDenied, ReasonResourceDenied,
     ReasonBudgetExhausted, ReasonApprovalRequired, ReasonRevoked, ReasonDecisionStale,
     ReasonDependencyDown, ReasonMalformedDecision}"

definition request_required :: "AuthorizationRequest \<Rightarrow> string list" where
  "request_required r =
     [ar_RequestID r, ar_TenantID r, ar_Subject r, ar_AgentID r, ar_AgentVersion r, ar_RunID r,
      ar_WorkloadID r, ar_ToolID r, ar_ToolVersion r, ar_Risk r, ar_SideEffect r,
      ar_ApprovalMode r, ar_RetryMode r, ar_ArgumentProfile r, ar_ConnectorType r,
      ar_Operation r, ar_PolicyProfile r, ar_PolicyVersion r]"

definition AuthorizationRequest_Validate :: "AuthorizationRequest \<Rightarrow> goerror option" where
  "AuthorizationRequest_Validate request = first_err
     [fail_if (list_ex (\<lambda>value. \<not> validAuthorizationText value) (request_required request))
        (ErrNew ''authorization request has missing or invalid fields''),
      fail_if (ar_Actor request \<noteq> [] \<and> \<not> validAuthorizationText (ar_Actor request)
          \<or> ar_RequestedDeadline request \<le> 0)
        (ErrNew ''authorization request has invalid bounds''),
      fail_if (\<not> validSet (ar_Resources request) \<or> \<not> validSet (ar_Actions request))
        (ErrNew ''authorization request sets must be normalized'')]"

definition AuthorizationConstraints_Validate :: "AuthorizationConstraints \<Rightarrow> goerror option" where
  "AuthorizationConstraints_Validate constraints = first_err
     [fail_if (\<not> validSet (ac_Repositories constraints) \<or> \<not> validSet (ac_Resources constraints)
          \<or> \<not> validSet (ac_Actions constraints) \<or> ac_MaxResultBytes constraints < 0
          \<or> ac_MaxDuration constraints < 0)
        (ErrNew ''authorization constraints are invalid''),
      fail_if (list_ex (\<lambda>(name, maximum). \<not> validAuthorizationText name \<or> maximum < 0)
          (ac_ArgumentMax constraints))
        (ErrNew ''authorization argument constraint is invalid'')]"

definition ValidateFor :: "AuthorizationDecision \<Rightarrow> AuthorizationRequest \<Rightarrow> goerror option" where
  "ValidateFor decision request = first_err
     [AuthorizationRequest_Validate request,
      fail_if (\<not> validAuthorizationText (ad_DecisionID decision)
          \<or> ad_RequestID decision \<noteq> ar_RequestID request
          \<or> \<not> validAuthorizationText (ad_ContextDigest decision)
          \<or> \<not> validAuthorizationText (ad_PolicyID decision)
          \<or> ad_PolicyVersion decision \<noteq> ar_PolicyVersion request
          \<or> \<not> validAuthorizationText (ad_EvidenceRef decision)
          \<or> \<not> validAuthorizationText (ad_RevocationCheckpoint decision)
          \<or> IsZero (ad_IssuedAt decision) \<or> IsZero (ad_NotBefore decision)
          \<or> IsZero (ad_ExpiresAt decision) \<or> ad_NotBefore decision < ad_IssuedAt decision
          \<or> \<not> ad_ExpiresAt decision > ad_NotBefore decision)
        (ErrNew ''authorization decision is incomplete or contradictory''),
      fail_if (ad_Outcome decision \<noteq> AuthorizationAllow \<and> ad_Outcome decision \<noteq> AuthorizationDeny
          \<or> ad_Reasons decision = [])
        (ErrNew ''authorization decision outcome is invalid''),
      fail_if (list_ex (\<lambda>reason. \<not> AuthorizationReason_Valid reason) (ad_Reasons decision))
        (ErrNew ''authorization decision reason is unknown''),
      fail_if (ad_Outcome decision = AuthorizationAllow
            \<and> \<not> containsReason (ad_Reasons decision) ReasonAllowed
          \<or> ad_Outcome decision = AuthorizationDeny
            \<and> containsReason (ad_Reasons decision) ReasonAllowed)
        (ErrNew ''authorization decision reasons contradict outcome''),
      AuthorizationConstraints_Validate (ad_Constraints decision)]"

section \<open>Normalized sets\<close>

lemma validSet_from_Cons:
  "validSet_from p (v # vs) \<longleftrightarrow> validAuthorizationText v \<and> (p = [] \<or> p < v) \<and> validSet_from v vs"
  unfolding validSet_from.simps not_le [symmetric] by simp

declare validSet_from.simps(2) [simp del]

lemma validSet_from_sorted:
  "validSet_from p xs \<Longrightarrow> sorted_wrt (<) xs \<and> (\<forall>x \<in> set xs. validAuthorizationText x \<and> (p = [] \<or> p < x))"
proof (induction xs arbitrary: p)
  case (Cons v vs)
  then have v: "validAuthorizationText v" "p = [] \<or> p < v" "validSet_from v vs"
    by (simp_all add: validSet_from_Cons)
  from v(1) have "v \<noteq> []" by (simp add: validAuthorizationText_def)
  with Cons.IH [OF v(3)] have IH: "sorted_wrt (<) vs" "\<forall>x \<in> set vs. validAuthorizationText x \<and> v < x"
    by blast+
  then have "\<forall>x \<in> set vs. p = [] \<or> p < x" using v(2) less_trans [of p v] by blast
  with v IH show ?case by simp
qed simp

lemma validSet_from_intro:
  "sorted_wrt (<) xs \<Longrightarrow> \<forall>x \<in> set xs. validAuthorizationText x \<and> (p = [] \<or> p < x) \<Longrightarrow> validSet_from p xs"
  by (induction xs arbitrary: p) (simp_all add: validSet_from_Cons)

lemma validSet_iff:
  "validSet xs \<longleftrightarrow> sorted_wrt (<) xs \<and> (\<forall>x \<in> set xs. validAuthorizationText x)"
  unfolding validSet_def using validSet_from_sorted [of "[]" xs] validSet_from_intro [of xs "[]"]
  by blast

lemma validSet_filter: "validSet xs \<Longrightarrow> validSet (filter P xs)"
  by (auto simp: validSet_iff sorted_wrt_filter)

lemma ValidateFor_None:
  assumes "ValidateFor decision request = None"
  shows "AuthorizationRequest_Validate request = None"
    "ad_RequestID decision = ar_RequestID request"
    "ad_PolicyVersion decision = ar_PolicyVersion request"
    "ad_IssuedAt decision \<le> ad_NotBefore decision" "ad_NotBefore decision < ad_ExpiresAt decision"
    "ad_Outcome decision = AuthorizationAllow \<longleftrightarrow> ReasonAllowed \<in> set (ad_Reasons decision)"
    "ad_Outcome decision = AuthorizationAllow \<or> ad_Outcome decision = AuthorizationDeny"
    "AuthorizationConstraints_Validate (ad_Constraints decision) = None"
  using assms by (auto simp: ValidateFor_def containsReason_def list_ex_iff reason_defs)

lemma ValidateFor_Validate: "ValidateFor decision request = None \<Longrightarrow> AuthorizationRequest_Validate request = None"
  by (rule ValidateFor_None)

end
