(* ===== verification/Authorization_App.thy ===== *)
theory Authorization_App
  imports Authorization_Port "HOL-Library.AList"
begin

text \<open>
  How the application consumes authorization decisions (\<open>internal/app/authorization_*.go\<close> and
  \<open>authorized_execution.go\<close>): the freshness cache, live authorization of high-risk writes,
  readiness, narrowing of constraints, and the executor that sequences credentials and connector.

  Everything outside the process (the governance service, revocation state, clocks, credential
  resolvers, connectors) acts on a world \<open>'w\<close>: an authorizer maps a request and a world to a
  result and the world after the call. The clock is read from the world.
\<close>

type_synonym 'w Authorizer =
  "AuthorizationRequest \<Rightarrow> 'w \<Rightarrow> AuthorizationDecision result \<times> 'w"

type_synonym 'w RevocationState = "string \<Rightarrow> string \<Rightarrow> 'w \<Rightarrow> (nat \<times> string) result \<times> 'w"

section \<open>Freshness\<close>

definition validateFreshDecision ::
  "AuthorizationDecision \<Rightarrow> AuthorizationRequest \<Rightarrow> instant \<Rightarrow> goerror option" where
  "validateFreshDecision decision request now = first_err
     [ValidateFor decision request,
      fail_if (ad_IssuedAt decision > now \<or> ad_NotBefore decision > now
          \<or> \<not> ad_ExpiresAt decision > now)
        (ErrNew ''authorization decision is not currently valid'')]"

definition matchesRevocation :: "AuthorizationDecision \<Rightarrow> nat \<Rightarrow> string \<Rightarrow> bool" where
  "matchesRevocation decision epoch checkpoint =
     (if ad_RevocationEpoch decision < epoch then False
      else ad_RevocationEpoch decision \<noteq> epoch \<or> ad_RevocationCheckpoint decision = checkpoint)"

text \<open>Copying slices and maps keeps their values.\<close>

definition cloneDecision :: "AuthorizationDecision \<Rightarrow> AuthorizationDecision" where
  "cloneDecision input = input"

text \<open>
  The cache key: SHA-256 of the JSON of the request without its correlation identifier. Go prints
  the struct's fields in order under their names, a digest (an array of bytes) as an array of
  numbers and a nil slice as \<open>null\<close>.
\<close>

definition json_strings :: "string list \<Rightarrow> json" where
  "json_strings xs = (if xs = [] then JNull else JArray (map JString xs))"

definition json_digest :: "Digest \<Rightarrow> json" where
  "json_digest d = JArray (map (\<lambda>b. JNumber (Itoa (uint b))) d)"

definition json_request :: "AuthorizationRequest \<Rightarrow> json" where
  "json_request r = JObject
     [(''RequestID'', JString (ar_RequestID r)), (''TenantID'', JString (ar_TenantID r)),
      (''Subject'', JString (ar_Subject r)), (''Actor'', JString (ar_Actor r)),
      (''AgentID'', JString (ar_AgentID r)), (''AgentVersion'', JString (ar_AgentVersion r)),
      (''RunID'', JString (ar_RunID r)), (''WorkloadID'', JString (ar_WorkloadID r)),
      (''ToolID'', JString (ar_ToolID r)), (''ToolVersion'', JString (ar_ToolVersion r)),
      (''Risk'', JString (ar_Risk r)), (''SideEffect'', JString (ar_SideEffect r)),
      (''ApprovalMode'', JString (ar_ApprovalMode r)), (''RetryMode'', JString (ar_RetryMode r)),
      (''ArgumentProfile'', JString (ar_ArgumentProfile r)),
      (''ConnectorType'', JString (ar_ConnectorType r)), (''Operation'', JString (ar_Operation r)),
      (''ArgumentDigest'', json_digest (ar_ArgumentDigest r)),
      (''ResourceDigest'', json_digest (ar_ResourceDigest r)),
      (''Resources'', json_strings (ar_Resources r)), (''Actions'', json_strings (ar_Actions r)),
      (''RequestedDeadline'', JNumber (Itoa (ar_RequestedDeadline r))),
      (''PolicyProfile'', JString (ar_PolicyProfile r)),
      (''PolicyVersion'', JString (ar_PolicyVersion r))]"

definition decision_key_preimage :: "AuthorizationRequest \<Rightarrow> string" where
  "decision_key_preimage request = json_print (json_request (request\<lparr>ar_RequestID := []\<rparr>))"

definition AuthorizationDecisionKey :: "AuthorizationRequest \<Rightarrow> string result" where
  "AuthorizationDecisionKey request =
     ensure (AuthorizationRequest_Validate request)
       (Inr (hex_EncodeToString (Sum256 (bytes_of_string (decision_key_preimage request)))))"

record cachedDecision =
  cd_decision :: AuthorizationDecision
  cd_until :: instant

type_synonym entries = "(string \<times> cachedDecision) list"

record 'w FreshnessConfig =
  fc_AllowTTL :: duration
  fc_DenyTTL :: duration
  fc_MaxEntries :: int
  fc_Clock :: "'w \<Rightarrow> instant"
  fc_Revocations :: "'w RevocationState option"

record 'w FreshAuthorizer = "'w FreshnessConfig" +
  fa_next :: "'w Authorizer"

definition NewFreshAuthorizer ::
  "'w Authorizer option \<Rightarrow> 'w FreshnessConfig \<Rightarrow> 'w FreshAuthorizer result" where
  "NewFreshAuthorizer next config =
     (case next of
        None \<Rightarrow> Inl (ErrNew ''authorization freshness configuration is invalid'')
      | Some nx \<Rightarrow>
          ensure (first_err
            [fail_if (fc_AllowTTL config < 0 \<or> fc_DenyTTL config < 0 \<or> fc_MaxEntries config < 0)
               (ErrNew ''authorization freshness configuration is invalid''),
             fail_if (fc_MaxEntries config > 0
                 \<and> (fc_Revocations config = None
                     \<or> fc_AllowTTL config = 0 \<and> fc_DenyTTL config = 0))
               (ErrNew ''bounded cache requires TTL and revocation state'')])
            (Inr \<lparr>fc_AllowTTL = fc_AllowTTL config, fc_DenyTTL = fc_DenyTTL config,
                  fc_MaxEntries = fc_MaxEntries config, fc_Clock = fc_Clock config,
                  fc_Revocations = fc_Revocations config, fa_next = nx\<rparr>))"

text \<open>The two operations under the mutex: lookup, which evicts what is not reusable, and store.\<close>

definition cached ::
  "string \<Rightarrow> AuthorizationRequest \<Rightarrow> instant \<Rightarrow> nat \<Rightarrow> string \<Rightarrow> entries
     \<Rightarrow> AuthorizationDecision option \<times> entries" where
  "cached key request now epoch checkpoint es =
     (case map_of es key of
        None \<Rightarrow> (None, es)
      | Some entry \<Rightarrow>
          (let decision = (cloneDecision (cd_decision entry))\<lparr>ad_RequestID := ar_RequestID request\<rparr> in
           if \<not> now < cd_until entry \<or> validateFreshDecision decision request now \<noteq> None
              \<or> \<not> matchesRevocation decision epoch checkpoint
           then (None, AList.delete key es)
           else (Some decision, es)))"

definition store ::
  "'w FreshAuthorizer \<Rightarrow> string \<Rightarrow> AuthorizationDecision \<Rightarrow> instant \<Rightarrow> entries \<Rightarrow> entries" where
  "store authorizer key decision now es =
     (if fc_MaxEntries authorizer = 0 then es
      else let ttl = (if ad_Outcome decision = AuthorizationDeny then fc_DenyTTL authorizer
                      else fc_AllowTTL authorizer) in
        if ttl = 0 then es
        else let until = (if ad_ExpiresAt decision < now + ttl then ad_ExpiresAt decision
                          else now + ttl) in
          if \<not> now < until then es
          else if map_of es key = None \<and> int (length es) \<ge> fc_MaxEntries authorizer then es
          else AList.update key \<lparr>cd_decision = cloneDecision decision, cd_until = until\<rparr> es)"

text \<open>
  The whole handler. Its state is the world and the cache; a nil receiver is \<^const>\<open>None\<close>.
\<close>

definition fresh_live ::
  "'w FreshAuthorizer \<Rightarrow> string \<Rightarrow> instant \<Rightarrow> AuthorizationRequest \<Rightarrow> 'w \<times> entries
     \<Rightarrow> AuthorizationDecision result \<times> 'w \<times> entries" where
  "fresh_live authorizer key now request st =
     (let (w, es) = st in
      case fa_next authorizer request w of
        (Inl err, w1) \<Rightarrow> (Inl err, w1, es)
      | (Inr decision, w1) \<Rightarrow>
          (case validateFreshDecision decision request now of
             Some err \<Rightarrow> (Inl err, w1, es)
           | None \<Rightarrow>
              (case fc_Revocations authorizer of
                 None \<Rightarrow> (Inr (cloneDecision decision), w1, store authorizer key decision now es)
               | Some current \<Rightarrow>
                  (case current (ar_TenantID request) (ar_PolicyProfile request) w1 of
                     (Inl _, w2) \<Rightarrow>
                       (Inl (ErrNew ''authorization revocation freshness cannot be established''),
                        w2, es)
                   | (Inr (epoch, checkpoint), w2) \<Rightarrow>
                       if \<not> matchesRevocation decision epoch checkpoint
                       then (Inl (ErrNew
                               ''authorization revocation freshness cannot be established''), w2, es)
                       else (Inr (cloneDecision decision), w2,
                             store authorizer key decision now es)))))"

definition Fresh_AuthorizeToolInvocation ::
  "'w FreshAuthorizer option \<Rightarrow> AuthorizationRequest \<Rightarrow> 'w \<times> entries
     \<Rightarrow> AuthorizationDecision result \<times> 'w \<times> entries" where
  "Fresh_AuthorizeToolInvocation receiver request st =
     (case receiver of
        None \<Rightarrow> (Inl (ErrNew ''fresh authorizer is nil''), st)
      | Some authorizer \<Rightarrow>
          (case AuthorizationDecisionKey request of
             Inl err \<Rightarrow> (Inl err, st)
           | Inr key \<Rightarrow>
              (let (w, es) = st; now = fc_Clock authorizer w in
               if fc_MaxEntries authorizer > 0 then
                 (case fc_Revocations authorizer of
                    None \<Rightarrow> (Inl (ErrNew ''nil revocation state''), st)
                  | Some current \<Rightarrow>
                     (case current (ar_TenantID request) (ar_PolicyProfile request) w of
                        (Inl _, w1) \<Rightarrow>
                          (Inl (ErrNew ''authorization revocation freshness unavailable''), w1, es)
                      | (Inr (epoch, checkpoint), w1) \<Rightarrow>
                          (case cached key request now epoch checkpoint es of
                             (Some decision, es1) \<Rightarrow> (Inr decision, w1, es1)
                           | (None, es1) \<Rightarrow> fresh_live authorizer key now request (w1, es1))))
               else fresh_live authorizer key now request st)))"

text \<open>
  Calling a nil revocation state panics in Go; the constructor refuses that configuration, and
  the branch above is unreachable for authorizers it built.
\<close>

section \<open>Live authorization of high-risk writes\<close>

record HighRiskWrite =
  hrw_Risk :: string
  hrw_SideEffect :: string

record 'w CurrentAuthorizationConfig =
  cac_HighRiskWrites :: "HighRiskWrite list"
  cac_MaxDecisionAge :: duration
  cac_Clock :: "'w \<Rightarrow> instant"
  cac_Revocations :: "'w RevocationState option"

record 'w CurrentAuthorizer =
  ca_regular :: "'w Authorizer"
  ca_live :: "'w Authorizer"
  ca_highRiskWrites :: "HighRiskWrite list"
  ca_maxDecisionAge :: duration
  ca_clock :: "'w \<Rightarrow> instant"
  ca_revocations :: "'w RevocationState"

definition NewCurrentAuthorizer ::
  "'w Authorizer option \<Rightarrow> 'w Authorizer option \<Rightarrow> 'w CurrentAuthorizationConfig
     \<Rightarrow> 'w CurrentAuthorizer result" where
  "NewCurrentAuthorizer regular live config =
     (case (regular, live, cac_Revocations config) of
        (Some rg, Some lv, Some current) \<Rightarrow>
          ensure (first_err
            [fail_if (cac_MaxDecisionAge config \<le> 0 \<or> cac_HighRiskWrites config = [])
               (ErrNew ''current authorization configuration is invalid''),
             fail_if (list_ex (\<lambda>rule. TrimSpace (hrw_Risk rule) = []
                 \<or> TrimSpace (hrw_SideEffect rule) = []) (cac_HighRiskWrites config))
               (ErrNew ''high-risk write rule is invalid'')])
            (Inr \<lparr>ca_regular = rg, ca_live = lv, ca_highRiskWrites = cac_HighRiskWrites config,
                  ca_maxDecisionAge = cac_MaxDecisionAge config, ca_clock = cac_Clock config,
                  ca_revocations = current\<rparr>)
      | _ \<Rightarrow> Inl (ErrNew ''current authorization configuration is invalid''))"

definition Current_AuthorizeToolInvocation ::
  "'w CurrentAuthorizer option \<Rightarrow> AuthorizationRequest \<Rightarrow> 'w \<Rightarrow> AuthorizationDecision result \<times> 'w" where
  "Current_AuthorizeToolInvocation receiver request w =
     (case receiver of
        None \<Rightarrow> (Inl (ErrNew ''current authorizer is nil''), w)
      | Some authorizer \<Rightarrow>
          if \<lparr>hrw_Risk = ar_Risk request, hrw_SideEffect = ar_SideEffect request\<rparr>
               \<notin> set (ca_highRiskWrites authorizer)
          then ca_regular authorizer request w
          else (case ca_revocations authorizer (ar_TenantID request) (ar_PolicyProfile request) w of
             (Inl _, w1) \<Rightarrow> (Inl (ErrNew ''mandatory authorization freshness unavailable''), w1)
           | (Inr (epoch, checkpoint), w1) \<Rightarrow>
              (case ca_live authorizer request w1 of
                 (Inl err, w2) \<Rightarrow> (Inl err, w2)
               | (Inr decision, w2) \<Rightarrow>
                  (let now = ca_clock authorizer w2 in
                   case validateFreshDecision decision request now of
                     Some err \<Rightarrow> (Inl err, w2)
                   | None \<Rightarrow>
                      if time_Sub now (ad_IssuedAt decision) > ca_maxDecisionAge authorizer
                         \<or> \<not> matchesRevocation decision epoch checkpoint
                      then (Inl (ErrNew ''mandatory authorization freshness cannot be established''),
                            w2)
                      else (Inr (cloneDecision decision), w2)))))"

section \<open>Readiness\<close>

record ProtectedWriteScope =
  pws_TenantID :: string
  pws_PolicyProfile :: string

datatype AuthorizationAvailability = AuthorizationReady | AuthorizationReadOnlyDegraded

record 'w AuthorizationReadiness =
  rdy_dependency :: "'w \<Rightarrow> goerror option \<times> 'w"
  rdy_revocations :: "'w RevocationState"
  rdy_scopes :: "ProtectedWriteScope list"

definition NewAuthorizationReadiness ::
  "('w \<Rightarrow> goerror option \<times> 'w) option \<Rightarrow> 'w RevocationState option \<Rightarrow> ProtectedWriteScope list
     \<Rightarrow> 'w AuthorizationReadiness result" where
  "NewAuthorizationReadiness dependency revocations scopes =
     (case (dependency, revocations) of
        (Some dep, Some current) \<Rightarrow>
          if scopes = [] then Inl (ErrNew ''authorization readiness configuration is invalid'')
          else if list_ex (\<lambda>scope. TrimSpace (pws_TenantID scope) = []
                 \<or> TrimSpace (pws_PolicyProfile scope) = []) scopes
          then Inl (ErrNew ''authorization readiness scope is invalid'')
          else Inr \<lparr>rdy_dependency = dep, rdy_revocations = current, rdy_scopes = scopes\<rparr>
      | _ \<Rightarrow> Inl (ErrNew ''authorization readiness configuration is invalid''))"

fun scopes_ready :: "'w RevocationState \<Rightarrow> ProtectedWriteScope list \<Rightarrow> 'w \<Rightarrow> goerror option \<times> 'w" where
  "scopes_ready current [] w = (None, w)"
| "scopes_ready current (scope # scopes) w =
     (case current (pws_TenantID scope) (pws_PolicyProfile scope) w of
        (Inl _, w1) \<Rightarrow> (Some (ErrNew ''authorization revocation freshness is not ready''), w1)
      | (Inr (_, checkpoint), w1) \<Rightarrow>
          if TrimSpace checkpoint = []
          then (Some (ErrNew ''authorization revocation freshness is not ready''), w1)
          else scopes_ready current scopes w1)"

definition Readiness_Status ::
  "'w AuthorizationReadiness option \<Rightarrow> 'w
     \<Rightarrow> (AuthorizationAvailability \<times> goerror option) \<times> 'w" where
  "Readiness_Status receiver w =
     (case receiver of
        None \<Rightarrow> ((AuthorizationReadOnlyDegraded, Some (ErrNew ''authorization readiness is nil'')), w)
      | Some readiness \<Rightarrow>
          (case rdy_dependency readiness w of
             (Some err, w1) \<Rightarrow>
               ((AuthorizationReadOnlyDegraded,
                 Some (ErrWrap ''authorization dependency is not ready'' err)), w1)
           | (None, w1) \<Rightarrow>
              (case scopes_ready (rdy_revocations readiness) (rdy_scopes readiness) w1 of
                 (Some err, w2) \<Rightarrow> ((AuthorizationReadOnlyDegraded, Some err), w2)
               | (None, w2) \<Rightarrow> ((AuthorizationReady, None), w2))))"

definition Readiness_Ready :: "'w AuthorizationReadiness option \<Rightarrow> 'w \<Rightarrow> goerror option \<times> 'w" where
  "Readiness_Ready receiver w = (case Readiness_Status receiver w of ((_, err), w1) \<Rightarrow> (err, w1))"

section \<open>Narrowing constraints\<close>

type_synonym ConstraintCeiling = AuthorizationConstraints

definition narrowSet :: "string list \<Rightarrow> string list \<Rightarrow> string list result" where
  "narrowSet ceiling restriction =
     (if restriction = [] then Inr ceiling
      else let result = filter (\<lambda>value. value \<in> set restriction) ceiling in
        if ceiling \<noteq> [] \<and> result = []
        then Inl (ErrNew ''authorization constraint intersection is empty'')
        else Inr result)"

definition narrowInt64 :: "int \<Rightarrow> int \<Rightarrow> int" where
  "narrowInt64 ceiling restriction =
     (if restriction > 0 \<and> (ceiling = 0 \<or> restriction < ceiling) then restriction else ceiling)"

definition narrowDuration :: "duration \<Rightarrow> duration \<Rightarrow> duration" where
  "narrowDuration ceiling restriction =
     (if restriction > 0 \<and> (ceiling = 0 \<or> restriction < ceiling) then restriction else ceiling)"

fun narrowArguments ::
  "(string \<times> int) list \<Rightarrow> (string \<times> int) list \<Rightarrow> (string \<times> int) list \<Rightarrow> (string \<times> int) list result" where
  "narrowArguments ceiling [] arguments = Inr arguments"
| "narrowArguments ceiling ((name, maximum) # rest) arguments =
     (case map_of ceiling name of
        None \<Rightarrow> Inl (ErrNew ''authorization constrained an unknown argument'')
      | Some localMaximum \<Rightarrow>
          narrowArguments ceiling rest
            (if maximum < localMaximum then AList.update name maximum arguments else arguments))"

definition NarrowAuthorizationConstraints ::
  "AuthorizationDecision \<Rightarrow> ConstraintCeiling \<Rightarrow> AuthorizationConstraints result" where
  "NarrowAuthorizationConstraints decision ceiling =
     (let restriction = ad_Constraints decision in
      if ad_Outcome decision \<noteq> AuthorizationAllow
      then Inl (ErrNew ''authorization allow decision is required'')
      else if AuthorizationConstraints_Validate ceiling \<noteq> None
      then Inl (ErrNew ''local authorization ceiling is invalid'')
      else ensure (AuthorizationConstraints_Validate restriction)
        (bind_result (narrowSet (ac_Repositories ceiling) (ac_Repositories restriction)) (\<lambda>repositories.
         bind_result (narrowSet (ac_Resources ceiling) (ac_Resources restriction)) (\<lambda>resources.
         bind_result (narrowSet (ac_Actions ceiling) (ac_Actions restriction)) (\<lambda>actions.
         bind_result (narrowArguments (ac_ArgumentMax ceiling) (ac_ArgumentMax restriction)
                        (ac_ArgumentMax ceiling)) (\<lambda>arguments.
           Inr \<lparr>ac_Repositories = repositories, ac_Resources = resources, ac_Actions = actions,
                ac_ArgumentMax = arguments,
                ac_MaxResultBytes =
                  narrowInt64 (ac_MaxResultBytes ceiling) (ac_MaxResultBytes restriction),
                ac_MaxDuration =
                  narrowDuration (ac_MaxDuration ceiling) (ac_MaxDuration restriction)\<rparr>))))))"

section \<open>Authorized execution\<close>

text \<open>
  The callbacks act on the world; a lease is any value, and its release acts on the world. The
  resolver may return no lease without an error.
\<close>

record ('w, 'lease) AuthorizedExecutor =
  ae_authorizer :: "'w Authorizer"
  ae_Release :: "'lease \<Rightarrow> 'w \<Rightarrow> 'w"

type_synonym ('w, 'lease) CredentialResolution =
  "AuthorizationDecision \<Rightarrow> 'w \<Rightarrow> 'lease option result \<times> 'w"

type_synonym ('w, 'lease) ConnectorExecution =
  "AuthorizationDecision \<Rightarrow> 'lease \<Rightarrow> 'w \<Rightarrow> goerror option \<times> 'w"

definition Executor_Execute ::
  "('w, 'lease) AuthorizedExecutor option \<Rightarrow> AuthorizationRequest
     \<Rightarrow> ('w, 'lease) CredentialResolution option \<Rightarrow> ('w, 'lease) ConnectorExecution option
     \<Rightarrow> 'w \<Rightarrow> goerror option \<times> 'w" where
  "Executor_Execute receiver request resolve execute w =
     (case (receiver, resolve, execute) of
        (Some executor, Some res, Some exec) \<Rightarrow>
          (case ae_authorizer executor request w of
             (Inl err, w1) \<Rightarrow>
               (Some (NewError CodeUnavailable ''authorization could not be established'' (Some err)),
                w1)
           | (Inr decision, w1) \<Rightarrow>
              (case ValidateFor decision request of
                 Some err \<Rightarrow>
                   (Some (NewError CodeForbidden ''authorization decision is invalid'' (Some err)), w1)
               | None \<Rightarrow>
                  if ad_Outcome decision \<noteq> AuthorizationAllow
                  then (Some (NewError CodeForbidden ''tool invocation is not authorized'' None), w1)
                  else (case res (cloneDecision decision) w1 of
                     (Inl err, w2) \<Rightarrow> (Some err, w2)
                   | (Inr None, w2) \<Rightarrow>
                      (Some (NewError CodeInternal ''credential resolver returned no capability'' None),
                       w2)
                   | (Inr (Some lease), w2) \<Rightarrow>
                      (case exec (cloneDecision decision) lease w2 of
                         (err, w3) \<Rightarrow> (err, ae_Release executor lease w3)))))
      | _ \<Rightarrow> (Some (NewError CodeInternal ''protected execution is not configured'' None), w))"

section \<open>Decisions in use are valid and current\<close>

definition usable :: "AuthorizationDecision \<Rightarrow> AuthorizationRequest \<Rightarrow> instant \<Rightarrow> bool" where
  "usable d r now \<longleftrightarrow> ValidateFor d r = None \<and> ad_IssuedAt d \<le> now \<and> ad_NotBefore d \<le> now
     \<and> now < ad_ExpiresAt d"

lemma validateFreshDecision_iff: "validateFreshDecision d r now = None \<longleftrightarrow> usable d r now"
  by (auto simp: validateFreshDecision_def usable_def)

text \<open>The revocation state was observed, in some world, not to supersede the decision.\<close>

definition unrevoked :: "'w RevocationState \<Rightarrow> AuthorizationDecision \<Rightarrow> AuthorizationRequest \<Rightarrow> bool" where
  "unrevoked current d r \<longleftrightarrow> (\<exists>w epoch checkpoint w'.
     current (ar_TenantID r) (ar_PolicyProfile r) w = (Inr (epoch, checkpoint), w')
     \<and> matchesRevocation d epoch checkpoint)"

lemma cached_hit:
  assumes "cached key r now epoch checkpoint es = (Some d, es')"
  shows "usable d r now" "matchesRevocation d epoch checkpoint" "es' = es"
    "\<exists>e. map_of es key = Some e \<and> now < cd_until e
       \<and> d = (cd_decision e)\<lparr>ad_RequestID := ar_RequestID r\<rparr>"
  using assms
  by (auto simp: cached_def cloneDecision_def Let_def validateFreshDecision_iff
      split: option.splits if_splits)

lemma fresh_live_result:
  assumes "fresh_live a key now r (w, es) = (Inr d, w', es')"
  shows "usable d r now"
    "\<forall>current. fc_Revocations a = Some current \<longrightarrow> unrevoked current d r"
    "\<exists>w1. fa_next a r w = (Inr d, w1)"
  using assms unfolding fresh_live_def
  by (auto simp: cloneDecision_def validateFreshDecision_iff unrevoked_def Let_def
      split: prod.splits sum.splits option.splits if_splits; blast)+

lemma Fresh_result:
  assumes "Fresh_AuthorizeToolInvocation (Some a) r (w, es) = (Inr d, w', es')"
  shows "usable d r (fc_Clock a w)
    \<and> (\<forall>current. fc_Revocations a = Some current \<longrightarrow> unrevoked current d r)"
proof -
  from assms obtain key where key: "AuthorizationDecisionKey r = Inr key"
    by (auto simp: Fresh_AuthorizeToolInvocation_def split: sum.splits)
  show ?thesis
  proof (cases "fc_MaxEntries a > 0")
    case False
    with assms key have "fresh_live a key (fc_Clock a w) r (w, es) = (Inr d, w', es')"
      by (simp add: Fresh_AuthorizeToolInvocation_def Let_def)
    from fresh_live_result [OF this] show ?thesis by blast
  next
    case True
    with assms key obtain current epoch checkpoint w1 hit es1 where
      cur: "fc_Revocations a = Some current"
        "current (ar_TenantID r) (ar_PolicyProfile r) w = (Inr (epoch, checkpoint), w1)"
      and hit: "cached key r (fc_Clock a w) epoch checkpoint es = (hit, es1)"
      and res: "(case hit of Some x \<Rightarrow> (Inr x, w1, es1)
         | None \<Rightarrow> fresh_live a key (fc_Clock a w) r (w1, es1)) = (Inr d, w', es')"
      by (auto simp: Fresh_AuthorizeToolInvocation_def Let_def
          split: option.splits prod.splits sum.splits)
    show ?thesis
    proof (cases hit)
      case None
      with res have "fresh_live a key (fc_Clock a w) r (w1, es1) = (Inr d, w', es')" by simp
      from fresh_live_result [OF this] show ?thesis by blast
    next
      case (Some x)
      with res hit have "cached key r (fc_Clock a w) epoch checkpoint es = (Some d, es1)" by simp
      from cached_hit [OF this] cur show ?thesis by (auto simp: unrevoked_def)
    qed
  qed
qed

section \<open>The contract of an authorizer\<close>

text \<open>
  What callers of the \<open>Authorizer\<close> port rely on: a decision it returns validates for the request.
  For such an authorizer the executor refuses only for want of an answer or for a denial.
\<close>

locale valid_authorizer =
  fixes authorize :: "AuthorizationRequest \<Rightarrow> 'w \<Rightarrow> AuthorizationDecision result \<times> 'w"
  assumes decision_valid: "authorize r w = (Inr d, w') \<Longrightarrow> ValidateFor d r = None"
begin

lemma decision_matches_request:
  "authorize r w = (Inr d, w') \<Longrightarrow> ad_RequestID d = ar_RequestID r \<and> ad_PolicyVersion d = ar_PolicyVersion r"
  using decision_valid ValidateFor_None(2,3) by blast

lemma request_valid: "authorize r w = (Inr d, w') \<Longrightarrow> AuthorizationRequest_Validate r = None"
  using decision_valid ValidateFor_Validate by blast

lemma executor_outcome:
  assumes "authorize r w = (Inr d, w1)"
  shows "Executor_Execute (Some \<lparr>ae_authorizer = authorize, ae_Release = release\<rparr>) r
      (Some resolve) (Some execute) w =
    (if ad_Outcome d = AuthorizationDeny
     then (Some (NewError CodeForbidden ''tool invocation is not authorized'' None), w1)
     else case resolve d w1 of
       (Inl err, w2) \<Rightarrow> (Some err, w2)
     | (Inr None, w2) \<Rightarrow>
         (Some (NewError CodeInternal ''credential resolver returned no capability'' None), w2)
     | (Inr (Some lease), w2) \<Rightarrow>
         (case execute d lease w2 of (err, w3) \<Rightarrow> (err, release lease w3)))"
proof -
  from decision_valid [OF assms] have "ValidateFor d r = None" .
  moreover from ValidateFor_None(7) [OF this]
  have "ad_Outcome d \<noteq> AuthorizationAllow \<longleftrightarrow> ad_Outcome d = AuthorizationDeny"
    by (auto simp: reason_defs)
  ultimately show ?thesis
    using assms by (auto simp: Executor_Execute_def cloneDecision_def
        split: prod.splits sum.splits option.splits)
qed

end

lemma Current_live_result:
  assumes "Current_AuthorizeToolInvocation (Some a) r w = (Inr d, w')"
    and "\<lparr>hrw_Risk = ar_Risk r, hrw_SideEffect = ar_SideEffect r\<rparr> \<in> set (ca_highRiskWrites a)"
  obtains epoch checkpoint w1 where
    "ca_revocations a (ar_TenantID r) (ar_PolicyProfile r) w = (Inr (epoch, checkpoint), w1)"
    "ca_live a r w1 = (Inr d, w')" "usable d r (ca_clock a w')"
    "matchesRevocation d epoch checkpoint"
    "time_Sub (ca_clock a w') (ad_IssuedAt d) \<le> ca_maxDecisionAge a"
  using assms
  by (auto simp: Current_AuthorizeToolInvocation_def cloneDecision_def validateFreshDecision_iff Let_def
      split: prod.splits sum.splits option.splits if_splits)

interpretation fresh: valid_authorizer "Fresh_AuthorizeToolInvocation (Some a)" for a
proof
  fix r st d st'
  assume "Fresh_AuthorizeToolInvocation (Some a) r st = (Inr d, st')"
  then have "Fresh_AuthorizeToolInvocation (Some a) r (fst st, snd st) = (Inr d, fst st', snd st')"
    by simp
  from Fresh_result [OF this] show "ValidateFor d r = None" by (simp add: usable_def)
qed

interpretation current: valid_authorizer
  "Current_AuthorizeToolInvocation
     (Some (c\<lparr>ca_regular := Fresh_AuthorizeToolInvocation (Some a)\<rparr>))" for c a
proof
  fix r w d w'
  let ?c = "c\<lparr>ca_regular := Fresh_AuthorizeToolInvocation (Some a)\<rparr>"
  assume res: "Current_AuthorizeToolInvocation (Some ?c) r w = (Inr d, w')"
  show "ValidateFor d r = None"
  proof (cases "\<lparr>hrw_Risk = ar_Risk r, hrw_SideEffect = ar_SideEffect r\<rparr> \<in> set (ca_highRiskWrites c)")
    case True
    then have "usable d r (ca_clock ?c w')"
      using Current_live_result [OF res] by (metis CurrentAuthorizer.select_convs(3)
          CurrentAuthorizer.surjective CurrentAuthorizer.update_convs(1))
    then show ?thesis by (simp add: usable_def)
  next
    case False
    with res have "Fresh_AuthorizeToolInvocation (Some a) r w = (Inr d, w')"
      by (simp add: Current_AuthorizeToolInvocation_def)
    then show ?thesis by (rule fresh.decision_valid)
  qed
qed

section \<open>The cache stays bounded and never outlives a decision\<close>

text \<open>
  The representation invariant of the cache: one entry per key, no more entries than configured,
  and no entry usable beyond the expiry of its decision.
\<close>

definition cache_wf :: "int \<Rightarrow> entries \<Rightarrow> bool" where
  "cache_wf maximum es \<longleftrightarrow> distinct (map fst es) \<and> int (length es) \<le> maximum
     \<and> (\<forall>(k, e) \<in> set es. cd_until e \<le> ad_ExpiresAt (cd_decision e))"

lemma length_AList_update:
  "distinct (map fst es) \<Longrightarrow>
     length (AList.update k v es) = (if map_of es k = None then Suc (length es) else length es)"
  by (induction es) (auto split: if_splits simp: map_of_eq_None_iff image_iff)

lemma set_AList_update: "set (AList.update k v es) \<subseteq> insert (k, v) (set es)"
  by (induction es) auto

lemma cache_wf_delete: "cache_wf m es \<Longrightarrow> cache_wf m (AList.delete k es)"
proof -
  assume wf: "cache_wf m es"
  have "length (AList.delete k es) \<le> length es" by (simp add: AList.delete_eq)
  moreover have "set (AList.delete k es) \<subseteq> set es" by (auto simp: AList.delete_eq)
  ultimately show ?thesis using wf by (auto simp: cache_wf_def distinct_delete)
qed

lemma cache_wf_cached: "cache_wf m es \<Longrightarrow> cache_wf m (snd (cached key r now epoch checkpoint es))"
  by (auto simp: cached_def Let_def cache_wf_delete split: option.splits)

lemma cache_wf_update:
  assumes "cache_wf m es" and "cd_until e \<le> ad_ExpiresAt (cd_decision e)"
    and "map_of es k = None \<longrightarrow> int (length es) < m"
  shows "cache_wf m (AList.update k e es)"
  using assms set_AList_update [of k e es]
  by (auto simp: cache_wf_def distinct_update length_AList_update)

lemma store_cases:
  obtains "store a key d now es = es"
  | until where "store a key d now es = AList.update key \<lparr>cd_decision = d, cd_until = until\<rparr> es"
    "until \<le> ad_ExpiresAt d" "map_of es key = None \<longrightarrow> int (length es) < fc_MaxEntries a"
proof -
  have "store a key d now es = es
    \<or> (\<exists>until. store a key d now es = AList.update key \<lparr>cd_decision = d, cd_until = until\<rparr> es
         \<and> until \<le> ad_ExpiresAt d
         \<and> (map_of es key = None \<longrightarrow> int (length es) < fc_MaxEntries a))"
    by (auto simp: store_def Let_def cloneDecision_def not_le)
  then show ?thesis by (elim disjE exE conjE) (erule that(1), erule (2) that(2))
qed

lemma cache_wf_store:
  assumes "cache_wf (fc_MaxEntries a) es"
  shows "cache_wf (fc_MaxEntries a) (store a key d now es)"
proof (rule store_cases [of a key d now es])
  assume "store a key d now es = es"
  with assms show ?thesis by simp
next
  fix until
  assume upd: "store a key d now es = AList.update key \<lparr>cd_decision = d, cd_until = until\<rparr> es"
    and until: "until \<le> ad_ExpiresAt d"
    and room: "map_of es key = None \<longrightarrow> int (length es) < fc_MaxEntries a"
  show ?thesis unfolding upd by (rule cache_wf_update [OF assms _ room]) (simp add: until)
qed

lemma fresh_live_entries:
  assumes "fresh_live a key now r (w, es) = (res, w', es')"
  shows "es' = es \<or> (\<exists>d. es' = store a key d now es)"
  using assms unfolding fresh_live_def
  by (auto simp: Let_def split: prod.splits sum.splits option.splits if_splits)

lemma Fresh_entries:
  assumes "Fresh_AuthorizeToolInvocation (Some a) r (w, es) = (res, w', es')"
    and "cache_wf (fc_MaxEntries a) es"
  shows "cache_wf (fc_MaxEntries a) es'"
proof (cases "AuthorizationDecisionKey r")
  case (Inl e)
  with assms show ?thesis by (simp add: Fresh_AuthorizeToolInvocation_def)
next
  case (Inr key)
  let ?now = "fc_Clock a w"
  have live: "cache_wf (fc_MaxEntries a) es2"
    if "fresh_live a key ?now r (w1, es1) = (res, w', es2)" "cache_wf (fc_MaxEntries a) es1"
    for w1 es1 es2
    using fresh_live_entries [OF that(1)] that(2) cache_wf_store by blast
  have hit: "cache_wf (fc_MaxEntries a) es1"
    if "cached key r ?now epoch checkpoint es = (found, es1)" for epoch checkpoint found es1
    using cache_wf_cached [OF assms(2), of key r ?now epoch checkpoint] that by simp
  from assms(1) Inr assms(2) hit live show ?thesis
    by (auto simp: Fresh_AuthorizeToolInvocation_def Let_def
        split: if_splits option.splits prod.splits sum.splits)
qed

section \<open>Cache keys\<close>

definition request_utf8 :: "AuthorizationRequest \<Rightarrow> bool" where
  "request_utf8 r \<longleftrightarrow> list_all utf8_valid
     ([ar_RequestID r, ar_TenantID r, ar_Subject r, ar_Actor r, ar_AgentID r, ar_AgentVersion r,
       ar_RunID r, ar_WorkloadID r, ar_ToolID r, ar_ToolVersion r, ar_Risk r, ar_SideEffect r,
       ar_ApprovalMode r, ar_RetryMode r, ar_ArgumentProfile r, ar_ConnectorType r, ar_Operation r,
       ar_PolicyProfile r, ar_PolicyVersion r] @ ar_Resources r @ ar_Actions r)"

lemma json_strings_inject [simp]: "json_strings a = json_strings b \<longleftrightarrow> a = b"
  by (auto simp: json_strings_def inj_def inj_map_eq_map)

lemma json_digest_inject [simp]: "json_digest a = json_digest b \<longleftrightarrow> a = b"
proof -
  have "inj (\<lambda>b :: byte. JNumber (Itoa (uint b)))"
    by (auto simp: inj_def word_uint_eq_iff)
  then show ?thesis by (simp add: json_digest_def inj_map_eq_map)
qed

lemma json_strings_wf: "json_wf (json_strings xs) \<longleftrightarrow> list_all utf8_valid xs"
  by (simp add: json_strings_def list_all_iff)

lemma json_depth_leaves:
  "json_depth (json_strings xs) \<le> 1" "json_depth (json_digest d) \<le> 1"
  by (auto simp: json_strings_def json_digest_def image_constant_conv intro!: Max.boundedI)

lemma json_request_wf:
  assumes "request_utf8 r"
  shows "json_wf (json_request (r\<lparr>ar_RequestID := []\<rparr>))"
proof -
  have keys: "utf8_valid s" if "\<forall>c \<in> set s. code c < 0x80" for s
    using that by (induction s) (auto simp: utf8_valid.simps [of "_ # _"] utf8_valid.simps [of "[]"])
  show ?thesis
    using assms
    by (simp add: json_request_def request_utf8_def json_strings_wf json_digest_def keys code_def
        list_all_iff utf8_valid.simps [of "[]"] json_wf_Itoa [unfolded json_wf.simps])
qed

lemma json_request_depth: "json_depth (json_request r) \<le> max_depth"
proof -
  have "json_depth (json_request r) \<le> Suc 1"
    using json_depth_leaves by (auto simp: json_request_def)
  then show ?thesis by (simp add: max_depth_def)
qed

lemma json_request_inject:
  "json_request a = json_request b \<longleftrightarrow> a = (b :: AuthorizationRequest)"
  by (auto simp: json_request_def intro!: AuthorizationRequest.equality)

lemma decision_key_preimage_inject:
  assumes "request_utf8 a" "request_utf8 b"
    and "decision_key_preimage a = decision_key_preimage b"
  shows "a\<lparr>ar_RequestID := []\<rparr> = b\<lparr>ar_RequestID := []\<rparr>"
  using assms json_print_inject [OF json_request_wf json_request_wf json_request_depth json_request_depth]
  unfolding decision_key_preimage_def json_request_inject by blast

section \<open>Narrowing only narrows\<close>

lemma narrowSet_result:
  assumes "narrowSet ceiling restriction = Inr s"
  shows "set s \<subseteq> set ceiling" "restriction \<noteq> [] \<Longrightarrow> set s \<subseteq> set restriction"
    "validSet ceiling \<Longrightarrow> validSet s" "ceiling \<noteq> [] \<Longrightarrow> s \<noteq> []"
  using assms by (auto simp: narrowSet_def validSet_filter Let_def split: if_splits)

text \<open>A limit of zero stands for no limit.\<close>

definition within :: "int \<Rightarrow> int \<Rightarrow> bool" where
  "within limit x \<longleftrightarrow> limit = 0 \<or> 0 < x \<and> x \<le> limit"

lemma narrowInt64_within:
  "0 \<le> c \<Longrightarrow> 0 \<le> r \<Longrightarrow> within c (narrowInt64 c r) \<and> within r (narrowInt64 c r) \<and> 0 \<le> narrowInt64 c r"
  by (auto simp: narrowInt64_def within_def)

lemma narrowDuration_within:
  "0 \<le> c \<Longrightarrow> 0 \<le> r \<Longrightarrow> within c (narrowDuration c r) \<and> within r (narrowDuration c r)
     \<and> 0 \<le> narrowDuration c r"
  by (auto simp: narrowDuration_def within_def)

definition pointwise_le :: "(string \<times> int) list \<Rightarrow> (string \<times> int) list \<Rightarrow> bool" where
  "pointwise_le xs ys \<longleftrightarrow> (\<forall>k v. map_of ys k = Some v \<longrightarrow> (\<exists>u. map_of xs k = Some u \<and> u \<le> v))"

lemma narrowArguments_other:
  "narrowArguments c rs args = Inr out \<Longrightarrow> k \<notin> fst ` set rs \<Longrightarrow> map_of out k = map_of args k"
  by (induction c rs args rule: narrowArguments.induct)
     (auto simp: update_conv' split: option.splits if_splits)

lemma narrowArguments_result:
  assumes "narrowArguments c rs args = Inr out" and "distinct (map fst rs)"
    and "pointwise_le args c" and "dom (map_of args) = dom (map_of c)"
  shows "pointwise_le out c \<and> (\<forall>(k, m) \<in> set rs. \<exists>u. map_of out k = Some u \<and> u \<le> m)
    \<and> dom (map_of out) = dom (map_of c)"
  using assms
proof (induction c rs args rule: narrowArguments.induct)
  case (2 c name maximum rest args)
  then obtain m where m: "map_of c name = Some m" by (auto split: option.splits)
  define args' where "args' = (if maximum < m then AList.update name maximum args else args)"
  from 2(2) m have out: "narrowArguments c rest args' = Inr out" by (simp add: args'_def)
  from 2(4) m obtain u where u: "map_of args name = Some u" "u \<le> m"
    by (auto simp: pointwise_le_def)
  have le: "pointwise_le args' c"
    using 2(4) m unfolding pointwise_le_def args'_def by (auto simp: update_conv')
  have dom: "dom (map_of args') = dom (map_of c)"
    using 2(5) m by (auto simp: args'_def update_conv')
  have IH: "pointwise_le out c \<and> (\<forall>(k, m) \<in> set rest. \<exists>u. map_of out k = Some u \<and> u \<le> m)
      \<and> dom (map_of out) = dom (map_of c)"
    using 2(1) [OF m] out le dom 2(3) by (simp add: args'_def)
  have "map_of out name = map_of args' name"
    using narrowArguments_other [OF out] 2(3) by simp
  moreover have "\<exists>v. map_of args' name = Some v \<and> v \<le> maximum"
    using u by (auto simp: args'_def update_conv')
  ultimately show ?case using IH by auto
qed auto

definition narrows_to :: "AuthorizationConstraints \<Rightarrow> AuthorizationConstraints \<Rightarrow> bool" where
  "narrows_to limit c \<longleftrightarrow>
     (ac_Repositories limit \<noteq> [] \<longrightarrow> set (ac_Repositories c) \<subseteq> set (ac_Repositories limit))
     \<and> (ac_Resources limit \<noteq> [] \<longrightarrow> set (ac_Resources c) \<subseteq> set (ac_Resources limit))
     \<and> (ac_Actions limit \<noteq> [] \<longrightarrow> set (ac_Actions c) \<subseteq> set (ac_Actions limit))
     \<and> pointwise_le (ac_ArgumentMax c) (ac_ArgumentMax limit)
     \<and> within (ac_MaxResultBytes limit) (ac_MaxResultBytes c)
     \<and> within (ac_MaxDuration limit) (ac_MaxDuration c)"

lemma Constraints_Validate_None:
  assumes "AuthorizationConstraints_Validate c = None"
  shows "0 \<le> ac_MaxResultBytes c" "0 \<le> ac_MaxDuration c" "validSet (ac_Repositories c)"
    "validSet (ac_Resources c)" "validSet (ac_Actions c)"
  using assms by (simp_all add: AuthorizationConstraints_Validate_def)

lemma Narrow_parts:
  assumes "NarrowAuthorizationConstraints d ceiling = Inr c"
  shows "AuthorizationConstraints_Validate ceiling = None"
    "AuthorizationConstraints_Validate (ad_Constraints d) = None"
    "ad_Outcome d = AuthorizationAllow"
    "narrowSet (ac_Repositories ceiling) (ac_Repositories (ad_Constraints d)) = Inr (ac_Repositories c)"
    "narrowSet (ac_Resources ceiling) (ac_Resources (ad_Constraints d)) = Inr (ac_Resources c)"
    "narrowSet (ac_Actions ceiling) (ac_Actions (ad_Constraints d)) = Inr (ac_Actions c)"
    "narrowArguments (ac_ArgumentMax ceiling) (ac_ArgumentMax (ad_Constraints d))
       (ac_ArgumentMax ceiling) = Inr (ac_ArgumentMax c)"
    "ac_MaxResultBytes c = narrowInt64 (ac_MaxResultBytes ceiling) (ac_MaxResultBytes (ad_Constraints d))"
    "ac_MaxDuration c = narrowDuration (ac_MaxDuration ceiling) (ac_MaxDuration (ad_Constraints d))"
  using assms by (auto simp: NarrowAuthorizationConstraints_def Let_def split: if_splits)

lemma Narrow_narrows:
  assumes narrow: "NarrowAuthorizationConstraints d ceiling = Inr c"
    and keys: "distinct (map fst (ac_ArgumentMax (ad_Constraints d)))"
  shows "narrows_to ceiling c" "narrows_to (ad_Constraints d) c"
proof -
  note parts = Narrow_parts [OF narrow]
  note wf = Constraints_Validate_None [OF parts(1)] Constraints_Validate_None [OF parts(2)]
  have args: "pointwise_le (ac_ArgumentMax c) (ac_ArgumentMax ceiling)"
    "\<forall>(k, m) \<in> set (ac_ArgumentMax (ad_Constraints d)). \<exists>u. map_of (ac_ArgumentMax c) k = Some u \<and> u \<le> m"
    using narrowArguments_result [OF parts(7) keys] by (auto simp: pointwise_le_def)
  have "pointwise_le (ac_ArgumentMax c) (ac_ArgumentMax (ad_Constraints d))"
    using args(2) map_of_SomeD by (fastforce simp: pointwise_le_def)
  moreover note narrowSet_result(1,2) [OF parts(4)] narrowSet_result(1,2) [OF parts(5)]
    narrowSet_result(1,2) [OF parts(6)] narrowInt64_within narrowDuration_within
  ultimately show "narrows_to ceiling c" "narrows_to (ad_Constraints d) c"
    using wf args(1) parts(8,9) by (simp_all add: narrows_to_def)
qed

section \<open>The executor as a trace of events\<close>

datatype exec_event = EvAuthorize | EvResolve | EvExecute | EvRelease

text \<open>The callbacks of the executor, each also appending its event to a trace.\<close>

definition traced_executor ::
  "('w, 'lease) AuthorizedExecutor \<Rightarrow> ('w \<times> exec_event list, 'lease) AuthorizedExecutor" where
  "traced_executor e =
     \<lparr>ae_authorizer = (\<lambda>r (w, tr). case ae_authorizer e r w of (res, w') \<Rightarrow> (res, w', tr @ [EvAuthorize])),
      ae_Release = (\<lambda>l (w, tr). (ae_Release e l w, tr @ [EvRelease]))\<rparr>"

definition traced_resolve ::
  "('w, 'lease) CredentialResolution \<Rightarrow> ('w \<times> exec_event list, 'lease) CredentialResolution" where
  "traced_resolve f d st = (case st of (w, tr) \<Rightarrow> case f d w of (res, w') \<Rightarrow> (res, w', tr @ [EvResolve]))"

definition traced_execute ::
  "('w, 'lease) ConnectorExecution \<Rightarrow> ('w \<times> exec_event list, 'lease) ConnectorExecution" where
  "traced_execute f d l st =
     (case st of (w, tr) \<Rightarrow> case f d l w of (res, w') \<Rightarrow> (res, w', tr @ [EvExecute]))"

lemmas traced_defs = traced_executor_def traced_resolve_def traced_execute_def

end
