(* ===== verification/Authorization_Props.thy ===== *)
theory Authorization_Props
  imports Authorization_App
begin

text \<open>
  The properties of the authorization layer, over the definitions and lemmas of
  \<open>Authorization_App\<close>, with concrete requests and decisions for their instances.
\<close>

section \<open>Sample requests and decisions\<close>

definition sample_request :: AuthorizationRequest where
  "sample_request =
     \<lparr>ar_RequestID = ''r'', ar_TenantID = ''t'', ar_Subject = ''s'', ar_Actor = [],
      ar_AgentID = ''a'', ar_AgentVersion = ''1'', ar_RunID = ''u'', ar_WorkloadID = ''w'',
      ar_ToolID = ''x.y'', ar_ToolVersion = ''1.0.0'', ar_Risk = ''read'', ar_SideEffect = ''none'',
      ar_ApprovalMode = ''never'', ar_RetryMode = ''safe'', ar_ArgumentProfile = ''p'',
      ar_ConnectorType = ''mock'', ar_Operation = ''o'', ar_ArgumentDigest = replicate 32 0,
      ar_ResourceDigest = replicate 32 0, ar_Resources = [''a'', ''b''], ar_Actions = [''read''],
      ar_RequestedDeadline = Second, ar_PolicyProfile = ''d'', ar_PolicyVersion = ''1''\<rparr>"

definition no_constraints :: AuthorizationConstraints where
  "no_constraints = \<lparr>ac_Repositories = [], ac_Resources = [], ac_Actions = [], ac_ArgumentMax = [],
     ac_MaxResultBytes = 0, ac_MaxDuration = 0\<rparr>"

definition sample_decision :: AuthorizationDecision where
  "sample_decision =
     \<lparr>ad_DecisionID = ''d'', ad_RequestID = ''r'', ad_ContextDigest = ''c'', ad_PolicyID = ''p'',
      ad_PolicyVersion = ''1'', ad_Outcome = AuthorizationAllow, ad_Reasons = [ReasonAllowed],
      ad_IssuedAt = 100, ad_NotBefore = 100, ad_ExpiresAt = 200, ad_RevocationEpoch = 7,
      ad_RevocationCheckpoint = ''k'',
      ad_Constraints = no_constraints\<lparr>ac_Resources := [''b'', ''z''], ac_MaxResultBytes := 10\<rparr>,
      ad_Approval = \<lparr>apr_Required = False, apr_Mode = []\<rparr>, ad_EvidenceRef = ''e''\<rparr>"

lemmas request_eval =
  AuthorizationRequest_Validate_def request_required_def validAuthorizationText_def validSet_def
  validSet_from_Cons trim_eval duration_defs

lemma sample_request_valid: "AuthorizationRequest_Validate sample_request = None"
  by (simp add: sample_request_def request_eval)

lemma sample_decision_valid: "ValidateFor sample_decision sample_request = None"
  unfolding ValidateFor_def sample_request_valid
  by (simp add: sample_decision_def no_constraints_def sample_request_def
      AuthorizationConstraints_Validate_def request_eval IsZero_def reason_defs
      AuthorizationReason_Valid_def containsReason_def)

text \<open>A fixed world for the instances: the clock shows 150 and nothing is revoked.\<close>

definition sample_revocations :: "unit RevocationState" where
  "sample_revocations tenant profile w = (Inr (7, ''k''), w)"

definition sample_next :: "unit Authorizer" where
  "sample_next r w = (Inr sample_decision, w)"

definition sample_fresh :: "unit FreshAuthorizer" where
  "sample_fresh = \<lparr>fc_AllowTTL = 10, fc_DenyTTL = 0, fc_MaxEntries = 1, fc_Clock = (\<lambda>_. 150),
     fc_Revocations = Some sample_revocations, fa_next = sample_next\<rparr>"

lemma sample_fresh_decision:
  "\<exists>w es. Fresh_AuthorizeToolInvocation (Some sample_fresh) sample_request ((), [])
     = (Inr sample_decision, w, es)"
proof -
  have "validateFreshDecision sample_decision sample_request 150 = None"
    unfolding validateFreshDecision_iff usable_def sample_decision_valid
    by (simp add: sample_decision_def)
  moreover have "matchesRevocation sample_decision 7 ''k''"
    by (simp add: matchesRevocation_def sample_decision_def)
  ultimately show ?thesis
    by (simp add: Fresh_AuthorizeToolInvocation_def AuthorizationDecisionKey_def
        sample_request_valid sample_fresh_def cached_def sample_revocations_def fresh_live_def
        sample_next_def cloneDecision_def)
qed

section \<open>Properties\<close>



text \<open>
  C17. A decision for a configured high-risk write never comes from the regular, cached path: the
  result is that of the live authorizer, asked after a revocation checkpoint was observed, is in
  force when it returns, is no older than the configured age and is not superseded by that
  checkpoint; replacing the regular authorizer changes nothing.
\<close>

theorem high_risk_writes_are_live:
  assumes "Current_AuthorizeToolInvocation (Some a) r w = (Inr d, w')"
    and "\<lparr>hrw_Risk = ar_Risk r, hrw_SideEffect = ar_SideEffect r\<rparr> \<in> set (ca_highRiskWrites a)"
    and "is_int64 (ca_maxDecisionAge a)" and "ca_maxDecisionAge a < max_int64"
  shows "(\<exists>epoch checkpoint w1.
      ca_revocations a (ar_TenantID r) (ar_PolicyProfile r) w = (Inr (epoch, checkpoint), w1)
      \<and> ca_live a r w1 = (Inr d, w') \<and> matchesRevocation d epoch checkpoint)
    \<and> usable d r (ca_clock a w')
    \<and> ca_clock a w' - ad_IssuedAt d \<le> ca_maxDecisionAge a
    \<and> Current_AuthorizeToolInvocation (Some (a\<lparr>ca_regular := other\<rparr>)) r w = (Inr d, w')"
proof -
  from assms(1,2) obtain epoch checkpoint w1 where live:
    "ca_revocations a (ar_TenantID r) (ar_PolicyProfile r) w = (Inr (epoch, checkpoint), w1)"
    "ca_live a r w1 = (Inr d, w')" "usable d r (ca_clock a w')"
    "matchesRevocation d epoch checkpoint"
    "time_Sub (ca_clock a w') (ad_IssuedAt d) \<le> ca_maxDecisionAge a"
    by (rule Current_live_result)
  moreover from live(3) have "validateFreshDecision d r (ca_clock a w') = None"
    by (simp add: validateFreshDecision_iff)
  ultimately have "Current_AuthorizeToolInvocation (Some (a\<lparr>ca_regular := other\<rparr>)) r w = (Inr d, w')"
    using assms(2) by (simp add: Current_AuthorizeToolInvocation_def cloneDecision_def)
  with live assms(3,4) show ?thesis by (auto simp: time_Sub_le_iff)
qed

definition sample_current :: "unit CurrentAuthorizer" where
  "sample_current = \<lparr>ca_regular = sample_next, ca_live = sample_next,
     ca_highRiskWrites = [\<lparr>hrw_Risk = ''read'', hrw_SideEffect = ''none''\<rparr>],
     ca_maxDecisionAge = 60, ca_clock = (\<lambda>_. 150), ca_revocations = sample_revocations\<rparr>"

lemma sample_current_decision:
  "Current_AuthorizeToolInvocation (Some sample_current) sample_request () = (Inr sample_decision, ())"
proof -
  have "validateFreshDecision sample_decision sample_request 150 = None"
    unfolding validateFreshDecision_iff usable_def sample_decision_valid
    by (simp add: sample_decision_def)
  then show ?thesis
    by (simp add: Current_AuthorizeToolInvocation_def sample_current_def sample_revocations_def
        sample_next_def cloneDecision_def)
      (simp add: sample_request_def sample_decision_def matchesRevocation_def time_Sub_def
        min_int64_def max_int64_def)
qed

theorem high_risk_writes_are_live_witness:
  "(\<exists>epoch checkpoint w1.
      ca_revocations sample_current (ar_TenantID sample_request) (ar_PolicyProfile sample_request) ()
        = (Inr (epoch, checkpoint), w1)
      \<and> ca_live sample_current sample_request w1 = (Inr sample_decision, ())
      \<and> matchesRevocation sample_decision epoch checkpoint)
    \<and> usable sample_decision sample_request (ca_clock sample_current ())
    \<and> ca_clock sample_current () - ad_IssuedAt sample_decision \<le> ca_maxDecisionAge sample_current
    \<and> Current_AuthorizeToolInvocation
        (Some (sample_current\<lparr>ca_regular := \<lambda>r w. (Inl (ErrNew []), w)\<rparr>)) sample_request ()
      = (Inr sample_decision, ())"
  by (rule high_risk_writes_are_live [OF sample_current_decision])
    (simp_all add: sample_current_def sample_request_def is_int64_def min_int64_def max_int64_def)


definition sample_ceiling :: ConstraintCeiling where
  "sample_ceiling = no_constraints\<lparr>ac_Resources := [''a'', ''b''], ac_MaxResultBytes := 100\<rparr>"

lemma sample_narrow: "NarrowAuthorizationConstraints sample_decision sample_ceiling
  = Inr (no_constraints\<lparr>ac_Resources := [''b''], ac_MaxResultBytes := 10\<rparr>)"
  by (simp add: NarrowAuthorizationConstraints_def sample_decision_def sample_ceiling_def
      no_constraints_def AuthorizationConstraints_Validate_def request_eval reason_defs
      narrowSet_def narrowInt64_def narrowDuration_def)


text \<open>
  The executor's order of effects, for every authorizer, resolver and connector: it always
  authorizes first; credentials are resolved only for a decision that validates for the request
  and allows it; the connector runs only with a lease; and a lease is released exactly once, after
  the connector, whatever the connector returned.
\<close>

theorem executor_event_order:
  assumes "Executor_Execute (Some (traced_executor e)) r (Some (traced_resolve resolve))
      (Some (traced_execute execute)) (w, []) = (err, w', trace)"
  shows "trace \<in> {[EvAuthorize], [EvAuthorize, EvResolve],
                  [EvAuthorize, EvResolve, EvExecute, EvRelease]}
    \<and> (EvResolve \<in> set trace \<longrightarrow> (\<exists>d w1. ae_authorizer e r w = (Inr d, w1)
          \<and> ValidateFor d r = None \<and> ad_Outcome d = AuthorizationAllow))
    \<and> (EvExecute \<in> set trace \<longrightarrow> (\<exists>d w1 lease w2. ae_authorizer e r w = (Inr d, w1)
          \<and> resolve d w1 = (Inr (Some lease), w2)))"
  using assms
  by (auto simp: Executor_Execute_def traced_defs cloneDecision_def
      split: prod.splits sum.splits option.splits if_splits)

definition sample_executor :: "(unit, unit) AuthorizedExecutor" where
  "sample_executor = \<lparr>ae_authorizer = sample_next, ae_Release = (\<lambda>_ w. w)\<rparr>"

lemma sample_execution:
  "Executor_Execute (Some (traced_executor sample_executor)) sample_request
     (Some (traced_resolve (\<lambda>d w. (Inr (Some ()), w)))) (Some (traced_execute (\<lambda>d l w. (None, w))))
     ((), []) = (None, (), [EvAuthorize, EvResolve, EvExecute, EvRelease])"
  by (simp add: Executor_Execute_def traced_defs sample_executor_def sample_next_def
      sample_decision_valid cloneDecision_def) (simp add: sample_decision_def)

theorem executor_event_order_witness:
  "(\<exists>d w1. ae_authorizer sample_executor sample_request () = (Inr d, w1)
      \<and> ValidateFor d sample_request = None \<and> ad_Outcome d = AuthorizationAllow)
    \<and> (\<exists>d w1 lease w2. ae_authorizer sample_executor sample_request () = (Inr d, w1)
      \<and> (Inr (Some ()), w1) = (Inr (Some lease) :: unit option result, w2))"
  using executor_event_order [OF sample_execution] by simp





text \<open>
  A restriction on a dimension the local ceiling leaves empty is dropped: narrowing succeeds
  with the empty list, which everywhere stands for no restriction.
\<close>

theorem empty_ceiling_drops_restriction:
  "narrowSet [] restriction = Inr []"
  by (simp add: narrowSet_def)

end
