(* ===== verification/Canonical_JSON.thy ===== *)
theory Canonical_JSON
  imports Domain_Primitives Go_JSON "HOL-Library.Log_Nat"
begin

text \<open>
  The \<open>tg-cjson-v1\<close> profile (\<open>internal/canonicaljson/canonicaljson.go\<close>): a strict parser that
  enforces size, depth and member limits, rejects duplicate members, unpaired surrogates and
  numbers that are not safely interoperable, and the domain-separated digests of canonical texts.
  The printer of RFC 8785 is the library \<open>jcs\<close>, a parameter. Numbers are \<open>float64\<close> values,
  represented by the rational they denote (the sign of zero, which RFC 8785 does not print, is not
  kept). The texts of decoder errors are not modelled; their class is.
\<close>

section \<open>Constants\<close>

definition Profile :: string where "Profile = ''tg-cjson-v1''"

definition ArgumentDomain :: string where
  "ArgumentDomain = ''ThinkPixelTG:arguments:tg-cjson-v1'' @ [CHR 0x00]"

definition ResourceDomain :: string where
  "ResourceDomain = ''ThinkPixelTG:resource:tg-cjson-v1'' @ [CHR 0x00]"

definition maxSafeInteger :: int where "maxSafeInteger = 2 ^ 53 - 1"

definition ErrInvalidJSON :: goerror where
  "ErrInvalidJSON = ErrVar ''canonicaljson.ErrInvalidJSON'' ''invalid JSON''"
definition ErrLimit :: goerror where
  "ErrLimit = ErrVar ''canonicaljson.ErrLimit'' ''canonical JSON limit exceeded''"
definition ErrUnsafeNumber :: goerror where
  "ErrUnsafeNumber = ErrVar ''canonicaljson.ErrUnsafeNumber''
     ''JSON number is not safely interoperable''"
definition ErrSchema :: goerror where
  "ErrSchema = ErrVar ''canonicaljson.ErrSchema'' ''JSON schema validation failed''"

text \<open>\<open>fmt.Errorf("%w: detail", err)\<close>.\<close>

definition with_detail :: "goerror \<Rightarrow> string \<Rightarrow> goerror" where
  "with_detail err detail =
     ErrTyped ''*fmt.wrapError'' [] (Error err @ '': '' @ detail) (Some err)"

record Limits =
  lim_MaxBytes :: int
  lim_MaxDepth :: int
  lim_MaxMembers :: int
  lim_MaxStringBytes :: int
  lim_MaxNumberBytes :: int

definition DefaultLimits :: Limits where
  "DefaultLimits = \<lparr>lim_MaxBytes = 2 ^ 20, lim_MaxDepth = 64, lim_MaxMembers = 10000,
     lim_MaxStringBytes = 2 ^ 20, lim_MaxNumberBytes = 128\<rparr>"

definition withDefaults :: "Limits \<Rightarrow> Limits" where
  "withDefaults l =
     \<lparr>lim_MaxBytes = (if lim_MaxBytes l \<le> 0 then lim_MaxBytes DefaultLimits else lim_MaxBytes l),
      lim_MaxDepth = (if lim_MaxDepth l \<le> 0 then lim_MaxDepth DefaultLimits else lim_MaxDepth l),
      lim_MaxMembers =
        (if lim_MaxMembers l \<le> 0 then lim_MaxMembers DefaultLimits else lim_MaxMembers l),
      lim_MaxStringBytes =
        (if lim_MaxStringBytes l \<le> 0 then lim_MaxStringBytes DefaultLimits else lim_MaxStringBytes l),
      lim_MaxNumberBytes =
        (if lim_MaxNumberBytes l \<le> 0 then lim_MaxNumberBytes DefaultLimits else lim_MaxNumberBytes l)\<rparr>"

definition zero_Limits :: Limits where
  "zero_Limits = \<lparr>lim_MaxBytes = 0, lim_MaxDepth = 0, lim_MaxMembers = 0, lim_MaxStringBytes = 0,
     lim_MaxNumberBytes = 0\<rparr>"

lemma withDefaults_pos:
  "0 < lim_MaxBytes (withDefaults l)" "0 < lim_MaxDepth (withDefaults l)"
  "0 < lim_MaxMembers (withDefaults l)" "0 < lim_MaxStringBytes (withDefaults l)"
  "0 < lim_MaxNumberBytes (withDefaults l)"
  by (simp_all add: withDefaults_def DefaultLimits_def)

section \<open>Numbers\<close>

text \<open>
  \<open>big.Rat.SetString\<close> on a JSON number: sign, digits, fraction digits and exponent. Exponents that
  do not fit \<open>int64\<close> or whose decimal scale exceeds a million are refused, the latter unless the
  mantissa is zero.
\<close>

record decimal_number =
  dn_negative :: bool
  dn_mantissa :: nat
  dn_fraction :: nat
  dn_exponent :: int

definition split_number :: "string \<Rightarrow> decimal_number" where
  "split_number token =
     (let negative = HasPrefix token ''-'';
          digits = (if negative then tl token else token);
          whole = takeWhile is_digit digits;
          after = dropWhile is_digit digits;
          fraction = (if HasPrefix after ''.'' then takeWhile is_digit (tl after) else []);
          tail = (if HasPrefix after ''.'' then dropWhile is_digit (tl after) else after);
          exponent = (if tail = [] then 0
            else let body = tl tail in
              if HasPrefix body ''-'' then - int (parse_decimal (tl body))
              else if HasPrefix body ''+'' then int (parse_decimal (tl body))
              else int (parse_decimal body))
      in \<lparr>dn_negative = negative, dn_mantissa = parse_decimal (whole @ fraction),
          dn_fraction = length fraction, dn_exponent = exponent\<rparr>)"

definition pow10 :: "int \<Rightarrow> rat" where
  "pow10 k = (if k \<ge> 0 then 10 ^ nat k else 1 / 10 ^ nat (- k))"

definition Rat_SetString :: "string \<Rightarrow> rat option" where
  "Rat_SetString token =
     (let n = split_number token; scale = dn_exponent n - int (dn_fraction n) in
      if \<not> is_int64 (dn_exponent n) then None
      else if dn_mantissa n = 0 then Some 0
      else if \<bar>scale\<bar> > 1000000 then None
      else Some ((if dn_negative n then - 1 else 1) * of_nat (dn_mantissa n) * pow10 scale))"

text \<open>
  \<open>strconv.ParseFloat(token, 64)\<close>: the nearest binary64 value, ties to even; \<^const>\<open>None\<close> where it
  answers a range error.
\<close>

definition pow2 :: "int \<Rightarrow> rat" where
  "pow2 k = (if k \<ge> 0 then 2 ^ nat k else 1 / 2 ^ nat (- k))"

definition floor_log2 :: "rat \<Rightarrow> int" where
  "floor_log2 a =
     (let (n, d) = quotient_of a; k = bitlen n - bitlen d in
      if pow2 k \<le> a then k else k - 1)"

definition round_half_even :: "rat \<Rightarrow> int" where
  "round_half_even a =
     (let f = \<lfloor>a\<rfloor>; r = a - of_int f in
      if r < 1 / 2 then f else if r > 1 / 2 then f + 1 else if even f then f else f + 1)"

definition binary64 :: "rat \<Rightarrow> rat option" where
  "binary64 q =
     (if q = 0 then Some 0
      else let e = max (- 1074) (floor_log2 \<bar>q\<bar> - 52);
               v = of_int (round_half_even (\<bar>q\<bar> / pow2 e)) * pow2 e in
           if v \<ge> pow2 1024 then None else Some (sgn q * v))"

definition ParseFloat :: "string \<Rightarrow> rat option" where
  "ParseFloat token =
     (let n = split_number token;
          q = (if dn_negative n then - 1 else 1) * of_nat (dn_mantissa n)
              * pow10 (dn_exponent n - int (dn_fraction n)) in
      binary64 q)"

definition parse_number :: "Limits \<Rightarrow> string \<Rightarrow> rat result" where
  "parse_number limits token =
     (if int (length token) > lim_MaxNumberBytes limits
      then Inl (with_detail ErrLimit ''number bytes'')
      else case Rat_SetString token of
        None \<Rightarrow> Inl (with_detail ErrInvalidJSON ''malformed number'')
      | Some rational \<Rightarrow>
          if snd (quotient_of rational) = 1 \<and> \<bar>fst (quotient_of rational)\<bar> > maxSafeInteger
          then Inl (with_detail ErrUnsafeNumber ''integer exceeds IEEE-754 safe range'')
          else case ParseFloat token of
            None \<Rightarrow> Inl (with_detail ErrUnsafeNumber
                      ''number cannot be represented as finite binary64'')
          | Some val \<Rightarrow>
              if val = 0 \<and> rational \<noteq> 0
              then Inl (with_detail ErrUnsafeNumber
                     ''number cannot be represented as finite binary64'')
              else Inr val)"

section \<open>Surrogates\<close>

definition hexQuad :: "string \<Rightarrow> nat option" where
  "hexQuad s = hex4 s"

text \<open>
  \<open>surrogates_out\<close> is the outer loop, between strings; \<open>surrogates_in\<close> the inner one, inside a string.
\<close>

function (sequential) surrogates_out :: "string \<Rightarrow> goerror option"
  and surrogates_in :: "string \<Rightarrow> goerror option" where
  "surrogates_out [] = None"
| "surrogates_out (c # s) = (if c = CHR 0x22 then surrogates_in s else surrogates_out s)"
| "surrogates_in [] = None"
| "surrogates_in (c # s) =
     (if c = CHR 0x22 then surrogates_out s
      else if c \<noteq> CHR 0x5C then surrogates_in s
      else case s of
        [] \<Rightarrow> None
      | d # t \<Rightarrow>
          if d \<noteq> CHR ''u'' then surrogates_in t
          else case hexQuad t of
            None \<Rightarrow> surrogates_out t
          | Some first \<Rightarrow>
              let u = drop 4 t in
              if 0xD800 \<le> first \<and> first \<le> 0xDBFF then
                (if length u < 6 \<or> u ! 0 \<noteq> CHR 0x5C \<or> u ! 1 \<noteq> CHR ''u''
                 then Some (with_detail ErrInvalidJSON ''unpaired high surrogate'')
                 else case hexQuad (drop 2 u) of
                   None \<Rightarrow> Some (with_detail ErrInvalidJSON ''unpaired high surrogate'')
                 | Some second \<Rightarrow>
                     if second < 0xDC00 \<or> second > 0xDFFF
                     then Some (with_detail ErrInvalidJSON ''unpaired high surrogate'')
                     else surrogates_in (drop 6 u))
              else if 0xDC00 \<le> first \<and> first \<le> 0xDFFF
              then Some (with_detail ErrInvalidJSON ''unpaired low surrogate'')
              else surrogates_in u)"
  by pat_completeness auto
termination
  by (relation "measure (case_sum length length)") auto

definition validateSurrogates :: "string \<Rightarrow> goerror option" where
  "validateSurrogates input = surrogates_out input"

section \<open>Parsing\<close>

datatype cvalue =
    CNull
  | CBool bool
  | CNumber rat
  | CString string
  | CArray "cvalue list"
  | CObject "(string \<times> cvalue) list"

definition invalid_json :: "string \<Rightarrow> goerror" where
  "invalid_json detail = with_detail ErrInvalidJSON detail"

text \<open>The tokens that are values.\<close>

definition canon_atom :: "Limits \<Rightarrow> json \<Rightarrow> cvalue result" where
  "canon_atom l token =
     (case token of
        JNull \<Rightarrow> Inr CNull
      | JBool b \<Rightarrow> Inr (CBool b)
      | JString x \<Rightarrow>
          if int (length x) > lim_MaxStringBytes l then Inl (with_detail ErrLimit ''string bytes'')
          else Inr (CString x)
      | JNumber x \<Rightarrow> bind_result (parse_number l x) (\<lambda>q. Inr (CNumber q))
      | _ \<Rightarrow> Inl (invalid_json ''unexpected token''))"

text \<open>\<open>Decoder.More\<close>: something follows that does not close an array or object.\<close>

definition More :: "string \<Rightarrow> bool" where
  "More s \<longleftrightarrow>
     (case skip_ws s of [] \<Rightarrow> False | c # t \<Rightarrow> c \<noteq> CHR '']'' \<and> c \<noteq> CHR ''}'')"

text \<open>
  \<open>parseState.value\<close>. The state is the number of members seen and the input left to the token
  decoder, which reads the punctuation between tokens. \<open>canon_elems\<close> and \<open>canon_members\<close> are the loops
  over a non-empty array and object; \<open>element\<close> reads one value, \<open>before\<close> are the keys already in the
  map. Each recursion has a fuel.
\<close>

type_synonym 'a parser = "int \<Rightarrow> string \<Rightarrow> ('a \<times> int \<times> string) result"

fun canon_elems :: "cvalue parser \<Rightarrow> nat \<Rightarrow> cvalue list parser" where
  "canon_elems element 0 m s = Inl (invalid_json ''fuel'')"
| "canon_elems element (Suc n) m s =
     bind_result (element m s) (\<lambda>(v, m', t).
       case expect CHR '']'' t of
         Some u \<Rightarrow> Inr ([v], m', u)
       | None \<Rightarrow> (case expect CHR '','' t of
           None \<Rightarrow> Inl (invalid_json ''unterminated array'')
         | Some u \<Rightarrow> bind_result (canon_elems element n m' u)
             (\<lambda>(vs, m'', w). Inr (v # vs, m'', w))))"

definition canon_key :: "Limits \<Rightarrow> string list \<Rightarrow> string parser" where
  "canon_key l before m s =
     (case expect CHR 0x22 s of
        None \<Rightarrow> Inl (invalid_json ''object key'')
      | Some t \<Rightarrow> (case parse_str t of
          None \<Rightarrow> Inl (invalid_json ''object key'')
        | Some (k, u) \<Rightarrow>
            if int (length k) > lim_MaxStringBytes l then Inl (with_detail ErrLimit ''string bytes'')
            else if k \<in> set before then Inl (invalid_json (''duplicate object member '' @ quote k))
            else if m + 1 > lim_MaxMembers l then Inl (with_detail ErrLimit ''object members'')
            else Inr (k, m + 1, u)))"

text \<open>The value of a member is read after the colon; its depth is checked first.\<close>

definition canon_colon :: "Limits \<Rightarrow> int \<Rightarrow> string \<Rightarrow> string result" where
  "canon_colon l d s =
     (if d > lim_MaxDepth l then Inl (with_detail ErrLimit ''nesting depth'')
      else case expect CHR '':'' s of
        None \<Rightarrow> Inl (invalid_json ''token'')
      | Some t \<Rightarrow> Inr t)"

fun canon_members ::
  "Limits \<Rightarrow> int \<Rightarrow> cvalue parser \<Rightarrow> nat \<Rightarrow> string list \<Rightarrow> (string \<times> cvalue) list parser" where
  "canon_members l d element 0 before m s = Inl (invalid_json ''fuel'')"
| "canon_members l d element (Suc n) before m s =
     bind_result (canon_key l before m s) (\<lambda>(k, m1, t).
     bind_result (canon_colon l d t) (\<lambda>u.
     bind_result (element m1 u) (\<lambda>(v, m2, x).
       case expect CHR ''}'' x of
         Some y \<Rightarrow> Inr ([(k, v)], m2, y)
       | None \<Rightarrow> (case expect CHR '','' x of
           None \<Rightarrow> Inl (invalid_json ''object key'')
         | Some y \<Rightarrow> bind_result (canon_members l d element n (k # before) m2 y)
             (\<lambda>(ms, m3, z). Inr ((k, v) # ms, m3, z))))))"

primrec canon_value :: "nat \<Rightarrow> Limits \<Rightarrow> int \<Rightarrow> cvalue parser" where
  "canon_value 0 = (\<lambda>l d m s. Inl (invalid_json ''fuel''))"
| "canon_value (Suc n) = (\<lambda>l d m s.
     if d > lim_MaxDepth l then Inl (with_detail ErrLimit ''nesting depth'')
     else case skip_ws s of
       [] \<Rightarrow> Inl (invalid_json ''token'')
     | c # t \<Rightarrow>
         if c = CHR ''['' then
           (case expect CHR '']'' t of
              Some u \<Rightarrow> Inr (CArray [], m, u)
            | None \<Rightarrow>
                if \<not> More t then Inl (invalid_json ''unterminated array'')
                else bind_result (canon_elems (canon_value n l (d + 1)) n m t)
                  (\<lambda>(vs, m', u). Inr (CArray vs, m', u)))
         else if c = CHR ''{'' then
           (case expect CHR ''}'' t of
              Some u \<Rightarrow> Inr (CObject [], m, u)
            | None \<Rightarrow> bind_result (canon_members l (d + 1) (canon_value n l (d + 1)) n [] m t)
                (\<lambda>(ms, m', u). Inr (CObject ms, m', u)))
         else case parse_atom (c # t) of
           None \<Rightarrow> Inl (invalid_json ''token'')
         | Some (j, u) \<Rightarrow> bind_result (canon_atom l j) (\<lambda>v. Inr (v, m, u)))"

definition Parse :: "string \<Rightarrow> Limits \<Rightarrow> cvalue result" where
  "Parse input limits0 =
     (let limits = withDefaults limits0 in
      if input = [] \<or> int (length input) > lim_MaxBytes limits
      then Inl (with_detail ErrLimit ''input bytes'')
      else if \<not> utf8_valid input then Inl (with_detail ErrInvalidJSON ''input is not UTF-8'')
      else ensure (validateSurrogates input)
        (bind_result (canon_value (Suc (length input)) limits 1 0 input) (\<lambda>(v, m, rest).
          if skip_ws rest = [] then Inr v else Inl (with_detail ErrInvalidJSON ''trailing data''))))"

section \<open>Canonical texts and digests\<close>

type_synonym Format = "cvalue \<Rightarrow> string result"

record canonical_Result =
  cr_Profile :: string
  cr_Canonical :: string
  cr_Digest :: Digest

definition format :: "Format \<Rightarrow> cvalue \<Rightarrow> string result" where
  "format jcs_Format val = map_error (ErrWrap ''canonicalize JSON'') (jcs_Format val)"

definition canonical_Digest :: "string \<Rightarrow> string \<Rightarrow> Digest" where
  "canonical_Digest domainSeparator canonical = DigestBytes (domainSeparator @ canonical)"

definition Canonicalize :: "Format \<Rightarrow> string \<Rightarrow> Limits \<Rightarrow> string result" where
  "Canonicalize jcs_Format input limits = bind_result (Parse input limits) (format jcs_Format)"

definition NormalizeArguments ::
  "Format \<Rightarrow> string \<Rightarrow> Limits \<Rightarrow> (cvalue \<Rightarrow> goerror option) option \<Rightarrow> canonical_Result result" where
  "NormalizeArguments jcs_Format input limits validate =
     (case validate of
        None \<Rightarrow> Inl (ErrNew ''canonical JSON schema validator is required'')
      | Some check \<Rightarrow>
          bind_result (Parse input limits) (\<lambda>v.
          ensure (map_option (\<lambda>err. ErrJoin [ErrSchema, err]) (check v))
          (bind_result (format jcs_Format v) (\<lambda>canonical.
            Inr \<lparr>cr_Profile = Profile, cr_Canonical = canonical,
                 cr_Digest = canonical_Digest ArgumentDomain canonical\<rparr>))))"

section \<open>What a parsed value satisfies\<close>

fun cmembers :: "cvalue \<Rightarrow> nat" where
  "cmembers (CArray vs) = sum_list (map cmembers vs)"
| "cmembers (CObject ms) = length ms + sum_list (map (\<lambda>(k, v). cmembers v) ms)"
| "cmembers _ = 0"

text \<open>Every nested value is within the depth, string and uniqueness limits of the profile.\<close>

fun cvalue_ok :: "Limits \<Rightarrow> int \<Rightarrow> cvalue \<Rightarrow> bool" where
  "cvalue_ok l d (CArray vs) \<longleftrightarrow> d \<le> lim_MaxDepth l \<and> (\<forall>v \<in> set vs. cvalue_ok l (d + 1) v)"
| "cvalue_ok l d (CObject ms) \<longleftrightarrow> d \<le> lim_MaxDepth l \<and> distinct (map fst ms)
     \<and> (\<forall>(k, v) \<in> set ms. int (length k) \<le> lim_MaxStringBytes l \<and> cvalue_ok l (d + 1) v)"
| "cvalue_ok l d (CString x) \<longleftrightarrow> d \<le> lim_MaxDepth l \<and> int (length x) \<le> lim_MaxStringBytes l"
| "cvalue_ok l d _ \<longleftrightarrow> d \<le> lim_MaxDepth l"

lemma length_skip_ws: "length (skip_ws s) \<le> length s"
  by (simp add: skip_ws_def length_dropWhile_le)

lemma expect_length: "expect x s = Some t \<Longrightarrow> length t < length s"
  using length_skip_ws [of s] by (auto simp: expect_def split: list.splits if_splits)

lemma prepend_rest: "prepend p r = Some (k, u) \<Longrightarrow> \<exists>k'. r = Some (k', u)"
  by (auto simp: prepend_def)

lemma parse_str_length: "parse_str s = Some (k, u) \<Longrightarrow> length u < length s"
proof (induction s arbitrary: k u rule: length_induct)
  case (1 s)
  have shorter: "length u < length v"
    if "prepend p (parse_str v) = Some (k, u)" "length v < length s" for p v
    using prepend_rest [OF that(1)] that(2) "1.IH" by fastforce
  note run = "1.prems" [unfolded parse_str.simps [of s]]
  show ?case
  proof (cases s)
    case (Cons c t)
    have multi: "0 < n" if "utf8_len s = Some n" for n
      using utf8_len_bounds [OF that] by simp
    from run Cons show ?thesis
      by (auto dest!: shorter split: if_splits list.splits option.splits dest: multi [unfolded Cons])
  qed (use run in simp)
qed

lemma scan_int_split: "scan_int s = Some (i, t) \<Longrightarrow> s = i @ t \<and> i \<noteq> []"
  by (auto simp: scan_int_def split: list.splits if_splits)

lemma scan_frac_split: "scan_frac s = Some (f, t) \<Longrightarrow> s = f @ t"
  by (auto simp: scan_frac_def split: list.splits if_splits)

lemma scan_exp_split: "scan_exp s = Some (f, t) \<Longrightarrow> s = f @ t"
  by (auto simp: scan_exp_def scan_sign_def Let_def split: list.splits if_splits prod.splits)

lemma scan_number_split: "scan_number s = Some (x, r) \<Longrightarrow> s = x @ r \<and> x \<noteq> []"
proof -
  assume run: "scan_number s = Some (x, r)"
  obtain m s1 where m: "(case s of c # t \<Rightarrow> if c = CHR ''-'' then ([c], t) else ([], s)
      | [] \<Rightarrow> ([], s)) = (m, s1)" by fastforce
  then have "s = m @ s1" by (auto split: list.splits if_splits)
  with run m show ?thesis
    by (auto simp: scan_number_def split: option.splits
        dest!: scan_int_split scan_frac_split scan_exp_split)
qed

lemma parse_atom_length: "parse_atom s = Some (j, u) \<Longrightarrow> length u < length s"
proof (cases s)
  case (Cons c t)
  assume run: "parse_atom s = Some (j, u)"
  have number: "length r < length s" if "scan_number s = Some (x, r)" for x r
    using scan_number_split [OF that] by simp
  show ?thesis
  proof (cases "c = CHR 0x22")
    case True
    with run Cons show ?thesis by (auto simp: parse_atom_def dest: parse_str_length)
  next
    case False
    with run Cons number show ?thesis
      by (auto simp: parse_atom_def parse_literal_def split: if_splits)
  qed
qed (simp add: parse_atom_def)

text \<open>What one reader of a value guarantees; the loops and the recursion keep it.\<close>

definition reads_within :: "Limits \<Rightarrow> int \<Rightarrow> cvalue parser \<Rightarrow> bool" where
  "reads_within l d element \<longleftrightarrow> (\<forall>m s v m' t.
     element m s = Inr (v, m', t) \<longrightarrow> m \<le> lim_MaxMembers l \<longrightarrow>
       cvalue_ok l d v \<and> m' = m + int (cmembers v) \<and> m' \<le> lim_MaxMembers l \<and> length t < length s)"

lemma reads_withinD:
  assumes "reads_within l d element" "element m s = Inr (v, m', t)" "m \<le> lim_MaxMembers l"
  shows "cvalue_ok l d v" "m' = m + int (cmembers v)" "m' \<le> lim_MaxMembers l" "length t < length s"
  using assms unfolding reads_within_def by blast+

lemma canon_elems_within:
  assumes "reads_within l d element"
  shows "canon_elems element n m s = Inr (vs, m', t) \<Longrightarrow> m \<le> lim_MaxMembers l \<Longrightarrow>
    (\<forall>v \<in> set vs. cvalue_ok l d v) \<and> m' = m + int (sum_list (map cmembers vs))
    \<and> m' \<le> lim_MaxMembers l \<and> length t < length s"
proof (induction n arbitrary: m s vs m' t)
  case (Suc n)
  from Suc.prems(1) obtain v m1 u where first: "element m s = Inr (v, m1, u)" by auto
  note good = reads_withinD [OF assms first Suc.prems(2)]
  from Suc.prems(1) first consider
    "vs = [v]" "m' = m1" "expect CHR '']'' u = Some t"
  | w ws where "vs = v # ws" "expect CHR '','' u = Some w" "canon_elems element n m1 w = Inr (ws, m', t)"
    by (auto split: option.splits)
  then show ?case
  proof cases
    case 1
    with good expect_length [of _ u t] show ?thesis by fastforce
  next
    case 2
    from Suc.IH [OF 2(3) good(3)] 2 good expect_length [OF 2(2)] show ?thesis by auto
  qed
qed simp

lemma canon_key_within:
  assumes "canon_key l before m s = Inr (k, m', t)"
  shows "int (length k) \<le> lim_MaxStringBytes l" "k \<notin> set before" "m' = m + 1"
    "m' \<le> lim_MaxMembers l" "length t < length s"
  using assms
  by (auto simp: canon_key_def split: option.splits if_splits dest!: expect_length parse_str_length)

lemma canon_colon_length:
  "canon_colon l d s = Inr t \<Longrightarrow> d \<le> lim_MaxDepth l \<and> length t < length s"
  by (auto simp: canon_colon_def split: if_splits option.splits dest: expect_length)

lemma canon_members_within:
  assumes "reads_within l d element"
  shows "canon_members l d element n before m s = Inr (ms, m', t) \<Longrightarrow> m \<le> lim_MaxMembers l \<Longrightarrow>
    (\<forall>(k, v) \<in> set ms. int (length k) \<le> lim_MaxStringBytes l \<and> cvalue_ok l d v)
    \<and> distinct (map fst ms) \<and> set (map fst ms) \<inter> set before = {}
    \<and> m' = m + int (cmembers (CObject ms)) \<and> m' \<le> lim_MaxMembers l \<and> length t < length s"
proof (induction n arbitrary: before m s ms m' t)
  case (Suc n)
  from Suc.prems(1) obtain k m1 t1 t2 v m2 u where
    key: "canon_key l before m s = Inr (k, m1, t1)" and colon: "canon_colon l d t1 = Inr t2"
    and first: "element m1 t2 = Inr (v, m2, u)"
    by auto
  note key_ok = canon_key_within [OF key]
  note good = reads_withinD [OF assms first key_ok(4)]
  note shorter = canon_colon_length [OF colon, THEN conjunct2]
  from Suc.prems(1) key colon first consider
    "ms = [(k, v)]" "m' = m2" "expect CHR ''}'' u = Some t"
  | w ws where "ms = (k, v) # ws" "expect CHR '','' u = Some w"
      "canon_members l d element n (k # before) m2 w = Inr (ws, m', t)"
    by (auto split: option.splits)
  then show ?case
  proof cases
    case 1
    with key_ok good shorter expect_length [of _ u t] show ?thesis by fastforce
  next
    case 2
    from Suc.IH [OF 2(3) good(3)] 2 key_ok good shorter expect_length [OF 2(2)]
    show ?thesis by auto
  qed
qed simp

lemma canon_atom_within:
  assumes "canon_atom l j = Inr v" "d \<le> lim_MaxDepth l"
  shows "cvalue_ok l d v" "cmembers v = 0"
  using assms by (auto simp: canon_atom_def split: json.splits if_splits)

lemma canon_value_within: "reads_within l d (canon_value n l d)"
proof (induction n arbitrary: d)
  case (Suc n)
  show ?case unfolding reads_within_def
  proof (intro allI impI)
    fix m s v m' t
    assume run: "canon_value (Suc n) l d m s = Inr (v, m', t)" and m: "m \<le> lim_MaxMembers l"
    from run obtain c r where d: "d \<le> lim_MaxDepth l" and r: "skip_ws s = c # r"
      by (auto split: if_splits list.splits)
    have len: "length r < length s" using length_skip_ws [of s] r by simp
    from run d r consider
      "v = CArray []" "m' = m" "expect CHR '']'' r = Some t"
    | vs where "v = CArray vs" "canon_elems (canon_value n l (d + 1)) n m r = Inr (vs, m', t)"
    | "v = CObject []" "m' = m" "expect CHR ''}'' r = Some t"
    | ms where "v = CObject ms"
        "canon_members l (d + 1) (canon_value n l (d + 1)) n [] m r = Inr (ms, m', t)"
    | j where "parse_atom (c # r) = Some (j, t)" "canon_atom l j = Inr v" "m' = m"
      by (auto split: if_splits option.splits)
    then show "cvalue_ok l d v \<and> m' = m + int (cmembers v) \<and> m' \<le> lim_MaxMembers l
      \<and> length t < length s"
    proof cases
      case 1
      with d m len expect_length [of _ r t] show ?thesis by fastforce
    next
      case 2
      from canon_elems_within [OF Suc.IH 2(2) m] 2(1) d len show ?thesis by auto
    next
      case 3
      with d m len expect_length [of _ r t] show ?thesis by fastforce
    next
      case 4
      from canon_members_within [OF Suc.IH 4(2) m] 4(1) d len show ?thesis by auto
    next
      case 5
      from parse_atom_length [OF 5(1)] length_skip_ws [of s] r have "length t < length s" by simp
      with canon_atom_within [OF 5(2) d] 5(3) m show ?thesis by simp
    qed
  qed
qed (simp add: reads_within_def)

section \<open>Fuel\<close>

lemma with_detail_inject [simp]: "with_detail e x = with_detail f y \<longleftrightarrow> e = f \<and> x = y"
  by (auto simp: with_detail_def)

abbreviation out_of_fuel :: goerror where
  "out_of_fuel \<equiv> invalid_json ''fuel''"

lemma parse_number_fuel: "parse_number l x \<noteq> Inl out_of_fuel"
  by (auto simp: parse_number_def invalid_json_def split: option.splits)

lemma canon_atom_fuel: "canon_atom l j \<noteq> Inl out_of_fuel"
  using parse_number_fuel
  by (auto simp: canon_atom_def invalid_json_def bind_result_def ErrLimit_def ErrInvalidJSON_def
      split: json.splits sum.splits)

lemma canon_key_fuel: "canon_key l before m s \<noteq> Inl out_of_fuel"
  by (auto simp: canon_key_def invalid_json_def ErrLimit_def ErrInvalidJSON_def split: option.splits)

lemma canon_colon_fuel: "canon_colon l d s \<noteq> Inl out_of_fuel"
  by (auto simp: canon_colon_def invalid_json_def ErrLimit_def ErrInvalidJSON_def split: option.splits)

lemma bind_result_Inl:
  "bind_result r f = Inl e \<longleftrightarrow> r = Inl e \<or> (\<exists>a. r = Inr a \<and> f a = Inl e)"
  by (cases r) auto

definition fueled :: "Limits \<Rightarrow> nat \<Rightarrow> cvalue parser \<Rightarrow> bool" where
  "fueled l k element \<longleftrightarrow>
     (\<forall>m s. length s < k \<longrightarrow> m \<le> lim_MaxMembers l \<longrightarrow> element m s \<noteq> Inl out_of_fuel)"

lemma canon_elems_fuel:
  assumes "reads_within l d element" "fueled l k element"
  shows "length s < k \<Longrightarrow> length s < n \<Longrightarrow> m \<le> lim_MaxMembers l \<Longrightarrow>
    canon_elems element n m s \<noteq> Inl out_of_fuel"
proof (induction n arbitrary: m s)
  case (Suc n)
  have "canon_elems element n m' u \<noteq> Inl out_of_fuel"
    if "element m s = Inr (v, m', t)" "expect CHR '','' t = Some u" for v m' t u
    using reads_withinD [OF assms(1) that(1) Suc.prems(3)] expect_length [OF that(2)] Suc.prems
    by (intro Suc.IH) auto
  moreover have "element m s \<noteq> Inl out_of_fuel" using assms(2) Suc.prems by (simp add: fueled_def)
  ultimately show ?case
    by (auto simp: bind_result_Inl invalid_json_def split: option.splits prod.splits)
qed simp

lemma canon_members_fuel:
  assumes "reads_within l d element" "fueled l k element"
  shows "length s < k \<Longrightarrow> length s < n \<Longrightarrow> m \<le> lim_MaxMembers l \<Longrightarrow>
    canon_members l d element n before m s \<noteq> Inl out_of_fuel"
proof (induction n arbitrary: before m s)
  case (Suc n)
  have step: "element m1 u \<noteq> Inl out_of_fuel"
    "\<And>v m2 x y. element m1 u = Inr (v, m2, x) \<Longrightarrow> expect CHR '','' x = Some y \<Longrightarrow>
       canon_members l d element n (key # before) m2 y \<noteq> Inl out_of_fuel"
    if "canon_key l before m s = Inr (key, m1, t)" "canon_colon l d t = Inr u" for key m1 t u
  proof -
    note within = canon_key_within [OF that(1)] canon_colon_length [OF that(2)]
    with assms(2) Suc.prems show "element m1 u \<noteq> Inl out_of_fuel" by (simp add: fueled_def)
    fix v m2 x y
    assume "element m1 u = Inr (v, m2, x)" "expect CHR '','' x = Some y"
    with reads_withinD [OF assms(1) this(1)] within expect_length [OF this(2)] Suc.prems
    show "canon_members l d element n (key # before) m2 y \<noteq> Inl out_of_fuel"
      by (intro Suc.IH) auto
  qed
  show ?case
    using step canon_key_fuel [of l before m s] canon_colon_fuel [of l d]
    by (auto simp: bind_result_Inl invalid_json_def split: option.splits prod.splits)
qed simp

lemma canon_value_fueled: "fueled l n (canon_value n l d)"
proof (induction n arbitrary: d)
  case (Suc n)
  show ?case unfolding fueled_def
  proof (intro allI impI)
    fix m and s :: string
    assume len: "length s < Suc n" and m: "m \<le> lim_MaxMembers l"
    show "canon_value (Suc n) l d m s \<noteq> Inl out_of_fuel"
    proof (cases "skip_ws s")
      case (Cons c t)
      with len length_skip_ws [of s] have t: "length t < n" by simp
      have inner: "canon_elems (canon_value n l (d + 1)) n m t \<noteq> Inl out_of_fuel"
        "canon_members l (d + 1) (canon_value n l (d + 1)) n [] m t \<noteq> Inl out_of_fuel"
        using t m by (intro canon_elems_fuel [OF canon_value_within Suc.IH]
            canon_members_fuel [OF canon_value_within Suc.IH]; simp)+
      with Cons canon_atom_fuel show ?thesis
        by (auto simp: bind_result_Inl invalid_json_def ErrLimit_def ErrInvalidJSON_def
            split: option.splits)
    qed (auto simp: invalid_json_def ErrLimit_def ErrInvalidJSON_def)
  qed
qed (simp add: fueled_def)

lemma surrogates_fuel:
  "surrogates_out s \<noteq> Some out_of_fuel" "surrogates_in s \<noteq> Some out_of_fuel"
  by (induction s and s rule: surrogates_out_surrogates_in.induct)
    (auto simp: invalid_json_def Let_def split: list.splits option.splits)

section \<open>Numbers that are integers\<close>

lemma pow2_nonpos: "e \<le> 0 \<Longrightarrow> a / pow2 e = a * 2 ^ nat (- e)"
  by (simp add: pow2_def)

lemma pow2_pos [simp]: "0 < pow2 e"
  by (simp add: pow2_def)

lemma pow2_inverse: "e \<le> 0 \<Longrightarrow> pow2 e * 2 ^ nat (- e) = 1"
  by (cases "e = 0") (simp_all add: pow2_def)

lemma round_half_even_int [simp]: "round_half_even (of_int n) = n"
  by (simp add: round_half_even_def)

lemma floor_log2_int:
  assumes "0 < n" "n < 2 ^ 53"
  shows "floor_log2 (of_int n) \<le> 52"
proof -
  have "bitlen n \<le> 53" using assms by (simp add: bitlen_le_iff_power)
  moreover have "1 \<le> bitlen 1" by (simp only: bitlen_ge_iff_power) simp
  ultimately show ?thesis by (simp add: floor_log2_def Let_def)
qed

lemma binary64_int:
  assumes "\<bar>n\<bar> < 2 ^ 53"
  shows "binary64 (of_int n) = Some (of_int n)"
proof (cases "n = 0")
  case False
  define e where "e = max (- 1074) (floor_log2 \<bar>of_int n\<bar> - 52)"
  have e: "e \<le> 0" using floor_log2_int [of "\<bar>n\<bar>"] False assms
    by (simp add: e_def flip: of_int_abs)
  have "of_int \<bar>n\<bar> / pow2 e = of_int (\<bar>n\<bar> * 2 ^ nat (- e))"
    by (simp add: pow2_nonpos [OF e])
  then have "of_int (round_half_even (of_int \<bar>n\<bar> / pow2 e)) * pow2 e = of_int \<bar>n\<bar>"
    by (simp only: round_half_even_int) (simp add: pow2_inverse [OF e] mult.assoc mult.commute)
  moreover have "of_int \<bar>n\<bar> < pow2 1024"
  proof -
    have "of_int \<bar>n\<bar> < (of_int (2 ^ 53) :: rat)" using assms by (simp only: of_int_less_iff)
    also have "\<dots> \<le> pow2 1024" by (simp add: pow2_def)
    finally show ?thesis .
  qed
  ultimately show ?thesis using False
    by (simp add: binary64_def Let_def sgn_mult_abs flip: e_def)
qed (simp add: binary64_def)

lemma ParseFloat_rational: "Rat_SetString token = Some r \<Longrightarrow> ParseFloat token = binary64 r"
  by (auto simp: Rat_SetString_def ParseFloat_def Let_def split: if_splits)

lemma parse_number_int:
  assumes "Rat_SetString token = Some (of_int n)" "int (length token) \<le> lim_MaxNumberBytes l"
  shows "parse_number l token =
    (if \<bar>n\<bar> \<le> maxSafeInteger then Inr (of_int n)
     else Inl (with_detail ErrUnsafeNumber ''integer exceeds IEEE-754 safe range''))"
  using assms binary64_int [of n]
  by (simp add: parse_number_def ParseFloat_rational maxSafeInteger_def)

section \<open>Properties\<close>

text \<open>
  C21. Every document the strict parser accepts is within the limits in force, defaults filled in:
  its size, the nesting depth and string length of every value inside it, and the total number of
  object members, which are pairwise distinct in each object.
\<close>

theorem accepted_documents_are_bounded:
  assumes "Parse input limits = Inr v"
  shows "int (length input) \<le> lim_MaxBytes (withDefaults limits)
    \<and> cvalue_ok (withDefaults limits) 1 v
    \<and> int (cmembers v) \<le> lim_MaxMembers (withDefaults limits)"
proof -
  let ?l = "withDefaults limits"
  from assms obtain m rest where "canon_value (Suc (length input)) ?l 1 0 input = Inr (v, m, rest)"
    "int (length input) \<le> lim_MaxBytes ?l"
    by (auto simp: Parse_def Let_def split: if_splits)
  with reads_withinD [OF canon_value_within this(1)] withDefaults_pos(3) [of limits]
  show ?thesis by simp
qed

lemmas canonical_eval =
  Parse_def withDefaults_def DefaultLimits_def zero_Limits_def validateSurrogates_def
  utf8_valid.simps code_def between_def expect_def skip_ws_def is_ws_def More_def
  parse_atom_def parse_literal_def canon_atom_def canon_key_def canon_colon_def parse_str.simps
  simple_escape_def scan_number_def scan_int_def scan_frac_def scan_exp_def is_digit_def

definition sample_document :: string where
  "sample_document = CHR ''{'' # CHR 0x22 # CHR ''a'' # CHR 0x22 # '':[true]}''"

lemma Parse_sample_document:
  "Parse sample_document zero_Limits = Inr (CObject [(''a'', CArray [CBool True])])"
  by (simp add: canonical_eval sample_document_def)

theorem accepted_documents_are_bounded_witness:
  "int (length sample_document) \<le> lim_MaxBytes (withDefaults zero_Limits)
    \<and> cvalue_ok (withDefaults zero_Limits) 1 (CObject [(''a'', CArray [CBool True])])
    \<and> int (cmembers (CObject [(''a'', CArray [CBool True])]))
        \<le> lim_MaxMembers (withDefaults zero_Limits)"
  by (rule accepted_documents_are_bounded [OF Parse_sample_document])

text \<open>
  C22. The parser always answers: its recursion fuel, the length of the input plus one, is never
  exhausted, whatever the input and the limits.
\<close>

theorem Parse_never_runs_out_of_fuel: "Parse input limits \<noteq> Inl out_of_fuel"
proof
  assume "Parse input limits = Inl out_of_fuel"
  moreover have "canon_value (Suc (length input)) (withDefaults limits) 1 0 input \<noteq> Inl out_of_fuel"
    using canon_value_fueled [of "withDefaults limits" "Suc (length input)" 1]
      withDefaults_pos(3) [of limits] by (simp add: fueled_def)
  moreover have "validateSurrogates input \<noteq> Some out_of_fuel"
    by (simp add: validateSurrogates_def surrogates_fuel)
  ultimately show False
    by (auto simp: Parse_def Let_def bind_result_Inl ensure_def invalid_json_def ErrLimit_def
        ErrInvalidJSON_def split: if_splits option.splits)
qed

end
