(* ===== verification/Resource_Projection.thy ===== *)
theory Resource_Projection
  imports Canonical_JSON Tool_Catalog
begin

text \<open>
  Projection of the resource a call touches out of its arguments
  (\<open>internal/resourceprojection/projection.go\<close>): compilation of the trusted rules, RFC 6901 pointers,
  type checks and the canonical object with its digest. Go values of type \<open>any\<close> are canonical values,
  nil being null. \<open>json.Marshal\<close> sorts members and prints a \<open>float64\<close> with the fewest digits that read
  back as the same value. Error details that quote caller text are not modelled.
\<close>

section \<open>Errors and definitions\<close>

definition ErrInvalidDefinition :: goerror where
  "ErrInvalidDefinition = ErrVar ''resourceprojection.ErrInvalidDefinition'' ''invalid resource projection definition''"
definition ErrInvalidArguments :: goerror where
  "ErrInvalidArguments = ErrVar ''resourceprojection.ErrInvalidArguments'' ''invalid normalized arguments''"
definition ErrMissing :: goerror where
  "ErrMissing = ErrVar ''resourceprojection.ErrMissing'' ''required resource projection value is missing''"
definition ErrType :: goerror where
  "ErrType = ErrVar ''resourceprojection.ErrType'' ''resource projection value has the wrong type''"
definition projection_ErrLimit :: goerror where
  "projection_ErrLimit = ErrVar ''resourceprojection.ErrLimit'' ''resource projection limit exceeded''"

definition defaultMaxFields :: int where "defaultMaxFields = 32"
definition defaultMaxOutputSize :: int where "defaultMaxOutputSize = 16384"

record Field =
  fd_Name :: string
  fd_Pointer :: string
  fd_Literal :: cvalue
  fd_Required :: bool
  fd_Type :: string

record Definition =
  df_Fields :: "Field list"
  df_MaxFields :: int
  df_MaxOutputBytes :: int

record Projection =
  pr_Value :: "(string \<times> cvalue) list"
  pr_Canonical :: string
  pr_Digest :: Digest

record compiledField =
  cf_name :: string
  cf_tokens :: "string list"
  cf_literal :: cvalue
  cf_isLiteral :: bool
  cf_required :: bool
  cf_typeName :: string

section \<open>Printing values\<close>

definition floor_log10 :: "rat \<Rightarrow> int" where
  "floor_log10 a =
     (let (n, d) = quotient_of a; k = int (length (decimal (nat n))) - int (length (decimal (nat d))) in
      if pow10 k \<le> a then k else k - 1)"

definition digits_candidates :: "rat \<Rightarrow> int \<Rightarrow> nat \<Rightarrow> nat list" where
  "digits_candidates q e n =
     (let scale = pow10 (e - int n + 1); lo = \<lfloor>q / scale\<rfloor>; near = (if q / scale - of_int lo \<le> 1 / 2 then [lo, lo + 1] else [lo + 1, lo]) in
      map nat (filter (\<lambda>m. binary64 (of_int m * scale) = Some q) near))"

text \<open>The shortest digits that read back as \<open>q\<close>, with the exponent of the last one; seventeen always do.\<close>

fun shortest_digits :: "rat \<Rightarrow> int \<Rightarrow> nat \<Rightarrow> nat \<Rightarrow> nat \<times> int" where
  "shortest_digits q e n 0 = (nat \<lfloor>q / pow10 (e - int n + 1)\<rfloor>, e - int n + 1)"
| "shortest_digits q e n (Suc left) =
     (case digits_candidates q e n of
        m # _ \<Rightarrow> if m = 10 ^ n then (1, e + 1) else (m, e - int n + 1)
      | [] \<Rightarrow> shortest_digits q e (Suc n) left)"

definition positional :: "nat \<Rightarrow> int \<Rightarrow> string" where
  "positional m x =
     (let ds = decimal m in
      if x \<ge> 0 then ds @ replicate (nat x) CHR ''0''
      else let k = nat (- x) in
        if length ds > k then take (length ds - k) ds @ CHR ''.'' # drop (length ds - k) ds
        else ''0.'' @ replicate (k - length ds) CHR ''0'' @ ds)"

definition scientific :: "nat \<Rightarrow> int \<Rightarrow> string" where
  "scientific m x =
     (let ds = decimal m; e = x + int (length ds) - 1; n = decimal (nat \<bar>e\<bar>) in
      hd ds # (if tl ds = [] then [] else CHR ''.'' # tl ds) @ CHR ''e''
        # (if e < 0 then ''-'' @ n else CHR ''+'' # (if length n < 2 then CHR ''0'' # n else n)))"

definition marshal_float :: "rat \<Rightarrow> string" where
  "marshal_float q =
     (if q = 0 then ''0''
      else let a = \<bar>q\<bar>; (m, x) = shortest_digits a (floor_log10 a) 1 17;
           body = (if binary64 (pow10 (- 6)) \<noteq> Some a \<and> a < pow10 (- 6) \<or> a \<ge> pow10 21 then scientific m x else positional m x) in
        if q < 0 then CHR ''-'' # body else body)"

fun json_Marshal :: "cvalue \<Rightarrow> string" where
  "json_Marshal CNull = ''null''"
| "json_Marshal (CBool b) = (if b then ''true'' else ''false'')"
| "json_Marshal (CNumber q) = marshal_float q"
| "json_Marshal (CString s) = quote s"
| "json_Marshal (CArray vs) = ''['' @ join_with CHR '','' (map json_Marshal vs) @ '']''"
| "json_Marshal (CObject ms) =
     ''{'' @ join_with CHR '','' (map (\<lambda>(k, t). quote k @ '':'' @ t)
       (sort_key fst (map (\<lambda>(k, v). (k, json_Marshal v)) ms))) @ ''}''"

section \<open>Pointers\<close>

fun unescape :: "string \<Rightarrow> string result" where
  "unescape [] = Inr []"
| "unescape (c # s) =
     (if c \<noteq> CHR ''~'' then bind_result (unescape s) (\<lambda>t. Inr (c # t))
      else (case s of
          d # u \<Rightarrow>
            if d = CHR ''0'' then bind_result (unescape u) (\<lambda>t. Inr (CHR ''~'' # t))
            else if d = CHR ''1'' then bind_result (unescape u) (\<lambda>t. Inr (CHR ''/'' # t))
            else Inl (ErrNew ''invalid pointer escape'')
        | [] \<Rightarrow> Inl (ErrNew ''invalid pointer escape'')))"

fun unescape_all :: "string list \<Rightarrow> string list result" where
  "unescape_all [] = Inr []"
| "unescape_all (p # ps) =
     bind_result (unescape p) (\<lambda>t. bind_result (unescape_all ps) (\<lambda>ts. Inr (t # ts)))"

definition parsePointer :: "string \<Rightarrow> string list result" where
  "parsePointer pointer =
     (case pointer of
        [] \<Rightarrow> Inl (ErrNew ''pointer must be non-empty and start with slash'')
      | c # s \<Rightarrow>
          if c \<noteq> CHR ''/'' then Inl (ErrNew ''pointer must be non-empty and start with slash'')
          else unescape_all (Split s CHR ''/''))"

text \<open>\<open>strconv.Atoi\<close>: an optional sign and digits, within \<open>int64\<close>.\<close>

definition Atoi :: "string \<Rightarrow> int option" where
  "Atoi s =
     (let digits = (if HasPrefix s ''-'' \<or> HasPrefix s ''+'' then tl s else s);
          n = (if HasPrefix s ''-'' then - int (parse_decimal digits) else int (parse_decimal digits)) in
      if digits = [] \<or> \<not> list_all is_digit digits \<or> \<not> is_int64 n then None else Some n)"

fun resolve :: "cvalue \<Rightarrow> string list \<Rightarrow> cvalue option" where
  "resolve current [] = Some current"
| "resolve (CObject ms) (token # tokens) =
     (case map_of ms token of None \<Rightarrow> None | Some v \<Rightarrow> resolve v tokens)"
| "resolve (CArray vs) (token # tokens) =
     (if token = ''-'' \<or> length token > 1 \<and> hd token = CHR ''0'' then None
      else (case Atoi token of
          None \<Rightarrow> None
        | Some index \<Rightarrow>
            if index < 0 \<or> index \<ge> int (length vs) then None else resolve (vs ! nat index) tokens))"
| "resolve _ (token # tokens) = None"

section \<open>Compilation\<close>

definition validType :: "string \<Rightarrow> bool" where
  "validType t \<longleftrightarrow> t \<in> set [''any'', ''string'', ''number'', ''boolean'', ''object'', ''array'', ''null'']"

definition type_matches :: "string \<Rightarrow> cvalue \<Rightarrow> bool" where
  "type_matches expected v =
     (if expected = ''any'' then True
      else case v of
        CString _ \<Rightarrow> expected = ''string''
      | CNumber _ \<Rightarrow> expected = ''number''
      | CBool _ \<Rightarrow> expected = ''boolean''
      | CObject _ \<Rightarrow> expected = ''object''
      | CArray _ \<Rightarrow> expected = ''array''
      | CNull \<Rightarrow> expected = ''null'')"

definition jsonSafe :: "Format \<Rightarrow> cvalue \<Rightarrow> bool" where
  "jsonSafe jcs_Format v \<longleftrightarrow>
     result_err (Canonicalize jcs_Format (json_Marshal v) (zero_Limits\<lparr>lim_MaxBytes := defaultMaxOutputSize\<rparr>)) = None"

definition compile_field :: "Format \<Rightarrow> string list \<Rightarrow> Field \<Rightarrow> compiledField result" where
  "compile_field jcs_Format seen f =
     (let hasPointer = fd_Pointer f \<noteq> []; hasLiteral = fd_Literal f \<noteq> CNull;
          typeName = (if fd_Type f = [] then ''any'' else fd_Type f);
          entry = \<lparr>cf_name = fd_Name f, cf_tokens = [], cf_literal = fd_Literal f, cf_isLiteral = hasLiteral,
            cf_required = fd_Required f, cf_typeName = typeName\<rparr> in
      ensure (first_err
        [fail_if (fd_Name f = [] \<or> length (fd_Name f) > 128 \<or> ContainsAny (fd_Name f) [CHR 0x00, CHR 0x0D, CHR 0x0A])
           (with_detail ErrInvalidDefinition ''invalid output field name''),
         fail_if (fd_Name f \<in> set seen) (with_detail ErrInvalidDefinition ''ambiguous duplicate output field''),
         fail_if (hasPointer = hasLiteral) (with_detail ErrInvalidDefinition ''field must have exactly one source''),
         fail_if (\<not> validType typeName) (with_detail ErrInvalidDefinition ''field has unknown type'')])
        (if hasPointer
         then (case parsePointer (fd_Pointer f) of
                 Inl err \<Rightarrow> Inl (with_detail ErrInvalidDefinition (Error err))
               | Inr tokens \<Rightarrow> Inr (entry\<lparr>cf_tokens := tokens\<rparr>))
         else if \<not> jsonSafe jcs_Format (fd_Literal f)
         then Inl (with_detail ErrInvalidDefinition ''field literal is not safe JSON'')
         else Inr entry))"

fun compile_fields :: "Format \<Rightarrow> string list \<Rightarrow> Field list \<Rightarrow> compiledField list result" where
  "compile_fields jcs_Format seen [] = Inr []"
| "compile_fields jcs_Format seen (f # fs) =
     bind_result (compile_field jcs_Format seen f) (\<lambda>entry.
       bind_result (compile_fields jcs_Format (fd_Name f # seen) fs) (\<lambda>entries. Inr (entry # entries)))"

definition compile_projection :: "Format \<Rightarrow> Definition \<Rightarrow> (compiledField list \<times> int) result" where
  "compile_projection jcs_Format d =
     (let maxFields = (if df_MaxFields d = 0 then defaultMaxFields else df_MaxFields d);
          maxOutput = (if df_MaxOutputBytes d = 0 then defaultMaxOutputSize else df_MaxOutputBytes d) in
      if maxFields < 1 \<or> maxOutput < 2 \<or> df_Fields d = [] \<or> int (length (df_Fields d)) > maxFields
      then Inl (with_detail ErrInvalidDefinition ''invalid limits or field count'')
      else bind_result (compile_fields jcs_Format [] (df_Fields d)) (\<lambda>fields. Inr (fields, maxOutput)))"

section \<open>Project\<close>

fun project_value :: "cvalue \<Rightarrow> compiledField list \<Rightarrow> (string \<times> cvalue) list result" where
  "project_value document [] = Inr []"
| "project_value document (f # fs) =
     (case (if cf_isLiteral f then Some (cf_literal f) else resolve document (cf_tokens f)) of
        None \<Rightarrow> if cf_required f then Inl (with_detail ErrMissing (cf_name f)) else project_value document fs
      | Some selected \<Rightarrow>
          if \<not> type_matches (cf_typeName f) selected
          then Inl (with_detail ErrType (cf_name f @ '' requires '' @ cf_typeName f))
          else bind_result (project_value document fs) (\<lambda>rest. Inr ((cf_name f, selected) # rest)))"

definition only_bytes :: "int \<Rightarrow> Limits" where
  "only_bytes n = zero_Limits\<lparr>lim_MaxBytes := n\<rparr>"

definition finish_projection :: "Format \<Rightarrow> int \<Rightarrow> (string \<times> cvalue) list \<Rightarrow> Projection result" where
  "finish_projection jcs_Format maxOutput members =
     (case Canonicalize jcs_Format (json_Marshal (CObject members)) (only_bytes maxOutput) of
        Inl err \<Rightarrow>
          if errors_Is err ErrLimit then Inl (with_detail projection_ErrLimit ''output bytes'')
          else Inl (ErrWrap ''canonicalize resource projection'' err)
      | Inr canonical \<Rightarrow>
          if int (length canonical) > maxOutput then Inl (with_detail projection_ErrLimit ''output bytes'')
          else (case Parse canonical (only_bytes maxOutput) of
              Inl err \<Rightarrow> Inl (ErrWrap ''parse canonical resource projection'' err)
            | Inr (CObject detached) \<Rightarrow>
                Inr \<lparr>pr_Value = detached, pr_Canonical = canonical,
                     pr_Digest = canonical_Digest ResourceDomain canonical\<rparr>
            | Inr _ \<Rightarrow> Inl (ErrNew ''canonical resource projection is not an object'')))"

definition Project :: "Format \<Rightarrow> canonical_Result \<Rightarrow> Definition \<Rightarrow> Projection result" where
  "Project jcs_Format arguments d =
     (let canonical = cr_Canonical arguments; l = only_bytes (int (length canonical)) in
      bind_result (compile_projection jcs_Format d) (\<lambda>(fields, maxOutput).
      if cr_Profile arguments \<noteq> Profile \<or> canonical = []
      then Inl (with_detail ErrInvalidArguments ''canonical profile'')
      else if Canonicalize jcs_Format canonical l \<noteq> Inr canonical
         \<or> canonical_Digest ArgumentDomain canonical \<noteq> cr_Digest arguments
      then Inl (with_detail ErrInvalidArguments ''canonical bytes or digest'')
      else (case Parse canonical l of
          Inl err \<Rightarrow> Inl (with_detail ErrInvalidArguments (Error err))
        | Inr document \<Rightarrow> bind_result (project_value document fields) (finish_projection jcs_Format maxOutput))))"

section \<open>What a projection selects\<close>

definition declared_type :: "Field \<Rightarrow> string" where
  "declared_type f = (if fd_Type f = [] then ''any'' else fd_Type f)"

text \<open>The source of a field by its definition: its literal, or what its pointer reaches.\<close>

definition field_source :: "cvalue \<Rightarrow> Field \<Rightarrow> cvalue option" where
  "field_source document f =
     (if fd_Literal f \<noteq> CNull then Some (fd_Literal f)
      else case parsePointer (fd_Pointer f) of Inl _ \<Rightarrow> None | Inr tokens \<Rightarrow> resolve document tokens)"

definition compiled_source :: "cvalue \<Rightarrow> compiledField \<Rightarrow> cvalue option" where
  "compiled_source document f = (if cf_isLiteral f then Some (cf_literal f) else resolve document (cf_tokens f))"

definition compiles_to :: "Field \<Rightarrow> compiledField \<Rightarrow> bool" where
  "compiles_to f c \<longleftrightarrow> cf_name c = fd_Name f \<and> cf_required c = fd_Required f
     \<and> cf_typeName c = declared_type f \<and> (\<forall>document. compiled_source document c = field_source document f)"

lemma compile_field_ok:
  assumes "compile_field jcs_Format seen f = Inr c"
  shows "compiles_to f c \<and> fd_Name f \<notin> set seen"
  using assms
  by (auto simp: compile_field_def Let_def ensure_def compiles_to_def compiled_source_def field_source_def
      declared_type_def split: if_splits option.splits sum.splits)

lemma compile_fields_ok:
  "compile_fields jcs_Format seen fs = Inr cs \<Longrightarrow>
     list_all2 compiles_to fs cs \<and> distinct (map fd_Name fs) \<and> set (map fd_Name fs) \<inter> set seen = {}"
proof (induction fs arbitrary: seen cs)
  case (Cons f fs)
  from Cons.prems obtain c cs' where head: "compile_field jcs_Format seen f = Inr c"
    and tail: "compile_fields jcs_Format (fd_Name f # seen) fs = Inr cs'" and "cs = c # cs'"
    by auto
  with compile_field_ok [OF head] Cons.IH [OF tail] show ?case by auto
qed simp

lemma project_value_Cons:
  assumes "project_value document (c # cs) = Inr ms"
  shows "(compiled_source document c = None \<and> \<not> cf_required c \<and> project_value document cs = Inr ms)
    \<or> (\<exists>v rest. compiled_source document c = Some v \<and> type_matches (cf_typeName c) v
        \<and> project_value document cs = Inr rest \<and> ms = (cf_name c, v) # rest)"
  using assms
  by (cases "compiled_source document c") (auto simp: compiled_source_def split: if_splits)

definition selects :: "cvalue \<Rightarrow> (string \<times> cvalue) list \<Rightarrow> Field \<Rightarrow> bool" where
  "selects document members f \<longleftrightarrow> map_of members (fd_Name f) = field_source document f
     \<and> (case field_source document f of
          None \<Rightarrow> \<not> fd_Required f
        | Some v \<Rightarrow> type_matches (declared_type f) v)"

lemma selects_Cons: "k \<noteq> fd_Name f \<Longrightarrow> selects document ((k, v) # ms) f = selects document ms f"
  by (simp add: selects_def)

lemma project_value_ok:
  assumes "list_all2 compiles_to fs cs" "distinct (map fd_Name fs)" "project_value document cs = Inr ms"
  shows "(\<forall>f \<in> set fs. selects document ms f) \<and> fst ` set ms \<subseteq> fd_Name ` set fs \<and> distinct (map fst ms)"
  using assms
proof (induction fs cs arbitrary: ms rule: list_all2_induct)
  case (Cons f fs c cs)
  note same = Cons.hyps(1) [unfolded compiles_to_def]
  from project_value_Cons [OF Cons.prems(2)] show ?case
  proof (elim disjE conjE exE)
    assume none: "compiled_source document c = None" "\<not> cf_required c" and "project_value document cs = Inr ms"
    with Cons have IH: "\<forall>f \<in> set fs. selects document ms f" "fst ` set ms \<subseteq> fd_Name ` set fs"
      "distinct (map fst ms)" by auto
    with Cons.prems(1) have "map_of ms (fd_Name f) = None" by (auto simp: map_of_eq_None_iff)
    with none same IH show ?thesis by (auto simp: selects_def)
  next
    fix v rest
    assume some: "compiled_source document c = Some v" "type_matches (cf_typeName c) v"
      "ms = (cf_name c, v) # rest" and "project_value document cs = Inr rest"
    with Cons have IH: "\<forall>f \<in> set fs. selects document rest f" "fst ` set rest \<subseteq> fd_Name ` set fs"
      "distinct (map fst rest)" by auto
    have "selects document ms g" if "g \<in> set fs" for g
    proof -
      from that Cons.prems(1) same have "cf_name c \<noteq> fd_Name g" by (auto simp: image_iff)
      with that IH(1) some(3) show ?thesis by (simp add: selects_Cons)
    qed
    moreover have "selects document ms f" using some same by (simp add: selects_def)
    moreover have "fd_Name f \<notin> fst ` set rest" using IH(2) Cons.prems(1) by auto
    ultimately show ?thesis using IH(2,3) some(3) same by auto
  qed
qed simp

definition output_limit :: "Definition \<Rightarrow> int" where
  "output_limit d = (if df_MaxOutputBytes d = 0 then defaultMaxOutputSize else df_MaxOutputBytes d)"

lemma finish_projection_ok:
  assumes "finish_projection jcs_Format maxOutput members = Inr p"
  shows "Canonicalize jcs_Format (json_Marshal (CObject members)) (only_bytes maxOutput) = Inr (pr_Canonical p)
    \<and> int (length (pr_Canonical p)) \<le> maxOutput
    \<and> Parse (pr_Canonical p) (only_bytes maxOutput) = Inr (CObject (pr_Value p))
    \<and> pr_Digest p = canonical_Digest ResourceDomain (pr_Canonical p)"
  using assms by (auto simp: finish_projection_def split: sum.splits if_splits cvalue.splits)

section \<open>Properties\<close>


definition sample_rule :: Field where
  "sample_rule = \<lparr>fd_Name = ''flag'', fd_Pointer = ''/a/0'', fd_Literal = CNull, fd_Required = True,
     fd_Type = ''boolean''\<rparr>"

definition sample_definition :: Definition where
  "sample_definition = \<lparr>df_Fields =
     [sample_rule,
      sample_rule\<lparr>fd_Name := ''kind'', fd_Pointer := [], fd_Literal := CString ''repo'', fd_Type := ''string''\<rparr>,
      sample_rule\<lparr>fd_Name := ''owner'', fd_Pointer := ''/owner'', fd_Required := False\<rparr>],
     df_MaxFields = 0, df_MaxOutputBytes = 0\<rparr>"

definition marshal_format :: Format where
  "marshal_format v = Inr (json_Marshal v)"

definition sample_arguments :: canonical_Result where
  "sample_arguments = \<lparr>cr_Profile = Profile, cr_Canonical = sample_document,
     cr_Digest = canonical_Digest ArgumentDomain sample_document\<rparr>"

definition sample_members :: "(string \<times> cvalue) list" where
  "sample_members = [(''flag'', CBool True), (''kind'', CString ''repo'')]"

definition sample_projection :: Projection where
  "sample_projection = \<lparr>pr_Value = sample_members, pr_Canonical = json_Marshal (CObject sample_members),
     pr_Digest = canonical_Digest ResourceDomain (json_Marshal (CObject sample_members))\<rparr>"

lemmas projection_eval =
  sample_document_def sample_arguments_def sample_definition_def sample_rule_def sample_members_def
  sample_projection_def marshal_format_def quote_def quote_body.simps escape_ascii_def only_bytes_def
  defaultMaxOutputSize_def defaultMaxFields_def canonical_eval

lemma sample_marshal:
  "json_Marshal (CObject sample_members) =
     CHR ''{'' # quote ''flag'' @ '':true,'' @ quote ''kind'' @ '':'' @ quote ''repo'' @ ''}''"
  "json_Marshal (CObject [(''a'', CArray [CBool True])]) = sample_document"
  by (simp_all add: projection_eval)

lemma sample_parse:
  "Parse (json_Marshal (CObject sample_members)) (only_bytes defaultMaxOutputSize) = Inr (CObject sample_members)"
  "Parse sample_document (only_bytes (int (length sample_document))) = Inr (CObject [(''a'', CArray [CBool True])])"
  "Parse (json_Marshal (CString ''repo'')) (only_bytes defaultMaxOutputSize) = Inr (CString ''repo'')"
  by (simp_all add: sample_marshal, simp_all add: projection_eval)

lemma sample_project:
  "Project marshal_format sample_arguments sample_definition = Inr sample_projection"
proof -
  let ?document = "CObject [(''a'', CArray [CBool True])]"
  have canonical: "Canonicalize marshal_format sample_document (only_bytes (int (length sample_document)))
      = Inr sample_document"
    by (simp add: Canonicalize_def sample_parse format_def marshal_format_def sample_marshal(2) del: json_Marshal.simps)
  have some: "sample_document \<noteq> []" by (simp add: sample_document_def)
  have safe: "jsonSafe marshal_format (CString ''repo'')"
    using sample_parse(3) by (simp add: jsonSafe_def Canonicalize_def only_bytes_def format_def marshal_format_def)
  have finish: "finish_projection marshal_format defaultMaxOutputSize sample_members = Inr sample_projection"
    by (simp add: finish_projection_def Canonicalize_def sample_parse format_def marshal_format_def
        sample_projection_def del: json_Marshal.simps) (simp add: projection_eval)
  show ?thesis
    using some canonical safe finish sample_parse(2) unfolding Project_def compile_projection_def
    by (simp add: sample_arguments_def sample_definition_def sample_rule_def Let_def compile_field_def
        ContainsAny_def parsePointer_def validType_def type_matches_def Atoi_def is_digit_def
        parse_decimal_def digit_value_def is_int64_def min_int64_def max_int64_def defaultMaxFields_def
        defaultMaxOutputSize_def sample_members_def code_def)
qed


end
