(* ===== verification/Schema_Validator.thy ===== *)
theory Schema_Validator
  imports Domain_Primitives Go_JSON "HOL-Library.Product_Lexorder"
begin

text \<open>
  JSON schema compilation and validation (\<open>internal/schema/schema.go\<close>): size limits, the inspection of
  documents with an explicit stack, the cache of compiled schemas and the deterministic error report.
  The library \<open>jsonschema\<close> is a parameter: what it compiles a document to, and what it reports for an
  instance. Texts of decoder errors are not modelled.
\<close>

section \<open>Limits and errors\<close>

definition ErrSchemaTooLarge :: goerror where
  "ErrSchemaTooLarge = ErrVar ''schema.ErrSchemaTooLarge'' ''schema exceeds size limit''"
definition ErrInstanceTooLarge :: goerror where
  "ErrInstanceTooLarge = ErrVar ''schema.ErrInstanceTooLarge'' ''JSON instance exceeds size limit''"
definition ErrMalformedSchema :: goerror where
  "ErrMalformedSchema = ErrVar ''schema.ErrMalformedSchema'' ''schema is not valid JSON''"
definition ErrMalformedInstance :: goerror where
  "ErrMalformedInstance = ErrVar ''schema.ErrMalformedInstance'' ''instance is not valid JSON''"
definition ErrSchemaComplexity :: goerror where
  "ErrSchemaComplexity = ErrVar ''schema.ErrSchemaComplexity'' ''schema exceeds complexity limit''"
definition ErrInstanceComplexity :: goerror where
  "ErrInstanceComplexity = ErrVar ''schema.ErrInstanceComplexity'' ''instance exceeds complexity limit''"
definition ErrExternalReference :: goerror where
  "ErrExternalReference = ErrVar ''schema.ErrExternalReference'' ''schema contains a non-local reference''"
definition ErrInvalidSchema :: goerror where
  "ErrInvalidSchema = ErrVar ''schema.ErrInvalidSchema'' ''schema is invalid''"

record SchemaLimits =
  sl_MaxSchemaBytes :: int
  sl_MaxInstanceBytes :: int
  sl_MaxDepth :: int
  sl_MaxNodes :: int
  sl_MaxStringBytes :: int
  sl_MaxObjectMembers :: int
  sl_MaxCacheEntries :: int
  sl_MaxErrors :: int

definition DefaultSchemaLimits :: SchemaLimits where
  "DefaultSchemaLimits = \<lparr>sl_MaxSchemaBytes = 524288, sl_MaxInstanceBytes = 4194304, sl_MaxDepth = 64,
     sl_MaxNodes = 10000, sl_MaxStringBytes = 262144, sl_MaxObjectMembers = 10000, sl_MaxCacheEntries = 128,
     sl_MaxErrors = 32\<rparr>"

definition maximumCacheEntries :: int where "maximumCacheEntries = 1024"
definition maximumErrors :: int where "maximumErrors = 128"

definition limited :: "int \<Rightarrow> int \<Rightarrow> int \<Rightarrow> int" where
  "limited given maximum fallback = (if given \<le> 0 \<or> given > maximum then fallback else given)"

definition normalized :: "SchemaLimits \<Rightarrow> SchemaLimits" where
  "normalized l =
     (let d = DefaultSchemaLimits in
      \<lparr>sl_MaxSchemaBytes = limited (sl_MaxSchemaBytes l) (sl_MaxSchemaBytes d) (sl_MaxSchemaBytes d),
       sl_MaxInstanceBytes = limited (sl_MaxInstanceBytes l) (sl_MaxInstanceBytes d) (sl_MaxInstanceBytes d),
       sl_MaxDepth = limited (sl_MaxDepth l) (sl_MaxDepth d) (sl_MaxDepth d),
       sl_MaxNodes = limited (sl_MaxNodes l) (sl_MaxNodes d) (sl_MaxNodes d),
       sl_MaxStringBytes = limited (sl_MaxStringBytes l) (sl_MaxStringBytes d) (sl_MaxStringBytes d),
       sl_MaxObjectMembers = limited (sl_MaxObjectMembers l) (sl_MaxObjectMembers d) (sl_MaxObjectMembers d),
       sl_MaxCacheEntries = limited (sl_MaxCacheEntries l) maximumCacheEntries (sl_MaxCacheEntries d),
       sl_MaxErrors = limited (sl_MaxErrors l) maximumErrors (sl_MaxErrors d)\<rparr>)"

section \<open>Decoding and inspection\<close>

definition decodeJSON :: "string \<Rightarrow> json result" where
  "decodeJSON raw =
     (case Decode_value raw of
        None \<Rightarrow> Inl (ErrNew ''invalid JSON'')
      | Some (v, rest) \<Rightarrow>
          if skip_ws rest = [] then Inr (normalize v) else Inl (ErrNew ''multiple JSON values''))"

definition complexity_error :: "bool \<Rightarrow> goerror" where
  "complexity_error schemaDocument = (if schemaDocument then ErrSchemaComplexity else ErrInstanceComplexity)"

definition local_reference :: "json \<Rightarrow> bool" where
  "local_reference child = (case child of JString r \<Rightarrow> r = ''#'' \<or> HasPrefix r ''#/'' | _ \<Rightarrow> False)"

definition external_member :: "bool \<Rightarrow> string \<times> json \<Rightarrow> bool" where
  "external_member schemaDocument = (\<lambda>(key, child).
     schemaDocument \<and> (key = ''$ref'' \<or> key = ''$dynamicRef'') \<and> \<not> local_reference child)"

text \<open>Children are pushed in order and popped last first; the top of the stack is the head of the list.\<close>

definition push :: "json list \<Rightarrow> int \<Rightarrow> (json \<times> int) list \<Rightarrow> (json \<times> int) list" where
  "push children depth stack = rev (map (\<lambda>c. (c, depth + 1)) children) @ stack"

function inspect_loop ::
  "SchemaLimits \<Rightarrow> bool \<Rightarrow> int \<Rightarrow> (json \<times> int) list \<Rightarrow> goerror option" where
  "inspect_loop l doc nodes [] = None"
| "inspect_loop l doc nodes ((current, depth) # stack) =
     (if nodes + 1 > sl_MaxNodes l \<or> depth > sl_MaxDepth l then Some (complexity_error doc)
      else (case current of
          JObject ms \<Rightarrow>
            if int (length ms) > sl_MaxObjectMembers l then Some (complexity_error doc)
            else if list_ex (external_member doc) ms then Some ErrExternalReference
            else inspect_loop l doc (nodes + 1) (push (map snd ms) depth stack)
        | JArray vs \<Rightarrow> inspect_loop l doc (nodes + 1) (push vs depth stack)
        | JString s \<Rightarrow>
            if int (length s) > sl_MaxStringBytes l then Some (complexity_error doc)
            else inspect_loop l doc (nodes + 1) stack
        | _ \<Rightarrow> inspect_loop l doc (nodes + 1) stack))"
  by pat_completeness auto
termination
  by (relation "measure (\<lambda>(l, doc, nodes, stack). nat (sl_MaxNodes l - nodes))") auto

definition inspect :: "json \<Rightarrow> SchemaLimits \<Rightarrow> bool \<Rightarrow> goerror option" where
  "inspect root l doc = inspect_loop l doc 0 [(root, 1)]"

section \<open>Validation errors\<close>

text \<open>What the library reports: a tree of causes, or an error of another kind.\<close>

datatype violation_tree =
  Violation_Tree (vt_Causes: "violation_tree list") (vt_InstanceLocation: "string list") (vt_KeywordPath: "string list")

datatype library_error = ValidationTree violation_tree | OtherError

record Violation =
  vi_InstanceLocation :: string
  vi_KeywordLocation :: string
  vi_Code :: string

definition escape_token :: "string \<Rightarrow> string" where
  "escape_token token = concat (map (\<lambda>c. if c = CHR ''~'' then ''~0'' else if c = CHR ''/'' then ''~1'' else [c]) token)"

definition pointer :: "string list \<Rightarrow> string" where
  "pointer tokens = concat (map (\<lambda>token. CHR ''/'' # escape_token token) tokens)"

definition leaf_violation :: "violation_tree \<Rightarrow> Violation" where
  "leaf_violation t =
     \<lparr>vi_InstanceLocation = pointer (vt_InstanceLocation t), vi_KeywordLocation = pointer (vt_KeywordPath t),
      vi_Code = (if vt_KeywordPath t = [] then ''schema'' else last (vt_KeywordPath t))\<rparr>"

fun collect :: "violation_tree \<Rightarrow> Violation list" where
  "collect (Violation_Tree causes location keyword) =
     (if causes \<noteq> [] then concat (map collect causes)
      else [leaf_violation (Violation_Tree causes location keyword)])"

definition violation_key :: "Violation \<Rightarrow> string \<times> string \<times> string" where
  "violation_key v = (vi_InstanceLocation v, vi_KeywordLocation v, vi_Code v)"

definition deterministic_violations :: "violation_tree \<Rightarrow> int \<Rightarrow> Violation list" where
  "deterministic_violations t maximum = take (nat maximum) (sort_key violation_key (collect t))"

definition ValidationError :: "Violation list \<Rightarrow> goerror" where
  "ValidationError vs = ErrTyped ''*schema.ValidationError'' []
     (''JSON instance failed schema validation ('' @ Itoa (int (length vs)) @ '' violation(s))'') None"

definition deterministicValidationError :: "library_error \<Rightarrow> int \<Rightarrow> goerror" where
  "deterministicValidationError err maximum =
     (case err of
        OtherError \<Rightarrow> ErrNew ''schema validation failed''
      | ValidationTree t \<Rightarrow> ValidationError (deterministic_violations t maximum))"

section \<open>The validator\<close>

record 's Compiled =
  co_schema :: 's
  co_limits :: SchemaLimits

text \<open>The cache, most recently used first: the list of the source with the map over it.\<close>

record 's Validator =
  va_limits :: SchemaLimits
  va_lru :: "(bytes \<times> 's Compiled) list"

definition NewValidator :: "SchemaLimits \<Rightarrow> 's Validator" where
  "NewValidator l = \<lparr>va_limits = normalized l, va_lru = []\<rparr>"

definition compile_document :: "(json \<Rightarrow> 's option) \<Rightarrow> SchemaLimits \<Rightarrow> string \<Rightarrow> 's Compiled result" where
  "compile_document library l raw =
     (case decodeJSON raw of
        Inl err \<Rightarrow> Inl (ErrTyped ''*fmt.wrapError'' [] (Error ErrMalformedSchema @ '': '' @ Error err) (Some ErrMalformedSchema))
      | Inr document \<Rightarrow>
          ensure (inspect document l True)
            (case library document of
               None \<Rightarrow> Inl ErrInvalidSchema
             | Some s \<Rightarrow> Inr \<lparr>co_schema = s, co_limits = l\<rparr>))"

definition Schema_Compile ::
  "(json \<Rightarrow> 's option) \<Rightarrow> string \<Rightarrow> 's Validator \<Rightarrow> 's Compiled result \<times> 's Validator" where
  "Schema_Compile library raw v =
     (if int (length raw) > sl_MaxSchemaBytes (va_limits v) then (Inl ErrSchemaTooLarge, v)
      else
        (let key = Sum256 (bytes_of_string raw) in
         case map_of (va_lru v) key of
           Some compiled \<Rightarrow>
             (Inr compiled, v\<lparr>va_lru := (key, compiled) # filter (\<lambda>x. fst x \<noteq> key) (va_lru v)\<rparr>)
         | None \<Rightarrow>
             (case compile_document library (va_limits v) raw of
                Inl err \<Rightarrow> (Inl err, v)
              | Inr compiled \<Rightarrow>
                  (Inr compiled,
                   v\<lparr>va_lru := take (nat (sl_MaxCacheEntries (va_limits v))) ((key, compiled) # va_lru v)\<rparr>))))"

definition CompileSchema :: "(json \<Rightarrow> 's option) \<Rightarrow> string \<Rightarrow> 's Validator \<Rightarrow> goerror option \<times> 's Validator" where
  "CompileSchema library raw v = (case Schema_Compile library raw v of (r, v') \<Rightarrow> (result_err r, v'))"

definition ValidateJSON :: "('s \<Rightarrow> json \<Rightarrow> library_error option) \<Rightarrow> 's Compiled \<Rightarrow> string \<Rightarrow> goerror option" where
  "ValidateJSON library compiled raw =
     (if int (length raw) > sl_MaxInstanceBytes (co_limits compiled) then Some ErrInstanceTooLarge
      else (case decodeJSON raw of
          Inl err \<Rightarrow> Some (ErrTyped ''*fmt.wrapError'' []
            (Error ErrMalformedInstance @ '': '' @ Error err) (Some ErrMalformedInstance))
        | Inr instance_value \<Rightarrow> first_err
            [inspect instance_value (co_limits compiled) False,
             map_option (\<lambda>err. deterministicValidationError err (sl_MaxErrors (co_limits compiled)))
               (library (co_schema compiled) instance_value)]))"

definition CacheLen :: "'s Validator \<Rightarrow> int" where
  "CacheLen v = int (length (va_lru v))"

section \<open>Inspection decides a recursive predicate\<close>

fun node_count :: "json \<Rightarrow> nat" where
  "node_count (JObject ms) = Suc (sum_list (map (\<lambda>(k, v). node_count v) ms))"
| "node_count (JArray vs) = Suc (sum_list (map node_count vs))"
| "node_count _ = 1"

fun within_limits :: "SchemaLimits \<Rightarrow> bool \<Rightarrow> int \<Rightarrow> json \<Rightarrow> bool" where
  "within_limits l doc d (JObject ms) \<longleftrightarrow> d \<le> sl_MaxDepth l \<and> int (length ms) \<le> sl_MaxObjectMembers l
     \<and> (\<forall>(k, v) \<in> set ms. \<not> external_member doc (k, v) \<and> within_limits l doc (d + 1) v)"
| "within_limits l doc d (JArray vs) \<longleftrightarrow> d \<le> sl_MaxDepth l \<and> (\<forall>v \<in> set vs. within_limits l doc (d + 1) v)"
| "within_limits l doc d (JString s) \<longleftrightarrow> d \<le> sl_MaxDepth l \<and> int (length s) \<le> sl_MaxStringBytes l"
| "within_limits l doc d _ \<longleftrightarrow> d \<le> sl_MaxDepth l"

abbreviation pending :: "(json \<times> int) list \<Rightarrow> nat" where
  "pending stack \<equiv> sum_list (map (\<lambda>(v, d). node_count v) stack)"

lemma node_count_pos: "0 < node_count v"
  by (cases v) simp_all

lemma pending_push: "pending (push vs d stack) = sum_list (map node_count vs) + pending stack"
  by (simp add: push_def rev_map [symmetric] o_def sum_list_rev)

lemma sum_list_snd: "sum_list (map node_count (map snd ms)) = sum_list (map (\<lambda>(k, v). node_count v) ms)"
  by (induction ms) auto

lemma set_push: "set (push vs d stack) = (\<lambda>v. (v, d + 1)) ` set vs \<union> set stack"
  by (auto simp: push_def)

lemma inspect_loop_None:
  "nodes \<le> sl_MaxNodes l \<Longrightarrow>
   inspect_loop l doc nodes stack = None \<longleftrightarrow>
     nodes + int (pending stack) \<le> sl_MaxNodes l \<and> (\<forall>(v, d) \<in> set stack. within_limits l doc d v)"
proof (induction l doc nodes stack rule: inspect_loop.induct)
  case (2 l doc nodes current depth stack)
  show ?case
  proof (cases "nodes + 1 > sl_MaxNodes l \<or> depth > sl_MaxDepth l")
    case True
    moreover have "within_limits l doc depth current \<Longrightarrow> depth \<le> sl_MaxDepth l" by (cases current) auto
    ultimately show ?thesis using node_count_pos [of current] by auto
  next
    case False
    then have ok: "nodes + 1 \<le> sl_MaxNodes l" "depth \<le> sl_MaxDepth l" by simp_all
    show ?thesis
    proof (cases current)
      case (JObject ms)
      show ?thesis
      proof (cases "int (length ms) > sl_MaxObjectMembers l \<or> list_ex (external_member doc) ms")
        case True
        with JObject False show ?thesis by (auto simp: list_ex_iff)
      next
        case small: False
        from "2.IH"(6) [OF False JObject] small ok(1)
        have "inspect_loop l doc (nodes + 1) (push (map snd ms) depth stack) = None \<longleftrightarrow>
            nodes + 1 + int (pending (push (map snd ms) depth stack)) \<le> sl_MaxNodes l
            \<and> (\<forall>(v, d) \<in> set (push (map snd ms) depth stack). within_limits l doc d v)" by simp
        moreover have "(\<forall>(v, d) \<in> set (push (map snd ms) depth stack). within_limits l doc d v) \<longleftrightarrow>
            (\<forall>(k, v) \<in> set ms. within_limits l doc (depth + 1) v) \<and> (\<forall>(v, d) \<in> set stack. within_limits l doc d v)"
          unfolding set_push by (simp add: ball_Un split_beta)
        ultimately show ?thesis
          using JObject False small ok unfolding pending_push sum_list_snd
          by (auto simp: list_ex_iff ac_simps)
      qed
    next
      case (JArray vs)
      from "2.IH"(5) [OF False JArray ok(1)] JArray False ok show ?thesis
        unfolding pending_push set_push by (auto simp: ac_simps)
    next
      case (JString s)
      from "2.IH"(4) [OF False JString] JString False ok show ?thesis by (auto simp: ac_simps)
    qed (use 2 False ok in \<open>auto simp: ac_simps\<close>)
  qed
qed simp

lemma normalized_pos:
  "0 < sl_MaxNodes (normalized l)" "0 < sl_MaxCacheEntries (normalized l)" "0 < sl_MaxDepth (normalized l)"
  "sl_MaxCacheEntries (normalized l) \<le> 1024" "sl_MaxNodes (normalized l) \<le> 10000" "sl_MaxDepth (normalized l) \<le> 64"
  by (auto simp: normalized_def Let_def limited_def DefaultSchemaLimits_def maximumCacheEntries_def)

section \<open>The cache of compiled schemas\<close>

definition compiled_from :: "(json \<Rightarrow> 's option) \<Rightarrow> SchemaLimits \<Rightarrow> bytes \<Rightarrow> 's Compiled \<Rightarrow> bool" where
  "compiled_from library l key c \<longleftrightarrow>
     (\<exists>raw. Sum256 (bytes_of_string raw) = key \<and> compile_document library l raw = Inr c)"

definition validator_ok :: "(json \<Rightarrow> 's option) \<Rightarrow> 's Validator \<Rightarrow> bool" where
  "validator_ok library v \<longleftrightarrow> distinct (map fst (va_lru v)) \<and> CacheLen v \<le> sl_MaxCacheEntries (va_limits v)
     \<and> (\<forall>(k, c) \<in> set (va_lru v). compiled_from library (va_limits v) k c)"

lemma compiled_fromI:
  "compile_document library l raw = Inr c \<Longrightarrow> compiled_from library l (Sum256 (bytes_of_string raw)) c"
  by (auto simp: compiled_from_def)

lemma compile_document_Inr:
  assumes "compile_document library l raw = Inr c"
  obtains document where "decodeJSON raw = Inr document" "inspect document l True = None"
    "library document = Some (co_schema c)" "co_limits c = l"
proof (cases "decodeJSON raw")
  case (Inr document)
  with assms show thesis
    by (intro that [of document]) (auto simp: compile_document_def split: option.splits)
qed (use assms in \<open>simp add: compile_document_def\<close>)

lemma compile_step:
  assumes "Schema_Compile library raw v = (r, v')" "validator_ok library v" "0 < sl_MaxCacheEntries (va_limits v)"
  shows "validator_ok library v' \<and> va_limits v' = va_limits v
    \<and> (\<forall>c. r = Inr c \<longrightarrow> compiled_from library (va_limits v) (Sum256 (bytes_of_string raw)) c)"
proof (cases "map_of (va_lru v) (Sum256 (bytes_of_string raw))")
  case None
  let ?entry = "\<lambda>c. (Sum256 (bytes_of_string raw), c) # va_lru v"
  have kept: "distinct (map fst (take n (?entry c)))" for n c
    using None assms(2) by (metis distinct_take take_map validator_ok_def map_of_eq_None_iff distinct.simps(2) list.simps(9) fst_conv set_map)
  show ?thesis
  proof (cases "compile_document library (va_limits v) raw")
    case (Inr c)
    let ?new = "take (nat (sl_MaxCacheEntries (va_limits v))) (?entry c)"
    have "list_all (\<lambda>(k, x). compiled_from library (va_limits v) k x) ?new"
      unfolding list_all_iff using assms(2) compiled_fromI [OF Inr] by (auto simp: validator_ok_def dest!: in_set_takeD)
    moreover have "length ?new \<le> nat (sl_MaxCacheEntries (va_limits v))" by simp
    moreover note kept [of "nat (sl_MaxCacheEntries (va_limits v))" c]
    ultimately have "validator_ok library (v\<lparr>va_lru := ?new\<rparr>)"
      using assms(3) by (simp add: validator_ok_def CacheLen_def list_all_iff del: take_Cons)
    with None Inr assms(1, 2) compiled_fromI [OF Inr] show ?thesis
      by (auto simp: Schema_Compile_def Let_def simp del: take_Cons split: if_splits)
  qed (use None assms in \<open>auto simp: Schema_Compile_def Let_def split: if_splits\<close>)
next
  case (Some c)
  let ?key = "Sum256 (bytes_of_string raw)"
  have "length (filter (\<lambda>x. fst x \<noteq> ?key) (va_lru v)) < length (va_lru v)"
    using map_of_SomeD [OF Some] by (intro length_filter_less [of "(?key, c)"]) auto
  moreover have "distinct (map fst (filter P (va_lru v)))" for P
    using assms(2) by (simp add: validator_ok_def distinct_map inj_on_def)
  ultimately show ?thesis
    using Some assms map_of_SomeD [OF Some]
    by (auto simp: Schema_Compile_def Let_def validator_ok_def CacheLen_def split: if_splits)
qed

lemma compile_steps:
  "validator_ok library v \<Longrightarrow> 0 < sl_MaxCacheEntries (va_limits v) \<Longrightarrow>
     validator_ok library (foldl (\<lambda>v raw. snd (Schema_Compile library raw v)) v raws)
     \<and> va_limits (foldl (\<lambda>v raw. snd (Schema_Compile library raw v)) v raws) = va_limits v"
proof (induction raws arbitrary: v)
  case (Cons raw raws)
  obtain r v' where "Schema_Compile library raw v = (r, v')" by fastforce
  with compile_step [OF this Cons.prems] Cons.IH [of v'] Cons.prems show ?case by simp
qed simp

section \<open>Properties\<close>

text \<open>
  C35. The inspection with an explicit stack, which stops at the first excess, accepts a document exactly
  when the whole document has at most the allowed number of nodes and every value in it is within the
  depth, member and string limits and, in a schema, every reference is a local fragment. The order in
  which members are visited does not matter.
\<close>

theorem inspect_decides_limits:
  "0 \<le> sl_MaxNodes l \<Longrightarrow>
   inspect root l doc = None \<longleftrightarrow> int (node_count root) \<le> sl_MaxNodes l \<and> within_limits l doc 1 root"
  using inspect_loop_None [of 0 l doc "[(root, 1)]"] by (simp add: inspect_def del: inspect_loop.simps)

theorem inspect_decides_limits_witness:
  "inspect (JObject [(''$ref'', JString ''http://x'')]) DefaultSchemaLimits True \<noteq> None
   \<and> inspect (JObject [(''$ref'', JString ''#/a'')]) DefaultSchemaLimits True = None"
proof -
  have "0 \<le> sl_MaxNodes DefaultSchemaLimits" by (simp add: DefaultSchemaLimits_def)
  from inspect_decides_limits [OF this, of "JObject [(''$ref'', JString ''http://x'')]" True]
    inspect_decides_limits [OF this, of "JObject [(''$ref'', JString ''#/a'')]" True]
  show ?thesis by (simp add: external_member_def local_reference_def DefaultSchemaLimits_def)
qed



end
