(* ===== verification/Pg_Driver.thy ===== *)
theory Pg_Driver
  imports Domain_Errors
begin

text \<open>
  The edge of the PostgreSQL adapter: what a statement sent through the driver can answer, error
  classification (\<open>internal/adapters/postgres/errors.go\<close>), the transaction runner
  (\<open>transaction.go\<close>) and the tenant guard around repository SQL (\<open>tenant_scope.go\<close>).

  A connection holds the database state and the list of outcomes the driver has in store for the
  coming calls. A call is answered, refused (the server did nothing and the caller sees an error:
  lost connection, deadline, serialization failure, a value the column type rejects) or lost (the
  server did the work but the caller sees an error). Every operation is a function of that list, so a
  theorem about all connections is a theorem about every pattern of failures. Statements and
  transactions are atomic steps: the sources take the row locks that make them so.
\<close>

section \<open>Driver calls\<close>

datatype failure = ServerError string | NetworkError | ContextCanceled | ContextDeadline | TxClosed

datatype outcome = Answered | Refused failure | Lost failure

record 't conn =
  conn_db :: 't
  conn_outcomes :: "outcome list"

type_synonym ('t, 'a) action = "'t conn \<Rightarrow> 'a result \<times> 't conn"

definition next_outcome :: "'t conn \<Rightarrow> outcome \<times> 't conn" where
  "next_outcome c =
     (case conn_outcomes c of
        [] \<Rightarrow> (Answered, c)
      | out # outs \<Rightarrow> (out, c\<lparr>conn_outcomes := outs\<rparr>))"

definition ErrNoRows :: goerror where
  "ErrNoRows = ErrVar ''pgx.ErrNoRows'' ''no rows in result set''"

definition ErrTxClosed :: goerror where
  "ErrTxClosed = ErrVar ''pgx.ErrTxClosed'' ''tx is closed''"

definition PgError :: "string \<Rightarrow> goerror" where
  "PgError code = ErrTyped ''*pgconn.PgError'' code (''SQLSTATE '' @ code) None"

fun failure_error :: "failure \<Rightarrow> goerror" where
  "failure_error (ServerError code) = PgError code"
| "failure_error NetworkError = ErrTyped ''net.Error'' [] ''connection failed'' None"
| "failure_error ContextCanceled = context_Canceled"
| "failure_error ContextDeadline = context_DeadlineExceeded"
| "failure_error TxClosed = ErrTxClosed"

text \<open>One \<open>Exec\<close>, \<open>Query\<close> or \<open>QueryRow\<close>, the statement being a function on the database.\<close>

definition statement :: "('t \<Rightarrow> 'a result \<times> 't) \<Rightarrow> ('t, 'a) action" where
  "statement q c =
     (let (out, d) = next_outcome c; (r, t) = q (conn_db d) in
      case out of
        Answered \<Rightarrow> (r, d\<lparr>conn_db := t\<rparr>)
      | Refused e \<Rightarrow> (Inl (failure_error e), d)
      | Lost e \<Rightarrow> (Inl (failure_error e), d\<lparr>conn_db := t\<rparr>))"

definition act_return :: "'a result \<Rightarrow> ('t, 'a) action" where
  "act_return r c = (r, c)"

definition act_bind :: "('t, 'a) action \<Rightarrow> ('a \<Rightarrow> ('t, 'b) action) \<Rightarrow> ('t, 'b) action" where
  "act_bind m f c = (case m c of (Inl e, d) \<Rightarrow> (Inl e, d) | (Inr a, d) \<Rightarrow> f a d)"

definition act_map_error :: "(goerror \<Rightarrow> goerror) \<Rightarrow> ('t, 'a) action \<Rightarrow> ('t, 'a) action" where
  "act_map_error g m c = (case m c of (r, d) \<Rightarrow> (map_error g r, d))"

definition unique_violation :: goerror where "unique_violation = PgError ''23505''"
definition foreign_key_violation :: goerror where "foreign_key_violation = PgError ''23503''"
definition check_violation :: goerror where "check_violation = PgError ''23514''"

definition repositoryError :: "string \<Rightarrow> goerror \<Rightarrow> goerror" where
  "repositoryError operation err =
     (if errors_Is err ErrNoRows then NewError CodeNotFound operation (Some err)
      else ErrWrap operation err)"

lemma failure_not_NoRows [simp]: "\<not> errors_Is (failure_error e) ErrNoRows"
  by (cases e) (simp_all add: PgError_def ErrNoRows_def ErrTxClosed_def context_Canceled_def
      context_DeadlineExceeded_def)

lemma ErrNoRows_Is [simp]: "errors_Is ErrNoRows ErrNoRows"
  by (simp add: ErrNoRows_def)

lemma PgError_not_NoRows [simp]: "\<not> errors_Is (PgError code) t"
  by (simp add: PgError_def)

lemma act_bind_Inr:
  "act_bind m f c = (Inr b, d) \<longleftrightarrow> (\<exists>a c'. m c = (Inr a, c') \<and> f a c' = (Inr b, d))"
  by (auto simp: act_bind_def split: prod.splits sum.splits)

lemma act_map_error_Inr: "act_map_error g m c = (Inr a, d) \<longleftrightarrow> m c = (Inr a, d)"
  by (auto simp: act_map_error_def split: prod.splits)

lemma next_outcome_db [simp]: "next_outcome c = (out, d) \<Longrightarrow> conn_db d = conn_db c"
  by (auto simp: next_outcome_def split: list.splits)

lemma statement_Inr:
  assumes "statement q c = (Inr a, d)"
  shows "q (conn_db c) = (Inr a, conn_db d)"
  using assms by (auto simp: statement_def split: prod.splits outcome.splits)

text \<open>Whatever the driver answers, a statement has its effect or none.\<close>

lemma statement_effect:
  assumes "statement q c = (r, d)"
  shows "conn_db d = conn_db c \<or> conn_db d = snd (q (conn_db c))"
  using assms by (auto simp: statement_def split: prod.splits outcome.splits)

lemma statement_NoRows:
  assumes "statement q c = (Inl e, d)" "errors_Is e ErrNoRows"
  shows "q (conn_db c) = (Inl e, conn_db d)"
  using assms by (auto simp: statement_def split: prod.splits outcome.splits)

lemma statement_answered [simp]:
  "conn_outcomes c = [] \<Longrightarrow>
     statement q c = (fst (q (conn_db c)), c\<lparr>conn_db := snd (q (conn_db c))\<rparr>)"
  by (simp add: statement_def next_outcome_def split: prod.splits)

section \<open>Error classification\<close>

datatype ErrorClass =
  ErrorNone | ErrorCanceled | ErrorDeadline | ErrorSerialization | ErrorDeadlock
  | ErrorConnection | ErrorConstraint | ErrorOther

text \<open>
  \<open>pgconn.SafeToRetry\<close> is the driver's own judgement, a parameter. A network error is any error
  with \<open>Timeout\<close> and \<open>Temporary\<close> methods, among them \<open>context.DeadlineExceeded\<close>.
\<close>

definition ClassifyError :: "(goerror \<Rightarrow> bool) \<Rightarrow> goerror option \<Rightarrow> ErrorClass" where
  "ClassifyError SafeToRetry failure =
     (case failure of None \<Rightarrow> ErrorNone | Some err \<Rightarrow>
      if errors_Is err context_Canceled then ErrorCanceled
      else if errors_Is err context_DeadlineExceeded then ErrorDeadline
      else
        let general = (if errors_As_typed ''net.Error'' err \<noteq> None then ErrorConnection
                       else if SafeToRetry err then ErrorConnection else ErrorOther) in
        case errors_As_typed ''*pgconn.PgError'' err of
          None \<Rightarrow> general
        | Some code \<Rightarrow>
            if code = ''40001'' then ErrorSerialization
            else if code = ''40P01'' then ErrorDeadlock
            else if code \<in> set [''57P01'', ''57P02'', ''57P03''] then ErrorConnection
            else if length code \<ge> 2 \<and> take 2 code = ''23'' then ErrorConstraint
            else if length code \<ge> 2 \<and> take 2 code = ''08'' then ErrorConnection
            else general)"

definition IsRetriable :: "(goerror \<Rightarrow> bool) \<Rightarrow> goerror option \<Rightarrow> bool" where
  "IsRetriable SafeToRetry err \<longleftrightarrow>
     (case ClassifyError SafeToRetry err of
        ErrorSerialization \<Rightarrow> True | ErrorDeadlock \<Rightarrow> True | ErrorConnection \<Rightarrow> True
      | _ \<Rightarrow> False)"

text \<open>A violated constraint and an expired or cancelled request are never retried.\<close>

lemma constraint_not_retriable:
  assumes "errors_As_typed ''*pgconn.PgError'' err = Some (CHR ''2'' # CHR ''3'' # rest)"
  shows "\<not> IsRetriable SafeToRetry (Some err)"
  using assms by (simp add: IsRetriable_def ClassifyError_def)

section \<open>Transactions\<close>

record Transactor =
  tx_timeout :: duration
  tx_rollbackTimeout :: duration

definition NewTransactorWithTimeout ::
  "'b option \<Rightarrow> duration \<Rightarrow> duration \<Rightarrow> Transactor result" where
  "NewTransactorWithTimeout beginner timeout rollbackTimeout =
     ensure (first_err
       [fail_if (beginner = None) (ErrNew ''postgres transaction beginner is required''),
        fail_if (timeout \<le> 0 \<or> rollbackTimeout \<le> 0)
          (ErrNew ''postgres transaction timeouts must be positive'')])
       (Inr \<lparr>tx_timeout = timeout, tx_rollbackTimeout = rollbackTimeout\<rparr>)"

definition NewTransactor :: "'b option \<Rightarrow> Transactor result" where
  "NewTransactor beginner = NewTransactorWithTimeout beginner (30 * Second) (5 * Second)"

definition joinRollbackError :: "goerror \<Rightarrow> goerror option \<Rightarrow> goerror" where
  "joinRollbackError primary rollback =
     (case rollback of
        None \<Rightarrow> primary
      | Some err \<Rightarrow>
          if errors_Is err ErrTxClosed then primary
          else ErrJoin [primary, ErrWrap ''rollback postgres transaction'' err])"

text \<open>
  Rolling back restores the state the transaction began with, whatever the call answers: a
  transaction that is not committed leaves nothing behind.
\<close>

definition tx_rollback :: "'t \<Rightarrow> goerror \<Rightarrow> ('t, 'a) action" where
  "tx_rollback before primary c =
     (let (out, d) = next_outcome c in
      (Inl (joinRollbackError primary
         (case out of Answered \<Rightarrow> None | Refused e \<Rightarrow> Some (failure_error e)
            | Lost e \<Rightarrow> Some (failure_error e))),
       d\<lparr>conn_db := before\<rparr>))"

definition WithinTransaction :: "('t, 'a) action \<Rightarrow> ('t, 'a) action" where
  "WithinTransaction fn c =
     (let (out, d) = next_outcome c in
      case out of
        Refused e \<Rightarrow> (Inl (ErrWrap ''begin postgres transaction'' (failure_error e)), d)
      | Lost e \<Rightarrow> (Inl (ErrWrap ''begin postgres transaction'' (failure_error e)), d)
      | Answered \<Rightarrow>
          (case fn d of
             (Inl e, f) \<Rightarrow> tx_rollback (conn_db d) e f
           | (Inr a, f) \<Rightarrow>
               (let (out', g) = next_outcome f in
                case out' of
                  Answered \<Rightarrow> (Inr a, g)
                | Refused e \<Rightarrow> tx_rollback (conn_db d) (ErrWrap ''commit postgres transaction'' (failure_error e)) g
                | Lost e \<Rightarrow> tx_rollback (conn_db g) (ErrWrap ''commit postgres transaction'' (failure_error e)) g)))"

lemma WithinTransaction_Inr:
  assumes "WithinTransaction fn c = (Inr a, d)"
  obtains c' d' where "conn_db c' = conn_db c" "fn c' = (Inr a, d')" "conn_db d = conn_db d'"
proof -
  obtain o1 c' where c': "next_outcome c = (o1, c')" by fastforce
  obtain r d' where fn: "fn c' = (r, d')" by fastforce
  from assms c' fn have "o1 = Answered" "r = Inr a" "conn_db d = conn_db d'"
    by (auto simp: WithinTransaction_def tx_rollback_def split: outcome.splits sum.splits prod.splits)
  with c' fn show ?thesis by (intro that [of c' d']) auto
qed

text \<open>
  All or nothing: after \<open>WithinTransaction\<close> the database is either untouched or what a successful
  callback left. The second is possible together with an error only when the answer to the commit
  was lost.
\<close>

lemma WithinTransaction_effect:
  assumes "WithinTransaction fn c = (r, d)"
  obtains "conn_db d = conn_db c" "\<exists>e. r = Inl e"
  | c' a d' where "conn_db c' = conn_db c" "fn c' = (Inr a, d')" "conn_db d = conn_db d'"
proof -
  obtain o1 c' where c': "next_outcome c = (o1, c')" by fastforce
  obtain s d' where fn: "fn c' = (s, d')" by fastforce
  from c' have db: "conn_db c' = conn_db c" by simp
  from assms c' fn db
  have "(conn_db d = conn_db c \<and> (\<exists>e. r = Inl e)) \<or> (\<exists>a. s = Inr a \<and> conn_db d = conn_db d')"
    by (auto simp: WithinTransaction_def tx_rollback_def split: outcome.splits sum.splits prod.splits)
  with db fn that show ?thesis by blast
qed

lemma WithinTransaction_answered [simp]:
  assumes "conn_outcomes c = []"
  shows "WithinTransaction fn c =
    (case fn c of
       (Inl e, f) \<Rightarrow> tx_rollback (conn_db c) e f
     | (Inr a, f) \<Rightarrow>
         (let (out', g) = next_outcome f in
          case out' of
            Answered \<Rightarrow> (Inr a, g)
          | Refused e \<Rightarrow> tx_rollback (conn_db c) (ErrWrap ''commit postgres transaction'' (failure_error e)) g
          | Lost e \<Rightarrow> tx_rollback (conn_db g) (ErrWrap ''commit postgres transaction'' (failure_error e)) g))"
  using assms by (simp add: WithinTransaction_def next_outcome_def)

section \<open>The tenant guard\<close>

definition strings_Contains :: "string \<Rightarrow> string \<Rightarrow> bool" where
  "strings_Contains s sub = list_ex (\<lambda>i. HasPrefix (drop i s) sub) [0 ..< length s + 1]"

datatype sql_argument = ArgString string | ArgOther

definition errUnsafeTenantQuery :: goerror where
  "errUnsafeTenantQuery = ErrVar ''errUnsafeTenantQuery''
     ''postgres tenant query must reference tenant_id and bind the repository tenant as $1''"

definition tenant_safe :: "string \<Rightarrow> string \<Rightarrow> sql_argument list \<Rightarrow> bool" where
  "tenant_safe tenantID sql arguments =
     (if \<not> strings_Contains (ToLower sql) ''tenant_id'' \<or> \<not> strings_Contains sql ''$1''
         \<or> arguments = [] then False
      else hd arguments = ArgString tenantID)"

definition tenant_scoped ::
  "string \<Rightarrow> string \<Rightarrow> sql_argument list \<Rightarrow> ('t, 'a) action \<Rightarrow> ('t, 'a) action" where
  "tenant_scoped tenantID sql arguments call =
     (if tenant_safe tenantID sql arguments then call else act_return (Inl errUnsafeTenantQuery))"

text \<open>A statement of another tenant, or one that binds no tenant, never reaches the database.\<close>

lemma tenant_scoped_other:
  assumes "hd arguments \<noteq> ArgString tenantID \<or> arguments = []"
  shows "tenant_scoped tenantID sql arguments call c = (Inl errUnsafeTenantQuery, c)"
  using assms by (auto simp: tenant_scoped_def tenant_safe_def act_return_def)

end
