(* ===== verification/Pg_Tables.thy ===== *)
theory Pg_Tables
  imports Pg_Driver Tool_Catalog "HOL-Library.AList"
begin

text \<open>
  The tenant tables of \<open>internal/adapters/postgres/migrations/sql\<close> and the row types of
  \<open>repositories.go\<close>. A table is an association list from its primary key; a row carries the other
  columns. The constraints the properties rest on are boolean functions checked by every insert and
  update; a value a column type rejects (encoding, \<open>uuid\<close> syntax, integer range, \<open>jsonb_typeof\<close>) is a
  refused statement of the driver. The server rewrites \<open>jsonb\<close> texts and rounds \<open>timestamptz\<close> values:
  both functions are parameters, fields of the database state.
\<close>

record server =
  sv_jsonb :: "string \<Rightarrow> string"
  sv_timestamptz :: "instant \<Rightarrow> instant"

section \<open>Row types\<close>

record pg_ToolVersion =
  ptv_ToolID :: string
  ptv_Version :: string
  ptv_State :: string
  ptv_Definition :: string
  ptv_DefinitionDigest :: bytes
  ptv_PublishedAt :: "instant option"

record ConnectorInstance =
  ci_ID :: string
  ci_Type :: string
  ci_DestinationConfig :: string
  ci_ConfigDigest :: bytes
  ci_Enabled :: bool
  ci_CreatedAt :: instant
  ci_UpdatedAt :: instant

record pg_CredentialBinding =
  pcb_ID :: string
  pcb_ConnectorInstanceID :: string
  pcb_ProviderRef :: string
  pcb_CapabilityMetadata :: string
  pcb_Enabled :: bool
  pcb_CreatedAt :: instant
  pcb_UpdatedAt :: instant

record Invocation =
  inv_ID :: string
  inv_RunID :: string
  inv_ToolCallID :: string
  inv_ToolID :: string
  inv_ToolVersion :: string
  inv_ArgumentProfile :: string
  inv_ArgumentDigest :: bytes
  inv_ResourceDigest :: bytes
  inv_ResourceProjection :: string
  inv_RetryClass :: string
  inv_State :: string
  inv_StateVersion :: int
  inv_TerminalCode :: "string option"
  inv_TerminalAt :: "instant option"
  inv_CreatedAt :: instant
  inv_UpdatedAt :: instant

record Attempt =
  att_InvocationID :: string
  att_AttemptNo :: int
  att_Fence :: int
  att_OwnerID :: "string option"
  att_ClaimedAt :: "instant option"
  att_LeaseExpiresAt :: "instant option"
  att_DownstreamRequestRef :: "string option"
  att_DownstreamResultRef :: "string option"
  att_OutcomeClassification :: "string option"
  att_RetryClassification :: "string option"
  att_AmbiguityClassification :: "string option"
  att_Evidence :: string
  att_StartedAt :: instant
  att_FinishedAt :: "instant option"

record pg_AuthorizationDecision =
  pad_InvocationID :: string
  pad_DecisionID :: string
  pad_ContextDigest :: bytes
  pad_ArgumentDigest :: bytes
  pad_ResourceDigest :: bytes
  pad_Outcome :: string
  pad_PolicyRef :: string
  pad_Constraints :: string
  pad_IssuedAt :: instant
  pad_ExpiresAt :: instant
  pad_RecordedAt :: instant
  pad_RevocationCheckpoint :: "string option"

record GREvaluation =
  gr_InvocationID :: string
  gr_EvaluationID :: string
  gr_Phase :: string
  gr_ContentDigest :: bytes
  gr_TransformedContentDigest :: "bytes option"
  gr_Decision :: string
  gr_PolicyRef :: string
  gr_SafeMetadata :: string
  gr_CreatedAt :: instant

record ActionApproval =
  aa_InvocationID :: string
  aa_ApprovalID :: string
  aa_ApprovalRef :: string
  aa_BindingDigest :: bytes
  aa_ArgumentDigest :: bytes
  aa_ResourceDigest :: bytes
  aa_AuthorizationDecisionID :: string
  aa_Status :: string
  aa_IssuedAt :: instant
  aa_ExpiresAt :: instant
  aa_ConsumedAt :: "instant option"
  aa_RevocationCheckpoint :: "string option"

record ExecutionResult =
  er_InvocationID :: string
  er_AttemptNo :: "int option"
  er_Fence :: "int option"
  er_ConnectorInstanceID :: "string option"
  er_CredentialBindingID :: "string option"
  er_ResultDigest :: "bytes option"
  er_SafeResult :: "string option"
  er_Classification :: string
  er_DownstreamResultRef :: "string option"
  er_DataClassification :: string
  er_CreatedAt :: instant

record UsageEvent =
  ue_EventID :: string
  ue_InvocationID :: string
  ue_AccountingKey :: string
  ue_Dimension :: string
  ue_Quantity :: string
  ue_Unit :: string
  ue_Attributes :: string
  ue_OccurredAt :: instant
  ue_RecordedAt :: instant

record AuditEvent =
  ae_EventID :: string
  ae_InvocationID :: "string option"
  ae_EventType :: string
  ae_EvidenceProfile :: string
  ae_ActorClass :: string
  ae_ActorRef :: "string option"
  ae_Outcome :: string
  ae_ReasonCode :: "string option"
  ae_Correlation :: string
  ae_SafePayload :: string
  ae_PayloadDigest :: bytes
  ae_OccurredAt :: instant
  ae_RecordedAt :: instant

record OutboxMessage =
  om_ID :: string
  om_EventID :: string
  om_Topic :: string
  om_EventType :: string
  om_SafePayload :: string
  om_PayloadDigest :: bytes
  om_CreatedAt :: instant
  om_AvailableAt :: instant

text \<open>The delivery columns the publisher maintains beside the enqueued message.\<close>

record outbox_row = OutboxMessage +
  ob_claim_owner :: "string option"
  ob_claim_until :: "instant option"
  ob_attempt_count :: int
  ob_last_error_class :: "string option"
  ob_last_error_at :: "instant option"
  ob_published_at :: "instant option"
  ob_publication_ref :: "string option"
  ob_dead_lettered_at :: "instant option"
  ob_dead_letter_reason :: "string option"

record idempotency_row =
  ir_invocation_id :: "string option"
  ir_request_digest :: bytes
  ir_state :: string
  ir_claim_owner :: "string option"
  ir_claim_expires_at :: "instant option"
  ir_replay_status_code :: "int option"
  ir_replay_result_digest :: "bytes option"
  ir_safe_replay_payload :: "string option"
  ir_created_at :: instant
  ir_updated_at :: instant
  ir_expires_at :: instant
  ir_recovery_count :: int
  ir_max_recoveries :: int

record tables =
  t_server :: server
  t_tenants :: "string list"
  t_tools :: "string list"
  t_tool_versions :: "((string \<times> string) \<times> pg_ToolVersion) list"
  t_exposures :: "((string \<times> string \<times> string) \<times> bool \<times> instant) list"
  t_connector_instances :: "((string \<times> string) \<times> ConnectorInstance) list"
  t_credential_bindings :: "((string \<times> string) \<times> pg_CredentialBinding) list"
  t_invocations :: "((string \<times> string) \<times> Invocation) list"
  t_attempts :: "((string \<times> string \<times> int) \<times> Attempt) list"
  t_decisions :: "((string \<times> string \<times> string) \<times> pg_AuthorizationDecision) list"
  t_evaluations :: "((string \<times> string \<times> string) \<times> GREvaluation) list"
  t_approvals :: "((string \<times> string \<times> string) \<times> ActionApproval) list"
  t_results :: "((string \<times> string) \<times> ExecutionResult) list"
  t_usage :: "((string \<times> string) \<times> UsageEvent) list"
  t_audit :: "((string \<times> string) \<times> AuditEvent) list"
  t_idempotency :: "((string \<times> string \<times> string) \<times> idempotency_row) list"
  t_outbox :: "((string \<times> string) \<times> outbox_row) list"

abbreviation jsonb :: "tables \<Rightarrow> string \<Rightarrow> string" where
  "jsonb db \<equiv> sv_jsonb (t_server db)"

abbreviation timestamptz :: "tables \<Rightarrow> instant \<Rightarrow> instant" where
  "timestamptz db \<equiv> sv_timestamptz (t_server db)"

section \<open>Statements\<close>

definition query_one :: "('t \<Rightarrow> 'a option) \<Rightarrow> 't \<Rightarrow> 'a result \<times> 't" where
  "query_one q db = (case q db of None \<Rightarrow> Inl ErrNoRows | Some a \<Rightarrow> Inr a, db)"

text \<open>\<open>Exec\<close> answers the number of rows the statement affected.\<close>

definition exec :: "('t \<Rightarrow> (nat \<times> 't) result) \<Rightarrow> 't \<Rightarrow> nat result \<times> 't" where
  "exec f db = (case f db of Inl e \<Rightarrow> (Inl e, db) | Inr (n, t) \<Rightarrow> (Inr n, t))"

text \<open>An \<open>INSERT\<close> checks the primary key, the other constraints of the row, and appends it.\<close>

definition insert_row ::
  "'k \<Rightarrow> 'r \<Rightarrow> goerror option list \<Rightarrow> ('k \<times> 'r) list \<Rightarrow> ('k \<times> 'r) list result" where
  "insert_row key row constraints tbl =
     ensure (first_err (fail_if (map_of tbl key \<noteq> None) unique_violation # constraints))
       (Inr (tbl @ [(key, row)]))"

definition unit_of :: "('t, nat) action \<Rightarrow> ('t, unit) action" where
  "unit_of m = act_bind m (\<lambda>_. act_return (Inr ()))"

text \<open>An \<open>UPDATE\<close> of the row with a given primary key, when it satisfies the \<open>WHERE\<close> clause.\<close>

definition update_row ::
  "'k \<Rightarrow> ('r \<Rightarrow> bool) \<Rightarrow> ('r \<Rightarrow> 'r) \<Rightarrow> ('r \<Rightarrow> bool) \<Rightarrow> ('k \<times> 'r) list \<Rightarrow> (nat \<times> ('k \<times> 'r) list) result" where
  "update_row key cond f check tbl =
     (case map_of tbl key of
        None \<Rightarrow> Inr (0, tbl)
      | Some row \<Rightarrow>
          if \<not> cond row then Inr (0, tbl)
          else if check (f row) then Inr (1, AList.update key (f row) tbl)
          else Inl check_violation)"

lemma exec_simps [simp]:
  "exec f db = (Inr n, t) \<longleftrightarrow> f db = Inr (n, t)"
  "exec f db = (Inl e, t) \<longleftrightarrow> f db = Inl e \<and> t = db"
  by (auto simp: exec_def split: sum.splits prod.splits)

lemma exec_snd: "snd (exec f db) = (case f db of Inl e \<Rightarrow> db | Inr (n, t) \<Rightarrow> t)"
  by (auto simp: exec_def split: sum.splits prod.splits)

lemma query_one_snd [simp]: "snd (query_one q db) = db"
  by (simp add: query_one_def)

lemma query_one_simps [simp]:
  "query_one q db = (Inr a, t) \<longleftrightarrow> q db = Some a \<and> t = db"
  "query_one q db = (Inl e, t) \<longleftrightarrow> q db = None \<and> e = ErrNoRows \<and> t = db"
  by (auto simp: query_one_def split: option.splits)

lemma insert_row_Inr:
  "insert_row key row cs tbl = Inr tbl' \<longleftrightarrow>
     map_of tbl key = None \<and> (\<forall>c \<in> set cs. c = None) \<and> tbl' = tbl @ [(key, row)]"
  by (auto simp: insert_row_def)

lemma insert_row_lookup:
  "insert_row key row cs tbl = Inr tbl' \<Longrightarrow> map_of tbl' = (map_of tbl)(key \<mapsto> row)"
  by (auto simp: insert_row_Inr map_of_append map_add_def split: option.splits)

lemma update_row_Inr:
  "update_row key cond f check tbl = Inr (n, tbl') \<longleftrightarrow>
     (case map_of tbl key of
        None \<Rightarrow> n = 0 \<and> tbl' = tbl
      | Some row \<Rightarrow>
          if cond row then check (f row) \<and> n = 1 \<and> tbl' = AList.update key (f row) tbl
          else n = 0 \<and> tbl' = tbl)"
  by (auto simp: update_row_def split: option.splits)

lemma update_row_lookup:
  assumes "update_row key cond f check tbl = Inr (n, tbl')"
  shows "map_of tbl' = map_of tbl \<and> n = 0
    \<or> (\<exists>row. map_of tbl key = Some row \<and> cond row \<and> check (f row) \<and> n = 1
        \<and> map_of tbl' = (map_of tbl)(key \<mapsto> f row))"
  using assms by (auto simp: update_row_Inr AList.update_conv' split: option.splits if_splits)

section \<open>Constraints\<close>

definition idempotency_ok :: "idempotency_row \<Rightarrow> bool" where
  "idempotency_ok r \<longleftrightarrow>
     length (ir_request_digest r) = 32
     \<and> ir_state r \<in> set [''claimed'', ''completed'', ''conflict'', ''expired'']
     \<and> (case ir_replay_status_code r of None \<Rightarrow> True | Some n \<Rightarrow> 100 \<le> n \<and> n \<le> 599)
     \<and> (case ir_replay_result_digest r of None \<Rightarrow> True | Some d \<Rightarrow> length d = 32)
     \<and> (case ir_claim_owner r of None \<Rightarrow> ir_claim_expires_at r = None
        | Some w \<Rightarrow> w \<noteq> [] \<and> ir_claim_expires_at r \<noteq> None)
     \<and> (ir_state r = ''completed'' \<longrightarrow> ir_invocation_id r \<noteq> None
          \<and> ir_replay_status_code r \<noteq> None \<and> ir_replay_result_digest r \<noteq> None)
     \<and> ir_updated_at r \<ge> ir_created_at r
     \<and> ir_expires_at r > ir_created_at r
     \<and> 0 \<le> ir_recovery_count r \<and> 0 \<le> ir_max_recoveries r
     \<and> ir_recovery_count r \<le> ir_max_recoveries r"

definition terminal_states :: "string list" where
  "terminal_states = [''succeeded'', ''failed'', ''denied'', ''blocked'', ''cancelled'']"

definition invocation_states :: "string list" where
  "invocation_states =
     [''received'', ''validated'', ''authorized'', ''pre_tool_passed'', ''waiting_for_approval'',
      ''ready'', ''executing'', ''retry_wait'', ''reconciling'', ''ambiguous'', ''manual_review'',
      ''post_tool''] @ terminal_states"

definition invocation_ok :: "Invocation \<Rightarrow> bool" where
  "invocation_ok v \<longleftrightarrow>
     inv_RunID v \<noteq> [] \<and> inv_ToolCallID v \<noteq> [] \<and> inv_ArgumentProfile v \<noteq> []
     \<and> length (inv_ArgumentDigest v) = 32 \<and> length (inv_ResourceDigest v) = 32
     \<and> validRetry (inv_RetryClass v)
     \<and> inv_State v \<in> set invocation_states
     \<and> inv_StateVersion v \<ge> 0
     \<and> inv_UpdatedAt v \<ge> inv_CreatedAt v
     \<and> (if inv_State v \<in> set terminal_states
        then (case inv_TerminalCode v of None \<Rightarrow> False | Some c \<Rightarrow> c \<noteq> [])
             \<and> (case inv_TerminalAt v of None \<Rightarrow> False | Some at \<Rightarrow> at \<ge> inv_CreatedAt v)
        else inv_TerminalCode v = None \<and> inv_TerminalAt v = None)"

definition attempt_ok :: "Attempt \<Rightarrow> bool" where
  "attempt_ok v \<longleftrightarrow>
     att_AttemptNo v > 0 \<and> att_Fence v > 0
     \<and> (case att_OutcomeClassification v of None \<Rightarrow> True
        | Some s \<Rightarrow> s \<in> set [''not_sent'', ''definitely_rejected'', ''confirmed_success'',
                            ''transient_safe'', ''unknown''])
     \<and> (case att_RetryClassification v of None \<Rightarrow> True
        | Some s \<Rightarrow> s \<in> set [''not_retryable'', ''retry_safe'', ''reconcile_required'',
                            ''manual_review_required''])
     \<and> (case att_AmbiguityClassification v of None \<Rightarrow> True
        | Some s \<Rightarrow> s \<in> set [''none'', ''possibly_applied'', ''provider_state_unknown'',
                            ''evidence_conflict''])
     \<and> (case (att_OwnerID v, att_ClaimedAt v, att_LeaseExpiresAt v) of
          (None, None, None) \<Rightarrow> True
        | (Some w, Some c, Some l) \<Rightarrow> w \<noteq> [] \<and> l > c
        | _ \<Rightarrow> False)
     \<and> (case att_FinishedAt v of None \<Rightarrow> att_OutcomeClassification v = None
        | Some f \<Rightarrow> f \<ge> att_StartedAt v \<and> att_OutcomeClassification v \<noteq> None)
     \<and> (att_OutcomeClassification v = Some ''unknown'' \<longrightarrow> att_AmbiguityClassification v \<noteq> None)"

definition decision_ok :: "pg_AuthorizationDecision \<Rightarrow> bool" where
  "decision_ok v \<longleftrightarrow>
     pad_DecisionID v \<noteq> [] \<and> length (pad_ContextDigest v) = 32
     \<and> length (pad_ArgumentDigest v) = 32 \<and> length (pad_ResourceDigest v) = 32
     \<and> pad_Outcome v \<in> set [''allow'', ''deny''] \<and> pad_PolicyRef v \<noteq> []
     \<and> pad_ExpiresAt v > pad_IssuedAt v \<and> pad_RevocationCheckpoint v \<noteq> Some []"

definition evaluation_ok :: "GREvaluation \<Rightarrow> bool" where
  "evaluation_ok v \<longleftrightarrow>
     gr_EvaluationID v \<noteq> [] \<and> gr_Phase v \<in> set [''pre_tool'', ''post_tool'']
     \<and> length (gr_ContentDigest v) = 32
     \<and> (case gr_TransformedContentDigest v of None \<Rightarrow> True | Some d \<Rightarrow> length d = 32)
     \<and> gr_Decision v \<in> set [''allow'', ''block'', ''transform''] \<and> gr_PolicyRef v \<noteq> []
     \<and> (gr_Decision v = ''transform'') = (gr_TransformedContentDigest v \<noteq> None)"

definition approval_ok :: "ActionApproval \<Rightarrow> bool" where
  "approval_ok v \<longleftrightarrow>
     aa_ApprovalID v \<noteq> [] \<and> aa_ApprovalRef v \<noteq> [] \<and> length (aa_BindingDigest v) = 32
     \<and> length (aa_ArgumentDigest v) = 32 \<and> length (aa_ResourceDigest v) = 32
     \<and> aa_Status v \<in> set [''requested'', ''approved'', ''denied'', ''expired'', ''revoked'', ''consumed'']
     \<and> aa_ExpiresAt v > aa_IssuedAt v
     \<and> (if aa_Status v = ''consumed''
        then (case aa_ConsumedAt v of None \<Rightarrow> False | Some at \<Rightarrow> at \<ge> aa_IssuedAt v)
        else aa_ConsumedAt v = None)
     \<and> aa_RevocationCheckpoint v \<noteq> Some []"

definition result_ok :: "ExecutionResult \<Rightarrow> bool" where
  "result_ok v \<longleftrightarrow>
     (case er_ResultDigest v of None \<Rightarrow> True | Some d \<Rightarrow> length d = 32)
     \<and> er_Classification v \<in> set [''confirmed_success'', ''confirmed_failure'', ''blocked'', ''ambiguous'']
     \<and> er_DataClassification v \<in> set [''C0'', ''C1'', ''C2'']
     \<and> (er_AttemptNo v = None) = (er_Fence v = None)
     \<and> (er_ConnectorInstanceID v = None) = (er_CredentialBindingID v = None)
     \<and> (er_Classification v = ''confirmed_success'' \<longrightarrow> er_ResultDigest v \<noteq> None)"

definition audit_ok :: "AuditEvent \<Rightarrow> bool" where
  "audit_ok v \<longleftrightarrow>
     ae_EventType v \<noteq> [] \<and> ae_EvidenceProfile v \<noteq> [] \<and> ae_ActorClass v \<noteq> []
     \<and> ae_Outcome v \<noteq> [] \<and> length (ae_PayloadDigest v) = 32
     \<and> ae_ActorRef v \<noteq> Some [] \<and> ae_ReasonCode v \<noteq> Some []
     \<and> ae_RecordedAt v \<ge> ae_OccurredAt v"

definition outbox_ok :: "outbox_row \<Rightarrow> bool" where
  "outbox_ok r \<longleftrightarrow>
     om_Topic r \<noteq> [] \<and> om_EventType r \<noteq> [] \<and> length (om_PayloadDigest r) = 32
     \<and> om_AvailableAt r \<ge> om_CreatedAt r
     \<and> (case ob_claim_owner r of None \<Rightarrow> ob_claim_until r = None
        | Some w \<Rightarrow> w \<noteq> [] \<and> ob_claim_until r \<noteq> None)
     \<and> ob_attempt_count r \<ge> 0
     \<and> (case ob_last_error_class r of None \<Rightarrow> True
        | Some s \<Rightarrow> s \<in> set [''transient'', ''permanent'', ''poison'', ''unknown''])
     \<and> (ob_last_error_class r = None) = (ob_last_error_at r = None)
     \<and> (ob_published_at r = None \<or> ob_dead_lettered_at r = None)
     \<and> (ob_publication_ref r = None \<or> ob_published_at r \<noteq> None)
     \<and> (ob_dead_letter_reason r = None \<or> ob_dead_lettered_at r \<noteq> None)
     \<and> ((ob_published_at r = None \<and> ob_dead_lettered_at r = None)
          \<or> (ob_claim_owner r = None \<and> ob_claim_until r = None))"

definition tool_version_ok :: "pg_ToolVersion \<Rightarrow> bool" where
  "tool_version_ok v \<longleftrightarrow>
     ptv_Version v \<noteq> [] \<and> ptv_State v \<in> set [''draft'', ''published'', ''retired'']
     \<and> length (ptv_DefinitionDigest v) = 32
     \<and> (if ptv_State v = ''draft'' then ptv_PublishedAt v = None else ptv_PublishedAt v \<noteq> None)"

end
