(* ===== verification/Pg_Repositories.thy ===== *)
theory Pg_Repositories
  imports Pg_Tables Canonical_JSON
begin

text \<open>
  The repositories of \<open>internal/adapters/postgres\<close>: tenant-owned data (\<open>repositories.go\<close>), the
  global tool catalogue (\<open>tool_versions.go\<close>) and protected mutations with their evidence
  (\<open>protected_mutation.go\<close>). Every statement of a tenant repository names \<open>tenant_id\<close> and binds the
  repository's tenant as its first argument, so the guard of \<^const>\<open>tenant_scoped\<close> lets it pass and is not
  repeated. Foreign keys, unique keys and triggers of the migrations are part of the statements.
\<close>

section \<open>Tenant scope\<close>

definition NewTenantRepositories :: "'b option \<Rightarrow> string \<Rightarrow> string result" where
  "NewTenantRepositories db tenantID =
     (if db = None then Inl (ErrNew ''postgres repository database is required'')
      else map_error (ErrWrap ''invalid repository tenant ID'')
        (bind_result (ParseUUID tenantID) (\<lambda>uid. Inr (UUID_String uid))))"

definition tenant_exists :: "tables \<Rightarrow> string \<Rightarrow> goerror option" where
  "tenant_exists db tenant = fail_if (tenant \<notin> set (t_tenants db)) foreign_key_violation"

definition invocation_exists :: "tables \<Rightarrow> string \<Rightarrow> string \<Rightarrow> goerror option" where
  "invocation_exists db tenant i =
     fail_if (map_of (t_invocations db) (tenant, i) = None) foreign_key_violation"

definition check :: "bool \<Rightarrow> goerror option" where
  "check b = fail_if (\<not> b) check_violation"

definition nilIfEmpty :: "'a list option \<Rightarrow> 'a list option" where
  "nilIfEmpty v = (if v = Some [] then None else v)"

text \<open>A single-row \<open>INSERT\<close>.\<close>

definition insert_stmt ::
  "string \<Rightarrow> ('t \<Rightarrow> 'tbl result) \<Rightarrow> ('tbl \<Rightarrow> 't \<Rightarrow> 't) \<Rightarrow> ('t, unit) action" where
  "insert_stmt operation ins upd =
     unit_of (act_map_error (repositoryError operation)
       (statement (exec (\<lambda>db. map_sum id (\<lambda>tbl. (1, upd tbl db)) (ins db)))))"

lemma insert_stmt_Inr:
  assumes "insert_stmt operation ins upd c = (Inr u, d)"
  obtains tbl where "ins (conn_db c) = Inr tbl" "conn_db d = upd tbl (conn_db c)"
proof -
  from assms have "exec (\<lambda>db. map_sum id (\<lambda>tbl. (1, upd tbl db)) (ins db)) (conn_db c)
      = (Inr 1, conn_db d) \<or> (\<exists>n. exec (\<lambda>db. map_sum id (\<lambda>tbl. (1, upd tbl db)) (ins db)) (conn_db c)
      = (Inr n, conn_db d))"
    unfolding insert_stmt_def unit_of_def
    by (auto simp: act_bind_Inr act_map_error_Inr act_return_def dest!: statement_Inr)
  with that show ?thesis by (cases "ins (conn_db c)") auto
qed

section \<open>The tenant catalogue\<close>

definition exposed_versions :: "tables \<Rightarrow> string \<Rightarrow> pg_ToolVersion list" where
  "exposed_versions db tenant =
     map snd (filter (\<lambda>((tool, version), v). ptv_State v = ''published''
       \<and> (case map_of (t_exposures db) (tenant, tool, version) of
            Some (enabled, _) \<Rightarrow> enabled | None \<Rightarrow> False)) (t_tool_versions db))"

definition GetExposedVersion ::
  "string \<Rightarrow> string \<Rightarrow> string \<Rightarrow> (tables, pg_ToolVersion) action" where
  "GetExposedVersion tenant toolID version =
     act_map_error (repositoryError ''get exposed tool version'')
       (statement (query_one (\<lambda>db.
          case (map_of (t_exposures db) (tenant, toolID, version),
                map_of (t_tool_versions db) (toolID, version)) of
            (Some (enabled, _), Some v) \<Rightarrow>
              if enabled \<and> ptv_State v = ''published'' then Some v else None
          | _ \<Rightarrow> None)))"

record CatalogToolVersion =
  ctv_ToolID :: string
  ctv_Version :: string
  ctv_Definition :: string
  ctv_DefinitionDigest :: bytes

definition ListExposedForDiscovery :: "string \<Rightarrow> (tables, CatalogToolVersion list) action" where
  "ListExposedForDiscovery tenant =
     act_map_error (repositoryError ''list exposed tool versions'')
       (statement (\<lambda>db.
          (Inr (map (\<lambda>v. \<lparr>ctv_ToolID = ptv_ToolID v, ctv_Version = ptv_Version v,
                   ctv_Definition = ptv_Definition v,
                   ctv_DefinitionDigest = ptv_DefinitionDigest v\<rparr>)
             (sort_key (\<lambda>v. (ptv_ToolID v, ptv_Version v)) (exposed_versions db tenant))), db)))"

definition validateToolVersionKey :: "string \<Rightarrow> string \<Rightarrow> goerror option" where
  "validateToolVersionKey toolID version =
     first_err
       [map_option (\<lambda>err. NewError CodeInvalidArgument ''tool ID is invalid'' (Some err))
          (result_err (ParseToolID toolID)),
        map_option (\<lambda>err. NewError CodeInvalidArgument ''tool version is invalid'' (Some err))
          (result_err (ParseSemanticVersion version))]"

text \<open>
  \<open>SetExposure\<close>, with the foreign keys and the trigger
  \<open>tenant_tool_exposures_require_published\<close> of the migrations.
\<close>

definition exposure_upsert ::
  "string \<Rightarrow> string \<Rightarrow> string \<Rightarrow> bool \<Rightarrow> instant \<Rightarrow> tables \<Rightarrow> (nat \<times> tables) result" where
  "exposure_upsert tenant toolID version enabled moment db =
     ensure (first_err
       [fail_if (enabled \<and> map_option ptv_State (map_of (t_tool_versions db) (toolID, version))
                           \<noteq> Some ''published'') check_violation,
        tenant_exists db tenant,
        fail_if (map_of (t_tool_versions db) (toolID, version) = None) foreign_key_violation])
       (Inr (1, db\<lparr>t_exposures := AList.update (tenant, toolID, version)
                  (enabled, timestamptz db moment) (t_exposures db)\<rparr>))"

definition SetExposure ::
  "string \<Rightarrow> string \<Rightarrow> string \<Rightarrow> bool \<Rightarrow> instant \<Rightarrow> (tables, unit) action" where
  "SetExposure tenant toolID version enabled moment =
     (case first_err
        [validateToolVersionKey toolID version,
         fail_if (IsZero moment) (NewError CodeInvalidArgument ''exposure timestamp is required'' None)] of
        Some err \<Rightarrow> act_return (Inl err)
      | None \<Rightarrow> unit_of (act_map_error (repositoryError ''set tool exposure'')
          (statement (exec (exposure_upsert tenant toolID version enabled moment)))))"

section \<open>Connector instances and credential bindings\<close>

definition connector_upsert :: "string \<Rightarrow> ConnectorInstance \<Rightarrow> tables \<Rightarrow> (nat \<times> tables) result" where
  "connector_upsert tenant v db =
     (let stored = v\<lparr>ci_DestinationConfig := jsonb db (ci_DestinationConfig v),
            ci_CreatedAt := timestamptz db (ci_CreatedAt v), ci_UpdatedAt := timestamptz db (ci_UpdatedAt v)\<rparr>;
          row = (case map_of (t_connector_instances db) (tenant, ci_ID v) of
                   None \<Rightarrow> stored
                 | Some old \<Rightarrow> stored\<lparr>ci_CreatedAt := ci_CreatedAt old\<rparr>) in
      ensure (first_err
        [tenant_exists db tenant,
         check (ci_Type row \<noteq> [] \<and> length (ci_ConfigDigest row) = 32 \<and> ci_UpdatedAt row \<ge> ci_CreatedAt row)])
        (Inr (1, db\<lparr>t_connector_instances :=
                   AList.update (tenant, ci_ID v) row (t_connector_instances db)\<rparr>)))"

definition ConnectorInstance_Put :: "string \<Rightarrow> ConnectorInstance \<Rightarrow> (tables, unit) action" where
  "ConnectorInstance_Put tenant v =
     unit_of (act_map_error (repositoryError ''put connector instance'')
       (statement (exec (connector_upsert tenant v))))"

definition ConnectorInstance_Get :: "string \<Rightarrow> string \<Rightarrow> (tables, ConnectorInstance) action" where
  "ConnectorInstance_Get tenant i =
     act_map_error (repositoryError ''get connector instance'')
       (statement (query_one (\<lambda>db. map_of (t_connector_instances db) (tenant, i))))"

definition binding_upsert :: "string \<Rightarrow> pg_CredentialBinding \<Rightarrow> tables \<Rightarrow> (nat \<times> tables) result" where
  "binding_upsert tenant v db =
     (let stored = v\<lparr>pcb_CapabilityMetadata := jsonb db (pcb_CapabilityMetadata v),
            pcb_CreatedAt := timestamptz db (pcb_CreatedAt v), pcb_UpdatedAt := timestamptz db (pcb_UpdatedAt v)\<rparr>;
          row = (case map_of (t_credential_bindings db) (tenant, pcb_ID v) of
                   None \<Rightarrow> stored
                 | Some old \<Rightarrow> stored\<lparr>pcb_CreatedAt := pcb_CreatedAt old\<rparr>) in
      ensure (first_err
        [tenant_exists db tenant,
         fail_if (map_of (t_connector_instances db) (tenant, pcb_ConnectorInstanceID v) = None)
           foreign_key_violation,
         check (pcb_ProviderRef row \<noteq> [] \<and> pcb_UpdatedAt row \<ge> pcb_CreatedAt row)])
        (Inr (1, db\<lparr>t_credential_bindings :=
                   AList.update (tenant, pcb_ID v) row (t_credential_bindings db)\<rparr>)))"

definition CredentialBinding_Put :: "string \<Rightarrow> pg_CredentialBinding \<Rightarrow> (tables, unit) action" where
  "CredentialBinding_Put tenant v =
     unit_of (act_map_error (repositoryError ''put credential binding'')
       (statement (exec (binding_upsert tenant v))))"

definition CredentialBinding_Get :: "string \<Rightarrow> string \<Rightarrow> (tables, pg_CredentialBinding) action" where
  "CredentialBinding_Get tenant i =
     act_map_error (repositoryError ''get credential binding'')
       (statement (query_one (\<lambda>db. map_of (t_credential_bindings db) (tenant, i))))"

section \<open>Invocations, attempts and evidence\<close>

definition store_invocation :: "tables \<Rightarrow> Invocation \<Rightarrow> Invocation" where
  "store_invocation db v =
     v\<lparr>inv_ResourceProjection := jsonb db (inv_ResourceProjection v),
       inv_TerminalAt := map_option (timestamptz db) (inv_TerminalAt v),
       inv_CreatedAt := timestamptz db (inv_CreatedAt v),
       inv_UpdatedAt := timestamptz db (inv_UpdatedAt v)\<rparr>"

text \<open>The unique key \<open>(tenant_id, run_id, tool_call_id)\<close>.\<close>

definition logical_calls :: "tables \<Rightarrow> (string \<times> string \<times> string) list" where
  "logical_calls db = map (\<lambda>((tenant, _), v). (tenant, inv_RunID v, inv_ToolCallID v)) (t_invocations db)"

definition insert_invocation ::
  "string \<Rightarrow> Invocation \<Rightarrow> tables \<Rightarrow> ((string \<times> string) \<times> Invocation) list result" where
  "insert_invocation tenant v db =
     insert_row (tenant, inv_ID v) (store_invocation db v)
       [tenant_exists db tenant, check (invocation_ok (store_invocation db v)),
        fail_if ((tenant, inv_RunID v, inv_ToolCallID v) \<in> set (logical_calls db)) unique_violation,
        fail_if (map_of (t_tool_versions db) (inv_ToolID v, inv_ToolVersion v) = None)
          foreign_key_violation]
       (t_invocations db)"

definition Invocation_Create :: "string \<Rightarrow> Invocation \<Rightarrow> (tables, unit) action" where
  "Invocation_Create tenant v =
     insert_stmt ''create invocation'' (insert_invocation tenant v) (\<lambda>tbl db. db\<lparr>t_invocations := tbl\<rparr>)"

definition Invocation_Get :: "string \<Rightarrow> string \<Rightarrow> (tables, Invocation) action" where
  "Invocation_Get tenant i =
     act_map_error (repositoryError ''get invocation'')
       (statement (query_one (\<lambda>db. map_of (t_invocations db) (tenant, i))))"

record ToolCallView =
  tcv_ToolCallID :: string
  tcv_ToolID :: string
  tcv_ToolVersion :: string
  tcv_State :: string
  tcv_Result :: string
  tcv_ErrorCode :: "string option"
  tcv_CreatedAt :: instant
  tcv_UpdatedAt :: instant

definition find_call :: "tables \<Rightarrow> string \<Rightarrow> string \<Rightarrow> string \<Rightarrow> (string \<times> Invocation) option" where
  "find_call db tenant runID toolCallID =
     map_option (\<lambda>((_, i), v). (i, v))
       (List.find (\<lambda>((t, _), v). t = tenant \<and> inv_RunID v = runID \<and> inv_ToolCallID v = toolCallID)
          (t_invocations db))"

definition GetToolCallView :: "string \<Rightarrow> string \<Rightarrow> string \<Rightarrow> (tables, ToolCallView) action" where
  "GetToolCallView tenant runID toolCallID =
     act_map_error (repositoryError ''get tool call'')
       (statement (query_one (\<lambda>db.
          map_option (\<lambda>(i, v).
            let result = (if inv_State v = ''succeeded''
                  then (case map_of (t_results db) (tenant, i) of
                          None \<Rightarrow> None | Some r \<Rightarrow> er_SafeResult r)
                  else None) in
            \<lparr>tcv_ToolCallID = inv_ToolCallID v, tcv_ToolID = inv_ToolID v,
             tcv_ToolVersion = inv_ToolVersion v, tcv_State = inv_State v,
             tcv_Result = (case result of None \<Rightarrow> [] | Some r \<Rightarrow> r),
             tcv_ErrorCode = inv_TerminalCode v, tcv_CreatedAt = inv_CreatedAt v,
             tcv_UpdatedAt = inv_UpdatedAt v\<rparr>)
            (find_call db tenant runID toolCallID))))"

definition store_attempt :: "tables \<Rightarrow> Attempt \<Rightarrow> Attempt" where
  "store_attempt db v =
     v\<lparr>att_ClaimedAt := map_option (timestamptz db) (att_ClaimedAt v),
       att_LeaseExpiresAt := map_option (timestamptz db) (att_LeaseExpiresAt v),
       att_Evidence := jsonb db (att_Evidence v),
       att_StartedAt := timestamptz db (att_StartedAt v),
       att_FinishedAt := map_option (timestamptz db) (att_FinishedAt v)\<rparr>"

definition attempts_of :: "tables \<Rightarrow> string \<Rightarrow> string \<Rightarrow> Attempt list" where
  "attempts_of db tenant i =
     map snd (filter (\<lambda>((t, j, _), _). t = tenant \<and> j = i) (t_attempts db))"

text \<open>
  The keys of the attempts table and the trigger \<open>invocation_attempts_require_next_sequence\<close>: the
  next attempt number, and a fence greater than every earlier one.
\<close>

definition insert_attempt ::
  "string \<Rightarrow> Attempt \<Rightarrow> tables \<Rightarrow> ((string \<times> string \<times> int) \<times> Attempt) list result" where
  "insert_attempt tenant v db =
     (let i = att_InvocationID v;
          earlier = attempts_of db tenant i;
          next_attempt = foldr max (map att_AttemptNo earlier) 0 + 1;
          greatest_fence = foldr max (map att_Fence earlier) 0 in
      insert_row (tenant, i, att_AttemptNo v) (store_attempt db v)
        [fail_if (att_AttemptNo v \<noteq> next_attempt) check_violation,
         fail_if (att_Fence v \<le> greatest_fence) check_violation,
         check (attempt_ok (store_attempt db v)),
         invocation_exists db tenant i]
        (t_attempts db))"

definition Attempt_Create :: "string \<Rightarrow> Attempt \<Rightarrow> (tables, unit) action" where
  "Attempt_Create tenant v =
     insert_stmt ''create invocation attempt'' (insert_attempt tenant v)
       (\<lambda>tbl db. db\<lparr>t_attempts := tbl\<rparr>)"

definition insert_decision ::
  "string \<Rightarrow> pg_AuthorizationDecision \<Rightarrow> tables \<Rightarrow> ((string \<times> string \<times> string) \<times> pg_AuthorizationDecision) list result" where
  "insert_decision tenant v db =
     (let row = v\<lparr>pad_Constraints := jsonb db (pad_Constraints v),
            pad_IssuedAt := timestamptz db (pad_IssuedAt v),
            pad_ExpiresAt := timestamptz db (pad_ExpiresAt v),
            pad_RecordedAt := timestamptz db (pad_RecordedAt v)\<rparr> in
      insert_row (tenant, pad_InvocationID v, pad_DecisionID v) row
        [check (decision_ok row), invocation_exists db tenant (pad_InvocationID v)] (t_decisions db))"

definition RecordAuthorization :: "string \<Rightarrow> pg_AuthorizationDecision \<Rightarrow> (tables, unit) action" where
  "RecordAuthorization tenant v =
     insert_stmt ''record authorization decision'' (insert_decision tenant v)
       (\<lambda>tbl db. db\<lparr>t_decisions := tbl\<rparr>)"

definition insert_evaluation ::
  "string \<Rightarrow> GREvaluation \<Rightarrow> tables \<Rightarrow> ((string \<times> string \<times> string) \<times> GREvaluation) list result" where
  "insert_evaluation tenant v db =
     (let row = v\<lparr>gr_TransformedContentDigest := nilIfEmpty (gr_TransformedContentDigest v),
            gr_SafeMetadata := jsonb db (gr_SafeMetadata v),
            gr_CreatedAt := timestamptz db (gr_CreatedAt v)\<rparr> in
      insert_row (tenant, gr_InvocationID v, gr_EvaluationID v) row
        [check (evaluation_ok row), invocation_exists db tenant (gr_InvocationID v)] (t_evaluations db))"

definition RecordGuardrail :: "string \<Rightarrow> GREvaluation \<Rightarrow> (tables, unit) action" where
  "RecordGuardrail tenant v =
     insert_stmt ''record guardrail evaluation'' (insert_evaluation tenant v)
       (\<lambda>tbl db. db\<lparr>t_evaluations := tbl\<rparr>)"

definition insert_approval ::
  "string \<Rightarrow> ActionApproval \<Rightarrow> tables \<Rightarrow> ((string \<times> string \<times> string) \<times> ActionApproval) list result" where
  "insert_approval tenant v db =
     (let row = v\<lparr>aa_IssuedAt := timestamptz db (aa_IssuedAt v),
            aa_ExpiresAt := timestamptz db (aa_ExpiresAt v),
            aa_ConsumedAt := map_option (timestamptz db) (aa_ConsumedAt v)\<rparr> in
      insert_row (tenant, aa_InvocationID v, aa_ApprovalID v) row
        [check (approval_ok row),
         fail_if (list_ex (\<lambda>((t, _, a), _). t = tenant \<and> a = aa_ApprovalID v) (t_approvals db))
           unique_violation,
         invocation_exists db tenant (aa_InvocationID v),
         fail_if (map_of (t_decisions db) (tenant, aa_InvocationID v, aa_AuthorizationDecisionID v) = None)
           foreign_key_violation] (t_approvals db))"

definition Approval_Create :: "string \<Rightarrow> ActionApproval \<Rightarrow> (tables, unit) action" where
  "Approval_Create tenant v =
     insert_stmt ''create action approval'' (insert_approval tenant v)
       (\<lambda>tbl db. db\<lparr>t_approvals := tbl\<rparr>)"

definition insert_result ::
  "string \<Rightarrow> ExecutionResult \<Rightarrow> tables \<Rightarrow> ((string \<times> string) \<times> ExecutionResult) list result" where
  "insert_result tenant v db =
     (let row = v\<lparr>er_ResultDigest := nilIfEmpty (er_ResultDigest v),
            er_SafeResult := map_option (jsonb db) (nilIfEmpty (er_SafeResult v)),
            er_CreatedAt := timestamptz db (er_CreatedAt v)\<rparr> in
      insert_row (tenant, er_InvocationID v) row
        [check (result_ok row), invocation_exists db tenant (er_InvocationID v),
         (case (er_AttemptNo v, er_Fence v) of
            (Some n, Some f) \<Rightarrow>
              fail_if (map_option att_Fence (map_of (t_attempts db) (tenant, er_InvocationID v, n)) \<noteq> Some f)
                foreign_key_violation
          | _ \<Rightarrow> None),
         (case (er_CredentialBindingID v, er_ConnectorInstanceID v) of
            (Some b, Some n) \<Rightarrow>
              fail_if (map_option pcb_ConnectorInstanceID (map_of (t_credential_bindings db) (tenant, b)) \<noteq> Some n)
                foreign_key_violation
          | _ \<Rightarrow> None)]
        (t_results db))"

definition Result_Create :: "string \<Rightarrow> ExecutionResult \<Rightarrow> (tables, unit) action" where
  "Result_Create tenant v =
     insert_stmt ''create execution result'' (insert_result tenant v) (\<lambda>tbl db. db\<lparr>t_results := tbl\<rparr>)"

definition insert_usage ::
  "string \<Rightarrow> UsageEvent \<Rightarrow> tables \<Rightarrow> ((string \<times> string) \<times> UsageEvent) list result" where
  "insert_usage tenant v db =
     (let row = v\<lparr>ue_Attributes := jsonb db (ue_Attributes v),
            ue_OccurredAt := timestamptz db (ue_OccurredAt v),
            ue_RecordedAt := timestamptz db (ue_RecordedAt v)\<rparr> in
      insert_row (tenant, ue_EventID v) row
        [check (ue_AccountingKey v \<noteq> [] \<and> ue_Dimension v \<noteq> [] \<and> ue_Unit v \<noteq> []
           \<and> ue_RecordedAt row \<ge> ue_OccurredAt row),
         fail_if (list_ex (\<lambda>((t, _), u). t = tenant \<and> ue_AccountingKey u = ue_AccountingKey v
           \<and> ue_Dimension u = ue_Dimension v) (t_usage db)) unique_violation,
         invocation_exists db tenant (ue_InvocationID v)] (t_usage db))"

definition Usage_Record :: "string \<Rightarrow> UsageEvent \<Rightarrow> (tables, unit) action" where
  "Usage_Record tenant v =
     insert_stmt ''record trusted usage'' (insert_usage tenant v) (\<lambda>tbl db. db\<lparr>t_usage := tbl\<rparr>)"

definition insert_audit ::
  "string \<Rightarrow> AuditEvent \<Rightarrow> tables \<Rightarrow> ((string \<times> string) \<times> AuditEvent) list result" where
  "insert_audit tenant v db =
     (let row = v\<lparr>ae_Correlation := jsonb db (ae_Correlation v),
            ae_SafePayload := jsonb db (ae_SafePayload v),
            ae_OccurredAt := timestamptz db (ae_OccurredAt v),
            ae_RecordedAt := timestamptz db (ae_RecordedAt v)\<rparr> in
      insert_row (tenant, ae_EventID v) row
        [check (audit_ok row), tenant_exists db tenant,
         (case ae_InvocationID v of None \<Rightarrow> None | Some i \<Rightarrow> invocation_exists db tenant i)]
        (t_audit db))"

definition Audit_Record :: "string \<Rightarrow> AuditEvent \<Rightarrow> (tables, unit) action" where
  "Audit_Record tenant v =
     insert_stmt ''record audit event'' (insert_audit tenant v) (\<lambda>tbl db. db\<lparr>t_audit := tbl\<rparr>)"

text \<open>A new outbox row has the column defaults of the migration: unclaimed and undelivered.\<close>

definition outbox_new :: "tables \<Rightarrow> OutboxMessage \<Rightarrow> outbox_row" where
  "outbox_new db v =
     \<lparr>om_ID = om_ID v, om_EventID = om_EventID v, om_Topic = om_Topic v,
      om_EventType = om_EventType v, om_SafePayload = jsonb db (om_SafePayload v),
      om_PayloadDigest = om_PayloadDigest v, om_CreatedAt = timestamptz db (om_CreatedAt v),
      om_AvailableAt = timestamptz db (om_AvailableAt v),
      ob_claim_owner = None, ob_claim_until = None, ob_attempt_count = 0,
      ob_last_error_class = None, ob_last_error_at = None, ob_published_at = None,
      ob_publication_ref = None, ob_dead_lettered_at = None, ob_dead_letter_reason = None\<rparr>"

definition insert_outbox ::
  "string \<Rightarrow> OutboxMessage \<Rightarrow> tables \<Rightarrow> ((string \<times> string) \<times> outbox_row) list result" where
  "insert_outbox tenant v db =
     insert_row (tenant, om_ID v) (outbox_new db v)
       [check (outbox_ok (outbox_new db v)), tenant_exists db tenant,
        fail_if (list_ex (\<lambda>((t, _), m). t = tenant \<and> om_Topic m = om_Topic v
          \<and> om_EventID m = om_EventID v) (t_outbox db)) unique_violation]
       (t_outbox db)"

definition Enqueue :: "string \<Rightarrow> OutboxMessage \<Rightarrow> (tables, unit) action" where
  "Enqueue tenant v =
     insert_stmt ''enqueue outbox message'' (insert_outbox tenant v) (\<lambda>tbl db. db\<lparr>t_outbox := tbl\<rparr>)"

section \<open>The global tool catalogue\<close>

definition NewAdminToolCatalogRepository :: "'b option \<Rightarrow> unit result" where
  "NewAdminToolCatalogRepository db =
     (if db = None then Inl (ErrNew ''postgres admin tool catalog database is required'') else Inr ())"

definition repository_required :: "'r option \<Rightarrow> goerror option" where
  "repository_required r =
     fail_if (r = None) (ErrNew ''postgres admin tool catalog repository is required'')"

text \<open>An \<open>Exec\<close> that must affect exactly one row.\<close>

definition exec_one ::
  "string \<Rightarrow> string \<Rightarrow> ('t \<Rightarrow> (nat \<times> 't) result) \<Rightarrow> ('t, unit) action" where
  "exec_one operation conflict f =
     act_bind (act_map_error (repositoryError operation) (statement (exec f)))
       (\<lambda>n. act_return (if n = 1 then Inr () else Inl (NewError CodeConflict conflict None)))"

definition draft_upsert ::
  "string \<Rightarrow> string \<Rightarrow> string \<Rightarrow> bytes \<Rightarrow> tables \<Rightarrow> (nat \<times> tables) result" where
  "draft_upsert toolID version canonical digest db =
     (let with_tool = db\<lparr>t_tools := List.insert toolID (t_tools db)\<rparr>;
          fresh = \<lparr>ptv_ToolID = toolID, ptv_Version = version, ptv_State = ''draft'',
            ptv_Definition = jsonb db canonical, ptv_DefinitionDigest = digest,
            ptv_PublishedAt = None\<rparr> in
      case map_of (t_tool_versions db) (toolID, version) of
        None \<Rightarrow> ensure (check (tool_version_ok fresh))
          (Inr (1, with_tool\<lparr>t_tool_versions := t_tool_versions db @ [((toolID, version), fresh)]\<rparr>))
      | Some old \<Rightarrow>
          if ptv_State old \<noteq> ''draft'' then Inr (0, with_tool)
          else ensure (check (tool_version_ok fresh))
            (Inr (1, with_tool\<lparr>t_tool_versions := AList.update (toolID, version)
               (old\<lparr>ptv_Definition := jsonb db canonical, ptv_DefinitionDigest := digest\<rparr>)
               (t_tool_versions db)\<rparr>)))"

definition SaveDraft ::
  "Format \<Rightarrow> 'r option \<Rightarrow> string \<Rightarrow> string \<Rightarrow> string \<Rightarrow> instant \<Rightarrow> (tables, unit) action" where
  "SaveDraft jcs_Format r toolID version definition moment =
     (case first_err
        [repository_required r,
         validateToolVersionKey toolID version,
         fail_if (IsZero moment) (NewError CodeInvalidArgument ''draft timestamp is required'' None)] of
        Some err \<Rightarrow> act_return (Inl err)
      | None \<Rightarrow>
          (case Parse definition zero_Limits of
             Inl err \<Rightarrow> act_return (Inl (NewError CodeInvalidArgument ''tool definition is invalid'' (Some err)))
           | Inr parsed \<Rightarrow>
               if \<not> (case parsed of CObject _ \<Rightarrow> True | _ \<Rightarrow> False)
               then act_return (Inl (NewError CodeInvalidArgument ''tool definition must be a JSON object'' None))
               else (case Canonicalize jcs_Format definition zero_Limits of
                  Inl err \<Rightarrow> act_return (Inl (NewError CodeInvalidArgument ''tool definition is invalid'' (Some err)))
                | Inr canonical \<Rightarrow>
                    exec_one ''save draft tool version''
                      ''released tool version is immutable; create a new version''
                      (draft_upsert toolID version canonical (DigestBytes canonical)))))"

text \<open>
  State transitions of a version, with the trigger \<open>tool_versions_released_immutable\<close>: a released row
  changes only from published to retired.
\<close>

definition protect_released :: "pg_ToolVersion \<Rightarrow> pg_ToolVersion \<Rightarrow> bool" where
  "protect_released old new \<longleftrightarrow>
     (ptv_State old \<in> set [''published'', ''retired''] \<longrightarrow>
        new = old \<or> (ptv_State old = ''published'' \<and> new = old\<lparr>ptv_State := ''retired''\<rparr>))"

definition version_update ::
  "string \<Rightarrow> string \<Rightarrow> string \<Rightarrow> (pg_ToolVersion \<Rightarrow> pg_ToolVersion) \<Rightarrow> tables \<Rightarrow> (nat \<times> tables) result" where
  "version_update toolID version state f db =
     (case map_of (t_tool_versions db) (toolID, version) of
        None \<Rightarrow> Inr (0, db)
      | Some old \<Rightarrow>
          if ptv_State old \<noteq> state then Inr (0, db)
          else ensure (check (tool_version_ok (f old) \<and> protect_released old (f old)))
            (Inr (1, db\<lparr>t_tool_versions := AList.update (toolID, version) (f old) (t_tool_versions db)\<rparr>)))"

definition Admin_Publish :: "'r option \<Rightarrow> string \<Rightarrow> string \<Rightarrow> instant \<Rightarrow> (tables, unit) action" where
  "Admin_Publish r toolID version moment =
     (case first_err
        [repository_required r, validateToolVersionKey toolID version,
         fail_if (IsZero moment) (NewError CodeInvalidArgument ''publication timestamp is required'' None)] of
        Some err \<Rightarrow> act_return (Inl err)
      | None \<Rightarrow> exec_one ''publish tool version'' ''tool version is not a current draft''
          (\<lambda>db. version_update toolID version ''draft''
             (\<lambda>v. v\<lparr>ptv_State := ''published'', ptv_PublishedAt := Some (timestamptz db moment)\<rparr>) db))"

definition Admin_Retire :: "'r option \<Rightarrow> string \<Rightarrow> string \<Rightarrow> (tables, unit) action" where
  "Admin_Retire r toolID version =
     (case first_err [repository_required r, validateToolVersionKey toolID version] of
        Some err \<Rightarrow> act_return (Inl err)
      | None \<Rightarrow> exec_one ''retire tool version'' ''tool version is not currently published''
          (version_update toolID version ''published'' (\<lambda>v. v\<lparr>ptv_State := ''retired''\<rparr>)))"

definition Admin_Get :: "'r option \<Rightarrow> string \<Rightarrow> string \<Rightarrow> (tables, pg_ToolVersion) action" where
  "Admin_Get r toolID version =
     (case first_err [repository_required r, validateToolVersionKey toolID version] of
        Some err \<Rightarrow> act_return (Inl err)
      | None \<Rightarrow> act_map_error (repositoryError ''get tool version'')
          (statement (query_one (\<lambda>db. map_of (t_tool_versions db) (toolID, version)))))"

section \<open>Protected mutations\<close>

record ProtectedMutationRecords =
  pmr_Audit :: AuditEvent
  pmr_Outbox :: "OutboxMessage list"

definition invalidProtectedMutation :: "string \<Rightarrow> goerror" where
  "invalidProtectedMutation message = NewError CodeInvalidArgument message (Some (ErrNew message))"

definition jsonObject :: "string \<Rightarrow> bool" where
  "jsonObject val \<longleftrightarrow>
     (case Unmarshal_value val of Some (JObject _) \<Rightarrow> True | _ \<Rightarrow> False)"

definition validateOutbox :: "AuditEvent \<Rightarrow> OutboxMessage list \<Rightarrow> OutboxMessage \<Rightarrow> goerror option" where
  "validateOutbox audit before message =
     first_err
       [fail_if (result_err (ParseUUID (om_ID message)) \<noteq> None)
          (invalidProtectedMutation ''outbox ID must be a UUID''),
        fail_if (om_EventID message \<noteq> ae_EventID audit \<or> om_EventType message \<noteq> ae_EventType audit)
          (invalidProtectedMutation ''outbox event identity and type must match the audit event''),
        fail_if (TrimSpace (om_Topic message) = [] \<or> length (om_PayloadDigest message) \<noteq> 32
            \<or> IsZero (om_CreatedAt message) \<or> om_AvailableAt message < om_CreatedAt message
            \<or> \<not> jsonObject (om_SafePayload message))
          (invalidProtectedMutation ''outbox topic, payload, digest, and ordered timestamps are required''),
        fail_if (om_Topic message \<in> om_Topic ` set before)
          (invalidProtectedMutation ''outbox topics must be unique within a protected mutation'')]"

definition validateProtectedMutationRecords :: "ProtectedMutationRecords \<Rightarrow> goerror option" where
  "validateProtectedMutationRecords records =
     (let audit = pmr_Audit records in
      first_err
        [fail_if (result_err (ParseUUID (ae_EventID audit)) \<noteq> None)
           (invalidProtectedMutation ''audit event ID must be a UUID''),
         fail_if (TrimSpace (ae_EventType audit) = [] \<or> TrimSpace (ae_EvidenceProfile audit) = []
             \<or> TrimSpace (ae_ActorClass audit) = [] \<or> TrimSpace (ae_Outcome audit) = [])
           (invalidProtectedMutation
              ''audit event type, evidence profile, actor class, and outcome are required''),
         fail_if (length (ae_PayloadDigest audit) \<noteq> 32 \<or> IsZero (ae_OccurredAt audit)
             \<or> ae_RecordedAt audit < ae_OccurredAt audit)
           (invalidProtectedMutation ''audit digest and ordered timestamps are required''),
         fail_if (\<not> jsonObject (ae_Correlation audit) \<or> \<not> jsonObject (ae_SafePayload audit))
           (invalidProtectedMutation ''audit correlation and safe payload must be JSON objects''),
         fail_if (pmr_Outbox records = [])
           (invalidProtectedMutation ''at least one outbox publication is required''),
         each_seen (validateOutbox audit) [] (pmr_Outbox records)])"

fun enqueue_all :: "string \<Rightarrow> OutboxMessage list \<Rightarrow> (tables, unit) action" where
  "enqueue_all tenant [] = act_return (Inr ())"
| "enqueue_all tenant (m # ms) = act_bind (Enqueue tenant m) (\<lambda>_. enqueue_all tenant ms)"

definition ProtectedMutation_Execute ::
  "string \<Rightarrow> ProtectedMutationRecords \<Rightarrow> (tables, unit) action option \<Rightarrow> (tables, unit) action" where
  "ProtectedMutation_Execute tenant records mutation =
     (case mutation of
        None \<Rightarrow> act_return (Inl (invalidProtectedMutation ''protected mutation callback is required''))
      | Some body \<Rightarrow>
          (case validateProtectedMutationRecords records of
             Some err \<Rightarrow> act_return (Inl err)
           | None \<Rightarrow> WithinTransaction
               (act_bind (act_map_error (ErrWrap ''apply protected mutation'') body)
                 (\<lambda>_. act_bind (Audit_Record tenant (pmr_Audit records))
                   (\<lambda>_. enqueue_all tenant (pmr_Outbox records))))))"

section \<open>Effects of the calls\<close>

lemma unit_of_effect:
  assumes "\<And>r d. m c = (r, d) \<Longrightarrow> P (conn_db d)" "unit_of m c = (r, d)"
  shows "P (conn_db d)"
  using assms by (auto simp: unit_of_def act_bind_def act_return_def split: prod.splits sum.splits)

lemma act_map_error_effect:
  assumes "\<And>r d. m c = (r, d) \<Longrightarrow> P (conn_db d)" "act_map_error g m c = (r, d)"
  shows "P (conn_db d)"
  using assms by (auto simp: act_map_error_def split: prod.splits)

lemma exec_effect:
  assumes "statement (exec f) c = (r, d)" "P (conn_db c)"
    and "\<And>n t. f (conn_db c) = Inr (n, t) \<Longrightarrow> P t"
  shows "P (conn_db d)"
  using statement_effect [OF assms(1)] assms(2, 3)
  by (auto simp: exec_snd split: sum.splits)

lemma exec_one_effect:
  assumes "exec_one operation conflict f c = (r, d)" "P (conn_db c)"
    and "\<And>n t. f (conn_db c) = Inr (n, t) \<Longrightarrow> P t"
  shows "P (conn_db d)"
proof -
  obtain r' d' where run: "statement (exec f) c = (r', d')" by fastforce
  with assms(1) have "conn_db d = conn_db d'"
    by (auto simp: exec_one_def act_bind_def act_map_error_def act_return_def
        split: prod.splits sum.splits)
  with exec_effect [OF run] assms(2, 3) show ?thesis by metis
qed

lemma exec_one_Inr:
  assumes "exec_one operation conflict f c = (Inr u, d)"
  shows "f (conn_db c) = Inr (1, conn_db d)"
  using assms
  by (auto simp: exec_one_def act_bind_Inr act_map_error_Inr act_return_def split: if_splits
      dest!: statement_Inr)

section \<open>Released versions\<close>

datatype catalog_call =
    CallSaveDraft string string string instant
  | CallPublish string string instant
  | CallRetire string string
  | CallSetExposure string string string bool instant

definition catalog_call :: "Format \<Rightarrow> tables conn \<Rightarrow> catalog_call \<Rightarrow> tables conn" where
  "catalog_call jcs_Format c call =
     (case call of
        CallSaveDraft tool version text moment \<Rightarrow>
          snd (SaveDraft jcs_Format (Some ()) tool version text moment c)
      | CallPublish tool version moment \<Rightarrow> snd (Admin_Publish (Some ()) tool version moment c)
      | CallRetire tool version \<Rightarrow> snd (Admin_Retire (Some ()) tool version c)
      | CallSetExposure tenant tool version enabled moment \<Rightarrow>
          snd (SetExposure tenant tool version enabled moment c))"

text \<open>What may become of a released version: nothing, or retirement.\<close>

definition released_as :: "pg_ToolVersion \<Rightarrow> string \<times> string \<Rightarrow> tables \<Rightarrow> bool" where
  "released_as v key db \<longleftrightarrow>
     map_of (t_tool_versions db) key = Some v
     \<or> (ptv_State v = ''published''
         \<and> map_of (t_tool_versions db) key = Some (v\<lparr>ptv_State := ''retired''\<rparr>))"

definition is_released :: "pg_ToolVersion \<Rightarrow> bool" where
  "is_released v \<longleftrightarrow> ptv_State v = ''published'' \<or> ptv_State v = ''retired''"

lemma draft_upsert_released:
  assumes "draft_upsert tool version text digest db = Inr (n, db')" "released_as v key db" "is_released v"
  shows "released_as v key db'"
  using assms
  by (auto simp: draft_upsert_def released_as_def is_released_def Let_def AList.update_conv'
      map_of_append map_add_def split: option.splits if_splits)

lemma version_update_released:
  assumes "version_update tool version state f db = Inr (n, db')" "released_as v key db" "is_released v"
  shows "released_as v key db'"
  using assms
  by (auto simp: version_update_def released_as_def is_released_def check_def protect_released_def
      AList.update_conv' split: option.splits if_splits)

lemma exposure_upsert_versions:
  "exposure_upsert tenant tool version enabled moment db = Inr (n, db') \<Longrightarrow>
     t_tool_versions db' = t_tool_versions db"
  by (auto simp: exposure_upsert_def)

lemma catalog_call_released:
  assumes "released_as v key (conn_db c)" "is_released v"
  shows "released_as v key (conn_db (catalog_call jcs_Format c call))"
proof (cases call)
  case (CallSaveDraft tool version source moment)
  obtain r d where "SaveDraft jcs_Format (Some ()) tool version source moment c = (r, d)" by fastforce
  then have "released_as v key (conn_db d)"
    using assms
    by (auto simp: SaveDraft_def act_return_def split: option.splits sum.splits if_splits
        elim!: exec_one_effect intro: draft_upsert_released [OF _ assms])
  with CallSaveDraft \<open>SaveDraft _ _ _ _ _ _ _ = _\<close> show ?thesis by (simp add: catalog_call_def)
next
  case (CallPublish tool version moment)
  obtain r d where "Admin_Publish (Some ()) tool version moment c = (r, d)" by fastforce
  then have "released_as v key (conn_db d)"
    using assms
    by (auto simp: Admin_Publish_def act_return_def split: option.splits elim!: exec_one_effect
        intro: version_update_released [OF _ assms])
  with CallPublish \<open>Admin_Publish _ _ _ _ _ = _\<close> show ?thesis by (simp add: catalog_call_def)
next
  case (CallRetire tool version)
  obtain r d where "Admin_Retire (Some ()) tool version c = (r, d)" by fastforce
  then have "released_as v key (conn_db d)"
    using assms
    by (auto simp: Admin_Retire_def act_return_def split: option.splits elim!: exec_one_effect
        intro: version_update_released [OF _ assms])
  with CallRetire \<open>Admin_Retire _ _ _ _ = _\<close> show ?thesis by (simp add: catalog_call_def)
next
  case (CallSetExposure tenant tool version enabled moment)
  obtain r d where run: "SetExposure tenant tool version enabled moment c = (r, d)" by fastforce
  have "released_as v key t"
    if "exposure_upsert tenant tool version enabled moment (conn_db c) = Inr (n, t)" for n t
    using exposure_upsert_versions [OF that] assms(1) by (simp add: released_as_def)
  with run assms(1) have "released_as v key (conn_db d)"
    by (auto simp: SetExposure_def act_return_def split: option.splits
        elim!: unit_of_effect [rotated] act_map_error_effect [rotated] exec_effect)
  with CallSetExposure run show ?thesis by (simp add: catalog_call_def)
qed

lemma catalog_calls_released:
  "released_as v key (conn_db c) \<Longrightarrow> is_released v \<Longrightarrow>
     released_as v key (conn_db (foldl (catalog_call jcs_Format) c calls))"
  by (induction calls arbitrary: c) (auto intro: catalog_call_released)

text \<open>
  C23. A published or retired tool version is immutable: whatever drafts, publications, retirements
  and exposures are attempted afterwards, with whatever failures of the database connection, its
  definition, digest and publication time stay as they were and its state moves at most from published
  to retired.
\<close>

theorem released_versions_are_immutable:
  assumes "map_of (t_tool_versions (conn_db c)) (tool, version) = Some v" and "is_released v"
    and "map_of (t_tool_versions (conn_db (foldl (catalog_call jcs_Format) c calls))) (tool, version) = w"
  shows "w = Some v \<or> (ptv_State v = ''published'' \<and> w = Some (v\<lparr>ptv_State := ''retired''\<rparr>))"
  using catalog_calls_released [of v "(tool, version)" c jcs_Format calls] assms
  by (simp add: released_as_def)

definition empty_tables :: tables where
  "empty_tables = \<lparr>t_server = \<lparr>sv_jsonb = id, sv_timestamptz = id\<rparr>, t_tenants = [''t''], t_tools = [],
     t_tool_versions = [], t_exposures = [], t_connector_instances = [], t_credential_bindings = [],
     t_invocations = [], t_attempts = [], t_decisions = [], t_evaluations = [], t_approvals = [],
     t_results = [], t_usage = [], t_audit = [], t_idempotency = [], t_outbox = []\<rparr>"

definition sample_version :: pg_ToolVersion where
  "sample_version = \<lparr>ptv_ToolID = ''a.b'', ptv_Version = ''1.0.0'', ptv_State = ''published'',
     ptv_Definition = ''{}'', ptv_DefinitionDigest = replicate 32 0, ptv_PublishedAt = Some 5\<rparr>"

definition sample_tables :: tables where
  "sample_tables = empty_tables\<lparr>t_tools := [''a.b''],
     t_tool_versions := [((''a.b'', ''1.0.0''), sample_version)]\<rparr>"

lemma sample_key_valid: "validateToolVersionKey ''a.b'' ''1.0.0'' = None"
  by (simp add: validateToolVersionKey_def tool_eval re_eval semver_eval)

lemmas pg_eval =
  act_bind_def act_map_error_def act_return_def exec_def exec_one_def unit_of_def query_one_def
  insert_stmt_def insert_row_def update_row_def check_def tenant_exists_def invocation_exists_def
  next_outcome_def

theorem released_versions_are_immutable_witness:
  "Some (sample_version\<lparr>ptv_State := ''retired''\<rparr>) = Some sample_version
   \<or> (ptv_State sample_version = ''published''
      \<and> Some (sample_version\<lparr>ptv_State := ''retired''\<rparr>)
          = Some (sample_version\<lparr>ptv_State := ''retired''\<rparr>))"
proof (rule released_versions_are_immutable)
  let ?c = "\<lparr>conn_db = sample_tables, conn_outcomes = []\<rparr>"
  show "map_of (t_tool_versions (conn_db ?c)) (''a.b'', ''1.0.0'') = Some sample_version"
    by (simp add: sample_tables_def)
  show "is_released sample_version" by (simp add: is_released_def sample_version_def)
  show "map_of (t_tool_versions (conn_db (foldl (catalog_call (\<lambda>_. Inr [])) ?c
      [CallRetire ''a.b'' ''1.0.0'', CallPublish ''a.b'' ''1.0.0'' 9]))) (''a.b'', ''1.0.0'')
      = Some (sample_version\<lparr>ptv_State := ''retired''\<rparr>)"
    by (simp add: catalog_call_def Admin_Retire_def Admin_Publish_def repository_required_def
        sample_key_valid IsZero_def version_update_def sample_tables_def sample_version_def
        tool_version_ok_def protect_released_def pg_eval)
qed

section \<open>Evidence of protected mutations\<close>

text \<open>The evidence of a mutation: its audit event and one undelivered message per topic.\<close>

definition audit_recorded :: "string \<Rightarrow> AuditEvent \<Rightarrow> tables \<Rightarrow> bool" where
  "audit_recorded tenant audit db \<longleftrightarrow>
     (\<exists>row. map_of (t_audit db) (tenant, ae_EventID audit) = Some row
        \<and> ae_EventType row = ae_EventType audit \<and> ae_Outcome row = ae_Outcome audit
        \<and> ae_PayloadDigest row = ae_PayloadDigest audit)"

definition message_enqueued :: "string \<Rightarrow> OutboxMessage \<Rightarrow> tables \<Rightarrow> bool" where
  "message_enqueued tenant m db \<longleftrightarrow>
     (\<exists>row. map_of (t_outbox db) (tenant, om_ID m) = Some row
        \<and> om_EventID row = om_EventID m \<and> om_Topic row = om_Topic m
        \<and> om_PayloadDigest row = om_PayloadDigest m
        \<and> ob_published_at row = None \<and> ob_dead_lettered_at row = None)"

lemma Enqueue_Inr:
  assumes "Enqueue tenant m c = (Inr u, d)"
  shows "message_enqueued tenant m (conn_db d)" "t_audit (conn_db d) = t_audit (conn_db c)"
    "message_enqueued tenant n (conn_db c) \<Longrightarrow> message_enqueued tenant n (conn_db d)"
proof -
  from assms obtain tbl where tbl: "insert_outbox tenant m (conn_db c) = Inr tbl"
    "conn_db d = (conn_db c)\<lparr>t_outbox := tbl\<rparr>"
    unfolding Enqueue_def by (rule insert_stmt_Inr)
  from tbl(1) have new: "map_of (t_outbox (conn_db c)) (tenant, om_ID m) = None"
    unfolding insert_outbox_def by (simp add: insert_row_Inr)
  from tbl(1) have rows: "map_of tbl =
      (map_of (t_outbox (conn_db c)))((tenant, om_ID m) \<mapsto> outbox_new (conn_db c) m)"
    unfolding insert_outbox_def by (rule insert_row_lookup)
  show "message_enqueued tenant m (conn_db d)" "t_audit (conn_db d) = t_audit (conn_db c)"
    using tbl(2) rows by (simp_all add: message_enqueued_def outbox_new_def)
  show "message_enqueued tenant n (conn_db d)" if "message_enqueued tenant n (conn_db c)"
    using that tbl(2) rows new by (auto simp: message_enqueued_def)
qed

lemma enqueue_all_Inr:
  "enqueue_all tenant ms c = (Inr u, d) \<Longrightarrow>
     t_audit (conn_db d) = t_audit (conn_db c) \<and> (\<forall>m \<in> set ms. message_enqueued tenant m (conn_db d))
     \<and> (\<forall>n. message_enqueued tenant n (conn_db c) \<longrightarrow> message_enqueued tenant n (conn_db d))"
proof (induction ms arbitrary: c)
  case (Cons m ms)
  then obtain w c' where first: "Enqueue tenant m c = (Inr w, c')"
    and rest: "enqueue_all tenant ms c' = (Inr u, d)"
    by (auto simp: act_bind_Inr)
  from Enqueue_Inr [OF first] Cons.IH [OF rest] show ?case by auto
qed (simp add: act_return_def)

lemma Audit_Record_Inr:
  assumes "Audit_Record tenant audit c = (Inr u, d)"
  shows "audit_recorded tenant audit (conn_db d)"
proof -
  from assms obtain tbl where tbl: "insert_audit tenant audit (conn_db c) = Inr tbl"
    "conn_db d = (conn_db c)\<lparr>t_audit := tbl\<rparr>"
    unfolding Audit_Record_def by (rule insert_stmt_Inr)
  then show ?thesis
    by (auto simp: insert_audit_def Let_def audit_recorded_def dest: insert_row_lookup)
qed

lemma enqueue_all_decisions:
  "enqueue_all tenant ms c = (Inr u, d) \<Longrightarrow> t_decisions (conn_db d) = t_decisions (conn_db c)"
proof (induction ms arbitrary: c)
  case (Cons m ms)
  then obtain w c' where first: "Enqueue tenant m c = (Inr w, c')"
    and rest: "enqueue_all tenant ms c' = (Inr u, d)"
    by (auto simp: act_bind_Inr)
  from first obtain tbl where "conn_db c' = (conn_db c)\<lparr>t_outbox := tbl\<rparr>"
    unfolding Enqueue_def by (rule insert_stmt_Inr)
  with Cons.IH [OF rest] show ?case by simp
qed (simp add: act_return_def)

lemma Audit_Record_decisions:
  assumes "Audit_Record tenant audit c = (Inr u, d)"
  shows "t_decisions (conn_db d) = t_decisions (conn_db c)"
proof -
  from assms obtain tbl where "conn_db d = (conn_db c)\<lparr>t_audit := tbl\<rparr>"
    unfolding Audit_Record_def by (rule insert_stmt_Inr)
  then show ?thesis by simp
qed

text \<open>A protected mutation leaves the database alone, or its callback ran and left its evidence.\<close>

definition evidence_recorded :: "string \<Rightarrow> ProtectedMutationRecords \<Rightarrow> tables \<Rightarrow> bool" where
  "evidence_recorded tenant records db \<longleftrightarrow>
     pmr_Outbox records \<noteq> [] \<and> audit_recorded tenant (pmr_Audit records) db
     \<and> (\<forall>m \<in> set (pmr_Outbox records). message_enqueued tenant m db
          \<and> om_EventID m = ae_EventID (pmr_Audit records))"

lemma ProtectedMutation_effect:
  assumes "ProtectedMutation_Execute tenant records mutation c = (r, d)"
  shows "(conn_db d = conn_db c \<and> (\<exists>e. r = Inl e))
    \<or> (\<exists>body c0 u c1. mutation = Some body \<and> conn_db c0 = conn_db c \<and> body c0 = (Inr u, c1)
        \<and> t_decisions (conn_db d) = t_decisions (conn_db c1) \<and> evidence_recorded tenant records (conn_db d))"
proof (cases "mutation = None \<or> validateProtectedMutationRecords records \<noteq> None")
  case True
  with assms show ?thesis
    by (auto simp: ProtectedMutation_Execute_def act_return_def split: option.splits)
next
  case False
  then obtain body where body: "mutation = Some body"
    and valid: "validateProtectedMutationRecords records = None" by auto
  define fn where "fn = act_bind (act_map_error (ErrWrap ''apply protected mutation'') body)
    (\<lambda>_. act_bind (Audit_Record tenant (pmr_Audit records))
      (\<lambda>_. enqueue_all tenant (pmr_Outbox records)))"
  from assms body valid have "WithinTransaction fn c = (r, d)"
    by (simp add: ProtectedMutation_Execute_def fn_def)
  then show ?thesis
  proof (cases rule: WithinTransaction_effect)
    case 1
    then show ?thesis by blast
  next
    case (2 c' a d')
    from 2(2) obtain w c1 u c2 where run: "body c' = (Inr w, c1)"
      and audit: "Audit_Record tenant (pmr_Audit records) c1 = (Inr u, c2)"
      and sent: "enqueue_all tenant (pmr_Outbox records) c2 = (Inr a, d')"
      by (auto simp: fn_def act_bind_Inr act_map_error_Inr)
    from Audit_Record_Inr [OF audit] enqueue_all_Inr [OF sent] 2(3)
    have "audit_recorded tenant (pmr_Audit records) (conn_db d)"
      "\<forall>m \<in> set (pmr_Outbox records). message_enqueued tenant m (conn_db d)"
      by (auto simp: audit_recorded_def)
    moreover have "pmr_Outbox records \<noteq> []"
      "\<forall>m \<in> set (pmr_Outbox records). om_EventID m = ae_EventID (pmr_Audit records)"
      using valid by (auto simp: validateProtectedMutationRecords_def Let_def validateOutbox_def
          dest: each_seen_None_elem)
    moreover have "t_decisions (conn_db d) = t_decisions (conn_db c1)"
      using Audit_Record_decisions [OF audit] enqueue_all_decisions [OF sent] 2(3) by simp
    ultimately show ?thesis using body run 2(1) unfolding evidence_recorded_def by blast
  qed
qed

text \<open>
  C3. No protected state changes without evidence: after \<open>Execute\<close>, for every mutation callback and
  every failure of the connection, a lost commit answer included, either the database is exactly what
  it was or the mandatory audit event and every outbox message are recorded with the change, the
  messages undelivered and for that event. A successful answer means the latter.
\<close>

theorem protected_changes_have_evidence:
  assumes "ProtectedMutation_Execute tenant records mutation c = (r, d)"
  shows "(conn_db d = conn_db c \<and> (\<exists>e. r = Inl e))
    \<or> (pmr_Outbox records \<noteq> [] \<and> audit_recorded tenant (pmr_Audit records) (conn_db d)
        \<and> (\<forall>m \<in> set (pmr_Outbox records). message_enqueued tenant m (conn_db d)
             \<and> om_EventID m = ae_EventID (pmr_Audit records)))"
  using ProtectedMutation_effect [OF assms] unfolding evidence_recorded_def by blast

definition sample_audit :: AuditEvent where
  "sample_audit = \<lparr>ae_EventID = ''00000000-0000-7000-8000-000000000001'', ae_InvocationID = None,
     ae_EventType = ''tool.published'', ae_EvidenceProfile = ''p'', ae_ActorClass = ''operator'',
     ae_ActorRef = None, ae_Outcome = ''ok'', ae_ReasonCode = None, ae_Correlation = ''{}'',
     ae_SafePayload = ''{}'', ae_PayloadDigest = replicate 32 0, ae_OccurredAt = 5, ae_RecordedAt = 6\<rparr>"

definition sample_message :: OutboxMessage where
  "sample_message = \<lparr>om_ID = ''00000000-0000-7000-8000-000000000002'',
     om_EventID = ''00000000-0000-7000-8000-000000000001'', om_Topic = ''evidence'',
     om_EventType = ''tool.published'', om_SafePayload = ''{}'', om_PayloadDigest = replicate 32 0,
     om_CreatedAt = 5, om_AvailableAt = 5\<rparr>"

definition sample_records :: ProtectedMutationRecords where
  "sample_records = \<lparr>pmr_Audit = sample_audit, pmr_Outbox = [sample_message]\<rparr>"

lemma jsonObject_empty: "jsonObject ''{}''"
  by (simp add: jsonObject_def Unmarshal_value_def Decode_value_def expect_def skip_ws_def is_ws_def
      max_depth_def)

lemma sample_records_valid: "validateProtectedMutationRecords sample_records = None"
  by (simp add: validateProtectedMutationRecords_def sample_records_def sample_audit_def
      sample_message_def validateOutbox_def jsonObject_empty ParseUUID_def hex_value_def IsZero_def
      trim_eval)

lemma sample_mutation_execution:
  "ProtectedMutation_Execute ''t'' sample_records (Some (act_return (Inr ())))
     \<lparr>conn_db = sample_tables, conn_outcomes = []\<rparr>
   = (Inr (), \<lparr>conn_db = sample_tables\<lparr>t_audit := [((''t'', ae_EventID sample_audit), sample_audit)],
        t_outbox := [((''t'', om_ID sample_message), outbox_new sample_tables sample_message)]\<rparr>,
      conn_outcomes = []\<rparr>)"
  by (simp add: ProtectedMutation_Execute_def sample_records_valid Audit_Record_def Enqueue_def pg_eval
      insert_audit_def insert_outbox_def audit_ok_def outbox_ok_def)
    (simp add: sample_records_def sample_audit_def sample_message_def sample_tables_def
      empty_tables_def pg_eval insert_audit_def insert_outbox_def audit_ok_def outbox_ok_def
      Audit_Record_def Enqueue_def outbox_new_def)

theorem protected_changes_have_evidence_witness:
  "audit_recorded ''t'' sample_audit (sample_tables\<lparr>
       t_audit := [((''t'', ae_EventID sample_audit), sample_audit)],
       t_outbox := [((''t'', om_ID sample_message), outbox_new sample_tables sample_message)]\<rparr>)"
  using protected_changes_have_evidence [OF sample_mutation_execution]
  by (simp add: sample_records_def)

end
