(* ===== verification/Tool_Calls.thy ===== *)
theory Tool_Calls
  imports Resource_Projection Schema_Validator Authorization_Props Pg_Repositories
begin

text \<open>
  The tool-call service (\<open>internal/app/tool_calls.go\<close>) and the ports it calls
  (\<open>internal/ports/invocation.go\<close>): the whole of \<open>Create\<close>, from the caller's request to the connector,
  and the query \<open>Get\<close>. Ports act on a world \<open>'w\<close>; a capability is any value with a release. The service
  reads its schema validator, whose cache is modelled in \<open>Schema_Validator\<close>. The time limit of the
  execution context is handed to the broker and the connector as a duration.
\<close>

section \<open>Port types\<close>

record InvocationIdentity =
  ii_TenantID :: string
  ii_Subject :: string
  ii_Actor :: string
  ii_AgentID :: string
  ii_AgentVersion :: string
  ii_RunID :: string
  ii_WorkloadID :: string

record LogicalInvocation =
  li_ID :: string
  li_RunID :: string
  li_ToolCallID :: string
  li_ToolID :: string
  li_ToolVersion :: string
  li_ArgumentProfile :: string
  li_ArgumentDigest :: Digest
  li_ResourceDigest :: Digest
  li_ResourceProjection :: string
  li_RetryClass :: string
  li_State :: string
  li_CreatedAt :: instant
  li_UpdatedAt :: instant

datatype InvocationAcquisitionKind = InvocationOwned | InvocationExisting | InvocationConflict

record port_Acquisition =
  pa_Kind :: InvocationAcquisitionKind
  pa_Invocation :: LogicalInvocation

record 'lease ConnectorRequest =
  cq_InvocationID :: string
  cq_Tool :: ToolVersionDefinition
  cq_CanonicalArguments :: string
  cq_ResourceProjection :: string
  cq_Decision :: AuthorizationDecision
  cq_Credential :: 'lease

record ConnectorEvidence =
  ce_ProviderRequestID :: string
  ce_ProviderResultID :: string
  ce_ResourceVersion :: string
  ce_SafeMetadata :: string

record ConnectorResult =
  cres_Classification :: string
  cres_Result :: string
  cres_Evidence :: ConnectorEvidence

section \<open>The service\<close>

record ToolCallRequest =
  tcr_ToolCallID :: string
  tcr_ToolID :: string
  tcr_Version :: string
  tcr_Arguments :: string
  tcr_Identity :: InvocationIdentity

record ToolCallResult =
  tco_Invocation :: LogicalInvocation
  tco_State :: string
  tco_Existing :: bool

type_synonym ('w, 'a) call = "'w \<Rightarrow> 'a result \<times> 'w"

record ('w, 'lease, 's) ToolCallService =
  tcs_tools :: "InvocationIdentity \<Rightarrow> string \<Rightarrow> string \<Rightarrow> ('w, ToolVersionDefinition) call"
  tcs_Acquire :: "InvocationIdentity \<Rightarrow> LogicalInvocation \<Rightarrow> ('w, port_Acquisition) call"
  tcs_RecordAuthorization :: "InvocationIdentity \<Rightarrow> string \<Rightarrow> AuthorizationDecision \<Rightarrow> Digest \<Rightarrow> Digest
     \<Rightarrow> instant \<Rightarrow> ('w, unit) call"
  tcs_authorizer :: "'w Authorizer"
  tcs_credentials :: "duration \<Rightarrow> InvocationIdentity \<Rightarrow> ToolVersionDefinition \<Rightarrow> AuthorizationDecision
     \<Rightarrow> ('w, 'lease option) call"
  tcs_Release :: "'lease \<Rightarrow> 'w \<Rightarrow> 'w"
  tcs_connector :: "duration \<Rightarrow> 'lease ConnectorRequest \<Rightarrow> ('w, ConnectorResult) call"
  tcs_validator :: "'s Validator"
  tcs_clock :: "'w \<Rightarrow> instant \<times> 'w"
  tcs_newID :: "('w, UUID) call"
  tcs_policyProfile :: string
  tcs_policyVersion :: string

definition validInvocationText :: "string \<Rightarrow> bool" where
  "validInvocationText val \<longleftrightarrow> val \<noteq> [] \<and> length val \<le> 512 \<and> TrimSpace val = val
     \<and> \<not> ContainsAny val [CHR 0x00, CHR 0x0D, CHR 0x0A]"

definition validInvocationIdentity :: "InvocationIdentity \<Rightarrow> bool" where
  "validInvocationIdentity identity \<longleftrightarrow>
     list_all validInvocationText
       [ii_TenantID identity, ii_Subject identity, ii_AgentID identity, ii_AgentVersion identity,
        ii_RunID identity, ii_WorkloadID identity]
     \<and> (ii_Actor identity = [] \<or> validInvocationText (ii_Actor identity))"

abbreviation alphanumeric :: "char \<Rightarrow> bool" where
  "alphanumeric c \<equiv> is_digit c \<or> between 0x41 0x5A c \<or> between 0x61 0x7A c"

text \<open>\<open>range\<close> over a string visits the first byte of each rune; a byte above 127 is refused anyway.\<close>

definition validToolCallID :: "string \<Rightarrow> bool" where
  "validToolCallID val \<longleftrightarrow> 8 \<le> length val \<and> length val \<le> 128
     \<and> alphanumeric (hd val) \<and> list_all (\<lambda>c. alphanumeric c \<or> c \<in> set ''._:-'') (tl val)"

fun float_numbers :: "json \<Rightarrow> bool" where
  "float_numbers (JNumber n) \<longleftrightarrow> ParseFloat n \<noteq> None"
| "float_numbers (JArray vs) \<longleftrightarrow> list_all float_numbers vs"
| "float_numbers (JObject ms) \<longleftrightarrow> list_all (\<lambda>(k, v). float_numbers v) ms"
| "float_numbers _ \<longleftrightarrow> True"

definition validConnectorEvidence :: "ConnectorEvidence \<Rightarrow> bool" where
  "validConnectorEvidence evidence \<longleftrightarrow>
     list_all (\<lambda>val. length val \<le> 256 \<and> \<not> list_ex (\<lambda>c. c < CHR 0x20 \<or> c = CHR 0x7F) val)
       [ce_ProviderRequestID evidence, ce_ProviderResultID evidence, ce_ResourceVersion evidence]
     \<and> (ce_SafeMetadata evidence = []
        \<or> length (ce_SafeMetadata evidence) \<le> 4096
          \<and> (case Unmarshal_value (ce_SafeMetadata evidence) of
               Some (JObject ms) \<Rightarrow> float_numbers (JObject ms) | _ \<Rightarrow> False))"

definition connectorState :: "string \<Rightarrow> string option" where
  "connectorState classification =
     (if classification = ''confirmed_success'' then Some ''post_tool''
      else if classification \<in> set [''definitely_rejected'', ''not_sent'', ''cancelled_pre_send''] then Some ''failed''
      else if classification = ''transient_safe'' then Some ''retry_wait''
      else if classification = ''unknown'' then Some ''ambiguous''
      else None)"

text \<open>
  A literal of a tool definition, as a Go value: numbers are \<open>float64\<close>; decoding refused the others.
\<close>

fun any_of_json :: "json \<Rightarrow> cvalue" where
  "any_of_json JNull = CNull"
| "any_of_json (JBool b) = CBool b"
| "any_of_json (JNumber n) = CNumber (case ParseFloat n of Some q \<Rightarrow> q | None \<Rightarrow> 0)"
| "any_of_json (JString s) = CString s"
| "any_of_json (JArray vs) = CArray (map any_of_json vs)"
| "any_of_json (JObject ms) = CObject (map (\<lambda>(k, v). (k, any_of_json v)) ms)"

definition projectionDefinition :: "ResourceProjectionDefinition \<Rightarrow> Definition" where
  "projectionDefinition input =
     \<lparr>df_Fields = map (\<lambda>f. \<lparr>fd_Name = rpf_Name f, fd_Pointer = rpf_Pointer f,
        fd_Literal = any_of_json (rpf_Literal f), fd_Required = rpf_Required f, fd_Type = rpf_Type f\<rparr>) (rpd_Fields input),
      df_MaxFields = rpd_MaxFields input, df_MaxOutputBytes = rpd_MaxOutputBytes input\<rparr>"

definition authorizationRequest ::
  "InvocationIdentity \<Rightarrow> LogicalInvocation \<Rightarrow> ToolVersionDefinition \<Rightarrow> (string \<times> cvalue) list
     \<Rightarrow> string \<Rightarrow> string \<Rightarrow> AuthorizationRequest" where
  "authorizationRequest identity invocation tool resource profile version =
     \<lparr>ar_RequestID = li_ID invocation, ar_TenantID = ii_TenantID identity, ar_Subject = ii_Subject identity,
      ar_Actor = ii_Actor identity, ar_AgentID = ii_AgentID identity, ar_AgentVersion = ii_AgentVersion identity,
      ar_RunID = ii_RunID identity, ar_WorkloadID = ii_WorkloadID identity, ar_ToolID = li_ToolID invocation,
      ar_ToolVersion = li_ToolVersion invocation, ar_Risk = tvd_Risk tool,
      ar_SideEffect = (if tvd_SideEffect tool then ''true'' else ''false''), ar_ApprovalMode = tvd_Approval tool,
      ar_RetryMode = tvd_Retry tool, ar_ArgumentProfile = li_ArgumentProfile invocation,
      ar_ConnectorType = cb_ConnectorType (tvd_Connector tool), ar_Operation = cb_Operation (tvd_Connector tool),
      ar_ArgumentDigest = li_ArgumentDigest invocation, ar_ResourceDigest = li_ResourceDigest invocation,
      ar_Resources = sort (map (\<lambda>(key, v). key @ '':'' @ json_Marshal v) resource),
      ar_Actions = [cb_Operation (tvd_Connector tool)], ar_RequestedDeadline = lim_Deadline (tvd_Limits tool),
      ar_PolicyProfile = profile, ar_PolicyVersion = version\<rparr>"

section \<open>Create\<close>

definition call_bind :: "('w, 'a) call \<Rightarrow> ('a \<Rightarrow> ('w, 'b) call) \<Rightarrow> ('w, 'b) call" where
  "call_bind m f w = (case m w of (Inl err, w') \<Rightarrow> (Inl err, w') | (Inr a, w') \<Rightarrow> f a w')"

definition call_return :: "'a result \<Rightarrow> ('w, 'a) call" where
  "call_return r w = (r, w)"

definition call_map_error :: "(goerror \<Rightarrow> goerror) \<Rightarrow> ('w, 'a) call \<Rightarrow> ('w, 'a) call" where
  "call_map_error f m w = (case m w of (r, w') \<Rightarrow> (map_error f r, w'))"

definition check_call :: "ToolCallRequest \<Rightarrow> goerror option" where
  "check_call request = first_err
     [fail_if (tcr_ToolCallID request = [] \<or> \<not> validInvocationIdentity (tcr_Identity request))
        (NewError CodeInvalidContext ''tool-call context is invalid'' None),
      fail_if (\<not> validToolCallID (tcr_ToolCallID request))
        (NewError CodeInvalidArguments ''idempotency key is invalid'' None),
      fail_if (result_err (ParseToolID (tcr_ToolID request)) \<noteq> None)
        (NewError CodeToolNotFound ''tool version is not available'' None),
      fail_if (tcr_Version request \<noteq> [] \<and> result_err (ParseSemanticVersion (tcr_Version request)) \<noteq> None)
        (NewError CodeToolNotFound ''tool version is not available'' None)]"

text \<open>The JSON Schema library: how it compiles a document and validates an instance.\<close>

record 's schema_library =
  lib_compile :: "json \<Rightarrow> 's option"
  lib_validate :: "'s \<Rightarrow> json \<Rightarrow> library_error option"

definition validate_arguments :: "'s schema_library \<Rightarrow> 's Compiled \<Rightarrow> cvalue \<Rightarrow> goerror option" where
  "validate_arguments library compiled v = ValidateJSON (lib_validate library) compiled (json_Marshal v)"

text \<open>From the resolved tool to its normalised arguments and resource.\<close>

definition prepare ::
  "'s schema_library \<Rightarrow> Format \<Rightarrow> 's Validator \<Rightarrow> ToolCallRequest \<Rightarrow> ToolVersionDefinition
     \<Rightarrow> (canonical_Result \<times> Projection) result" where
  "prepare library jcs_Format validator request tool =
     (let publication = ValidateToolPublication tool
        (Some (\<lambda>raw. fst (CompileSchema (lib_compile library) raw validator))) in
      if publication \<noteq> None \<or> tvd_ToolID tool \<noteq> tcr_ToolID request
         \<or> tcr_Version request \<noteq> [] \<and> SemanticVersion_String (tvd_Version tool) \<noteq> tcr_Version request
      then Inl (NewError CodeInternal ''resolved tool version is invalid'' publication)
      else
        bind_result (map_error (\<lambda>err. NewError CodeInternal ''published input schema is invalid'' (Some err))
          (fst (Schema_Compile (lib_compile library) (tvd_InputSchema tool) validator))) (\<lambda>compiled.
        bind_result (map_error (\<lambda>err. NewError CodeInvalidArguments ''arguments are invalid'' (Some err))
          (NormalizeArguments jcs_Format (tcr_Arguments request)
            (only_bytes (lim_RequestBytes (tvd_Limits tool))) (Some (validate_arguments library compiled)))) (\<lambda>arguments.
        bind_result (map_error (\<lambda>err. NewError CodeInvalidArguments ''resource projection failed'' (Some err))
          (Project jcs_Format arguments (projectionDefinition (tvd_ResourceProjection tool)))) (\<lambda>projection.
        Inr (arguments, projection)))))"

definition call_ceiling :: "AuthorizationRequest \<Rightarrow> ToolVersionDefinition \<Rightarrow> ConstraintCeiling" where
  "call_ceiling request tool =
     \<lparr>ac_Repositories = [], ac_Resources = ar_Resources request, ac_Actions = ar_Actions request,
      ac_ArgumentMax = [], ac_MaxResultBytes = lim_ResultBytes (tvd_Limits tool),
      ac_MaxDuration = lim_Deadline (tvd_Limits tool)\<rparr>"

definition connector_outcome :: "LogicalInvocation \<Rightarrow> ConnectorResult result \<Rightarrow> ToolCallResult result" where
  "connector_outcome invocation r =
     (case r of
        Inl err \<Rightarrow> Inl (NewError CodeConnectorError ''connector execution failed'' (Some err))
      | Inr out \<Rightarrow>
          if \<not> validConnectorEvidence (cres_Evidence out)
          then Inl (NewError CodeInternal ''connector returned invalid evidence'' None)
          else (case connectorState (cres_Classification out) of
              None \<Rightarrow> Inl (NewError CodeInternal ''connector returned an invalid public state'' None)
            | Some state \<Rightarrow> Inr \<lparr>tco_Invocation = invocation, tco_State = state, tco_Existing = False\<rparr>))"

text \<open>The part of \<open>Create\<close> after authorization: narrowing, the capability, the connector, the release.\<close>

definition execute_call ::
  "('w, 'lease, 's) ToolCallService \<Rightarrow> InvocationIdentity \<Rightarrow> LogicalInvocation \<Rightarrow> ToolVersionDefinition
     \<Rightarrow> canonical_Result \<Rightarrow> Projection \<Rightarrow> AuthorizationRequest \<Rightarrow> AuthorizationDecision \<Rightarrow> ('w, ToolCallResult) call" where
  "execute_call service identity invocation tool arguments projection authRequest decision w =
     (case NarrowAuthorizationConstraints decision (call_ceiling authRequest tool) of
        Inl err \<Rightarrow>
          (Inl (NewError CodeAuthorizationDenied ''authorization constraints cannot be enforced'' (Some err)), w)
      | Inr narrowed \<Rightarrow>
          (let bound = decision\<lparr>ad_Constraints := narrowed\<rparr>; limit = ac_MaxDuration narrowed in
           case tcs_credentials service limit identity tool bound w of
             (Inl err, w1) \<Rightarrow>
               (Inl (NewError CodeCredentialUnavailable ''credential could not be resolved'' (Some err)), w1)
           | (Inr None, w1) \<Rightarrow>
               (Inl (NewError CodeInternal ''credential broker returned no capability'' None), w1)
           | (Inr (Some lease), w1) \<Rightarrow>
               (case tcs_connector service limit
                   \<lparr>cq_InvocationID = li_ID invocation, cq_Tool = tool,
                    cq_CanonicalArguments = cr_Canonical arguments,
                    cq_ResourceProjection = pr_Canonical projection, cq_Decision = bound,
                    cq_Credential = lease\<rparr> w1 of
                  (r, w2) \<Rightarrow> (connector_outcome invocation r, tcs_Release service lease w2))))"

text \<open>The part of \<open>Create\<close> for the request that owns the invocation.\<close>

definition authorize_call ::
  "('w, 'lease, 's) ToolCallService \<Rightarrow> InvocationIdentity \<Rightarrow> LogicalInvocation \<Rightarrow> ToolVersionDefinition
     \<Rightarrow> canonical_Result \<Rightarrow> Projection \<Rightarrow> instant \<Rightarrow> ('w, ToolCallResult) call" where
  "authorize_call service identity invocation tool arguments projection now =
     (let authRequest = authorizationRequest identity invocation tool (pr_Value projection)
            (tcs_policyProfile service) (tcs_policyVersion service) in
      call_bind (call_map_error
          (\<lambda>err. NewError CodeServiceUnavailable ''authorization could not be established'' (Some err))
          (tcs_authorizer service authRequest)) (\<lambda>decision.
      case ValidateFor decision authRequest of
        Some err \<Rightarrow> call_return
          (Inl (NewError CodeAuthorizationDenied ''authorization decision is invalid'' (Some err)))
      | None \<Rightarrow>
          call_bind (tcs_RecordAuthorization service identity (li_ID invocation) decision
              (cr_Digest arguments) (pr_Digest projection) now) (\<lambda>_.
          if ad_Outcome decision \<noteq> AuthorizationAllow
          then call_return (Inl (NewError CodeAuthorizationDenied ''tool invocation is not authorized'' None))
          else execute_call service identity invocation tool arguments projection authRequest decision)))"

definition new_invocation ::
  "UUID \<Rightarrow> ToolCallRequest \<Rightarrow> ToolVersionDefinition \<Rightarrow> canonical_Result \<Rightarrow> Projection \<Rightarrow> instant \<Rightarrow> LogicalInvocation" where
  "new_invocation invocationID request tool arguments projection now =
     \<lparr>li_ID = UUID_String invocationID, li_RunID = ii_RunID (tcr_Identity request),
      li_ToolCallID = tcr_ToolCallID request, li_ToolID = tcr_ToolID request,
      li_ToolVersion = SemanticVersion_String (tvd_Version tool), li_ArgumentProfile = cr_Profile arguments,
      li_ArgumentDigest = cr_Digest arguments, li_ResourceDigest = pr_Digest projection,
      li_ResourceProjection = pr_Canonical projection, li_RetryClass = tvd_Retry tool, li_State = ''validated'',
      li_CreatedAt = now, li_UpdatedAt = now\<rparr>"

definition Create ::
  "'s schema_library \<Rightarrow> Format \<Rightarrow> ('w, 'lease, 's) ToolCallService option \<Rightarrow> ToolCallRequest \<Rightarrow> ('w, ToolCallResult) call" where
  "Create library jcs_Format receiver request =
     (case receiver of
        None \<Rightarrow> call_return (Inl (NewError CodeInvalidContext ''tool-call context is invalid'' None))
      | Some service \<Rightarrow>
     let identity = tcr_Identity request in
     call_bind (call_return (ensure (check_call request) (Inr ()))) (\<lambda>_.
     call_bind (tcs_tools service identity (tcr_ToolID request) (tcr_Version request)) (\<lambda>tool.
     call_bind (call_return (prepare library jcs_Format (tcs_validator service) request tool)) (\<lambda>(arguments, projection).
     call_bind (\<lambda>w. case tcs_clock service w of (now, w') \<Rightarrow> (Inr now, w')) (\<lambda>now.
     call_bind (call_map_error
         (\<lambda>err. NewError CodeInternal ''invocation identity could not be created'' (Some err))
         (tcs_newID service)) (\<lambda>invocationID.
     call_bind (tcs_Acquire service identity (new_invocation invocationID request tool arguments projection now)) (\<lambda>acquired.
       case pa_Kind acquired of
         InvocationConflict \<Rightarrow> call_return
           (Inl (NewError CodeReplayConflict ''logical invocation does not match its original request'' None))
       | InvocationExisting \<Rightarrow> call_return
           (Inr \<lparr>tco_Invocation = pa_Invocation acquired, tco_State = li_State (pa_Invocation acquired),
                 tco_Existing = True\<rparr>)
       | InvocationOwned \<Rightarrow>
           authorize_call service identity (pa_Invocation acquired) tool arguments projection now)))))))"

section \<open>Get\<close>

definition publicInvocationState :: "string \<Rightarrow> bool" where
  "publicInvocationState state \<longleftrightarrow> state \<in> set [''received'', ''validated'', ''authorized'', ''pre_tool_passed'',
     ''waiting_for_approval'', ''ready'', ''executing'', ''retry_wait'', ''reconciling'', ''ambiguous'',
     ''manual_review'', ''post_tool'', ''succeeded'', ''failed'', ''denied'', ''blocked'', ''cancelled'']"

abbreviation tool_call_missing :: "goerror option \<Rightarrow> goerror" where
  "tool_call_missing cause \<equiv> NewError CodeToolCallNotFound ''tool call was not found'' cause"

definition Query_Get ::
  "(InvocationIdentity \<Rightarrow> string \<Rightarrow> ('w, ToolCallView) call) option \<Rightarrow> InvocationIdentity \<Rightarrow> string
     \<Rightarrow> ('w, ToolCallView) call" where
  "Query_Get receiver identity toolCallID w =
     (case receiver of
        None \<Rightarrow> (Inl (tool_call_missing None), w)
      | Some reader \<Rightarrow>
          if \<not> validInvocationIdentity identity \<or> \<not> validToolCallID toolCallID
          then (Inl (tool_call_missing None), w)
          else (case reader identity toolCallID w of
              (Inl err, w1) \<Rightarrow>
                (Inl (if error_code err = Some CodeNotFound then tool_call_missing (Some err) else err), w1)
            | (Inr view, w1) \<Rightarrow>
                (if tcv_ToolCallID view \<noteq> toolCallID
                 then Inl (NewError CodeInternal ''tool-call reader returned a mismatched projection'' None)
                 else if \<not> publicInvocationState (tcv_State view)
                 then Inl (NewError CodeInternal ''tool-call reader returned an invalid state'' None)
                 else if tcv_State view \<noteq> ''succeeded'' then Inr (view\<lparr>tcv_Result := []\<rparr>)
                 else if tcv_Result view \<noteq> [] \<and> \<not> json_Valid (tcv_Result view)
                 then Inl (NewError CodeInternal ''tool-call reader returned an invalid safe result'' None)
                 else Inr view, w1)))"

section \<open>What a call does, in order\<close>

text \<open>
  The service with its effects recorded: what it asked of the ledger, the authorizer, the credential
  broker and the connector, and what the first two answered.
\<close>

datatype 'lease call_event =
    EvAcquire LogicalInvocation "port_Acquisition result"
  | EvAuthorization AuthorizationRequest "AuthorizationDecision result"
  | EvRecord string AuthorizationDecision Digest Digest "unit result"
  | EvCredential duration AuthorizationDecision
  | EvConnector duration "'lease ConnectorRequest"
  | EvReleased 'lease

definition traced :: "('w, 'a) call \<Rightarrow> ('a result \<Rightarrow> 'e) \<Rightarrow> ('w \<times> 'e list, 'a) call" where
  "traced m event st = (case st of (w, tr) \<Rightarrow> case m w of (r, w') \<Rightarrow> (r, w', tr @ [event r]))"

definition untraced :: "('w \<Rightarrow> 'a \<times> 'w) \<Rightarrow> 'w \<times> 'e list \<Rightarrow> 'a \<times> 'w \<times> 'e list" where
  "untraced m st = (case st of (w, tr) \<Rightarrow> case m w of (r, w') \<Rightarrow> (r, w', tr))"

definition traced_calls ::
  "('w, 'lease, 's) ToolCallService \<Rightarrow> ('w \<times> 'lease call_event list, 'lease, 's) ToolCallService" where
  "traced_calls s =
     \<lparr>tcs_tools = (\<lambda>i t v. untraced (tcs_tools s i t v)),
      tcs_Acquire = (\<lambda>i v. traced (tcs_Acquire s i v) (EvAcquire v)),
      tcs_RecordAuthorization = (\<lambda>i x d a r now. traced (tcs_RecordAuthorization s i x d a r now) (EvRecord x d a r)),
      tcs_authorizer = (\<lambda>q. traced (tcs_authorizer s q) (EvAuthorization q)),
      tcs_credentials = (\<lambda>l i t d. traced (tcs_credentials s l i t d) (\<lambda>_. EvCredential l d)),
      tcs_Release = (\<lambda>lease (w, tr). (tcs_Release s lease w, tr @ [EvReleased lease])),
      tcs_connector = (\<lambda>l q. traced (tcs_connector s l q) (\<lambda>_. EvConnector l q)),
      tcs_validator = tcs_validator s, tcs_clock = untraced (tcs_clock s), tcs_newID = untraced (tcs_newID s),
      tcs_policyProfile = tcs_policyProfile s, tcs_policyVersion = tcs_policyVersion s\<rparr>"

lemmas traced_call_simps = traced_def untraced_def traced_calls_def

lemma call_bind_cases:
  assumes "call_bind m f w = (r, w')"
  obtains err where "m w = (Inl err, w')" "r = Inl err"
  | a w1 where "m w = (Inr a, w1)" "f a w1 = (r, w')"
  using assms by (auto simp: call_bind_def split: prod.splits sum.splits)

text \<open>The events of a run that reached the connector.\<close>

definition connector_run ::
  "AuthorizationRequest \<Rightarrow> AuthorizationDecision \<Rightarrow> AuthorizationConstraints \<Rightarrow> 'lease ConnectorRequest
     \<Rightarrow> Digest \<Rightarrow> Digest \<Rightarrow> 'lease call_event list" where
  "connector_run authRequest decision narrowed q a r =
     [EvAuthorization authRequest (Inr decision), EvRecord (cq_InvocationID q) decision a r (Inr ()),
      EvCredential (ac_MaxDuration narrowed) (cq_Decision q), EvConnector (ac_MaxDuration narrowed) q,
      EvReleased (cq_Credential q)]"

lemma execute_call_events:
  assumes "execute_call (traced_calls s) identity invocation tool arguments projection authRequest decision (w, tr)
      = (res, w', tr')"
    and "EvConnector l q \<in> set tr'" "\<forall>l q. EvConnector l q \<notin> set tr"
  shows "\<exists>narrowed. NarrowAuthorizationConstraints decision (call_ceiling authRequest tool) = Inr narrowed
    \<and> l = ac_MaxDuration narrowed \<and> cq_InvocationID q = li_ID invocation \<and> cq_Tool q = tool
    \<and> cq_CanonicalArguments q = cr_Canonical arguments \<and> cq_ResourceProjection q = pr_Canonical projection
    \<and> cq_Decision q = decision\<lparr>ad_Constraints := narrowed\<rparr>
    \<and> tr' = tr @ [EvCredential l (cq_Decision q), EvConnector l q, EvReleased (cq_Credential q)]"
  using assms
  by (auto simp: execute_call_def Let_def traced_call_simps split: sum.splits prod.splits option.splits)

lemma prepare_digests:
  assumes "prepare library jcs_Format validator request tool = Inr (arguments, projection)"
  shows "cr_Digest arguments = canonical_Digest ArgumentDomain (cr_Canonical arguments)"
    "pr_Digest projection = canonical_Digest ResourceDomain (pr_Canonical projection)"
proof -
  from assms obtain compiled where
    "NormalizeArguments jcs_Format (tcr_Arguments request) (only_bytes (lim_RequestBytes (tvd_Limits tool)))
       (Some (validate_arguments library compiled)) = Inr arguments"
    "Project jcs_Format arguments (projectionDefinition (tvd_ResourceProjection tool)) = Inr projection"
    by (auto simp: prepare_def Let_def split: if_splits)
  then show "cr_Digest arguments = canonical_Digest ArgumentDomain (cr_Canonical arguments)"
    "pr_Digest projection = canonical_Digest ResourceDomain (pr_Canonical projection)"
    by (auto simp: NormalizeArguments_def Project_def Let_def split: if_splits sum.splits
        dest!: finish_projection_ok)
qed

lemma authorize_call_events:
  assumes "authorize_call (traced_calls s) identity invocation tool arguments projection now (w, tr) = (res, w', tr')"
    and "EvConnector l q \<in> set tr'" "\<forall>l q. EvConnector l q \<notin> set tr"
  shows "\<exists>authRequest decision narrowed w1 w2. tcs_authorizer s authRequest w = (Inr decision, w1)
    \<and> tcs_RecordAuthorization s identity (li_ID invocation) decision (cr_Digest arguments) (pr_Digest projection) now w1
        = (Inr (), w2)
    \<and> authRequest = authorizationRequest identity invocation tool (pr_Value projection)
      (tcs_policyProfile s) (tcs_policyVersion s)
    \<and> tr' = tr @ connector_run authRequest decision narrowed q (cr_Digest arguments) (pr_Digest projection)
    \<and> ValidateFor decision authRequest = None \<and> ad_Outcome decision = AuthorizationAllow
    \<and> NarrowAuthorizationConstraints decision (call_ceiling authRequest tool) = Inr narrowed
    \<and> l = ac_MaxDuration narrowed \<and> cq_InvocationID q = li_ID invocation \<and> cq_Tool q = tool
    \<and> cq_CanonicalArguments q = cr_Canonical arguments \<and> cq_ResourceProjection q = pr_Canonical projection
    \<and> cq_Decision q = decision\<lparr>ad_Constraints := narrowed\<rparr>"
proof -
  let ?q = "authorizationRequest identity invocation tool (pr_Value projection) (tcs_policyProfile s) (tcs_policyVersion s)"
  from assms obtain decision w1 w2 where
    run: "execute_call (traced_calls s) identity invocation tool arguments projection ?q decision
        (w2, tr @ [EvAuthorization ?q (Inr decision),
           EvRecord (li_ID invocation) decision (cr_Digest arguments) (pr_Digest projection) (Inr ())]) = (res, w', tr')"
    and ok: "ValidateFor decision ?q = None" "ad_Outcome decision = AuthorizationAllow"
      "tcs_authorizer s ?q w = (Inr decision, w1)"
      "tcs_RecordAuthorization s identity (li_ID invocation) decision (cr_Digest arguments) (pr_Digest projection) now w1
        = (Inr (), w2)"
    by (auto simp: authorize_call_def Let_def call_bind_def call_map_error_def call_return_def traced_def
        traced_calls_def map_error_def split: prod.splits sum.splits option.splits if_splits)
  from execute_call_events [OF run assms(2)] assms(3) ok show ?thesis
    by (auto simp: connector_run_def)
qed

lemma Create_events:
  assumes "Create library jcs_Format (Some (traced_calls s)) request (w, []) = (res, w', tr)"
    and "EvConnector limit q \<in> set tr"
  obtains tool arguments projection now i w1 acquired where
    "prepare library jcs_Format (tcs_validator s) request tool = Inr (arguments, projection)"
    "pa_Kind acquired = InvocationOwned"
    "authorize_call (traced_calls s) (tcr_Identity request) (pa_Invocation acquired) tool arguments
        projection now (w1, [EvAcquire (new_invocation i request tool arguments projection now) (Inr acquired)])
      = (res, w', tr)"
  using assms
  by (auto simp: Create_def Let_def call_bind_def call_map_error_def call_return_def untraced_def traced_def
      traced_calls_def map_error_def
      split: prod.splits sum.splits option.splits if_splits InvocationAcquisitionKind.splits)

section \<open>Properties\<close>

text \<open>
  C1. A connector runs at most once per call and only in this order: the ledger granted this request
  ownership of the invocation; the authorizer allowed it with a decision valid for exactly that
  invocation, tenant, tool and pair of digests; the decision was recorded with the digests of the bytes the
  connector receives; the constraints were narrowed to the tool's ceiling; a capability was resolved under
  that decision. The connector works under the durable invocation identity and the narrowed time limit, and
  the capability is released once, afterwards, whatever the connector answers.
\<close>

theorem connector_runs_only_recorded_allow:
  assumes "Create library jcs_Format (Some (traced_calls s)) request (w, []) = (res, w', tr)"
    and "EvConnector limit q \<in> set tr"
  shows "\<exists>v acquired authRequest decision narrowed.
    tr = EvAcquire v (Inr acquired) # connector_run authRequest decision narrowed q
      (canonical_Digest ArgumentDomain (cq_CanonicalArguments q))
      (canonical_Digest ResourceDomain (cq_ResourceProjection q))
    \<and> pa_Kind acquired = InvocationOwned \<and> cq_InvocationID q = li_ID (pa_Invocation acquired)
    \<and> li_ArgumentDigest v = canonical_Digest ArgumentDomain (cq_CanonicalArguments q)
    \<and> li_ResourceDigest v = canonical_Digest ResourceDomain (cq_ResourceProjection q)
    \<and> ar_RequestID authRequest = cq_InvocationID q
    \<and> ar_TenantID authRequest = ii_TenantID (tcr_Identity request)
    \<and> ar_ArgumentDigest authRequest = li_ArgumentDigest (pa_Invocation acquired)
    \<and> ValidateFor decision authRequest = None \<and> ad_Outcome decision = AuthorizationAllow
    \<and> NarrowAuthorizationConstraints decision (call_ceiling authRequest (cq_Tool q)) = Inr narrowed
    \<and> cq_Decision q = decision\<lparr>ad_Constraints := narrowed\<rparr> \<and> limit = ac_MaxDuration narrowed"
proof -
  from assms obtain tool arguments projection now i w1 acquired where
    ready: "prepare library jcs_Format (tcs_validator s) request tool = Inr (arguments, projection)"
    and owned: "pa_Kind acquired = InvocationOwned"
    and run: "authorize_call (traced_calls s) (tcr_Identity request) (pa_Invocation acquired) tool arguments
        projection now (w1, [EvAcquire (new_invocation i request tool arguments projection now) (Inr acquired)])
      = (res, w', tr)"
    by (rule Create_events)
  from authorize_call_events [OF run assms(2)] owned prepare_digests [OF ready] show ?thesis
    by (fastforce simp: new_invocation_def authorizationRequest_def)
qed

section \<open>A call that reaches the connector\<close>

definition call_text :: string where
  "call_text = CHR ''{'' # quote ''repo'' @ '':'' @ quote ''x'' @ ''}''"

definition call_resource :: "(string \<times> cvalue) list" where
  "call_resource = [(''repository'', CString ''x'')]"

definition call_library :: "unit schema_library" where
  "call_library = \<lparr>lib_compile = (\<lambda>_. Some ()), lib_validate = (\<lambda>_ _. None)\<rparr>"

definition call_arguments :: canonical_Result where
  "call_arguments = \<lparr>cr_Profile = Profile, cr_Canonical = call_text, cr_Digest = canonical_Digest ArgumentDomain call_text\<rparr>"

definition call_projection :: Projection where
  "call_projection = \<lparr>pr_Value = call_resource, pr_Canonical = json_Marshal (CObject call_resource),
     pr_Digest = canonical_Digest ResourceDomain (json_Marshal (CObject call_resource))\<rparr>"

definition call_identity :: InvocationIdentity where
  "call_identity = \<lparr>ii_TenantID = ''t'', ii_Subject = ''s'', ii_Actor = [], ii_AgentID = ''a'', ii_AgentVersion = ''1'',
     ii_RunID = ''u'', ii_WorkloadID = ''w''\<rparr>"

definition call_request :: ToolCallRequest where
  "call_request = \<lparr>tcr_ToolCallID = ''call-001'', tcr_ToolID = ''github.pulls'', tcr_Version = [],
     tcr_Arguments = call_text, tcr_Identity = call_identity\<rparr>"

definition call_invocation :: LogicalInvocation where
  "call_invocation = (new_invocation (replicate 16 0) call_request sample_tool call_arguments call_projection 100)\<lparr>li_ID := ''r''\<rparr>"

definition call_decision :: AuthorizationDecision where
  "call_decision = sample_decision\<lparr>ad_Constraints := no_constraints\<rparr>"

definition call_service :: "(unit, nat, unit) ToolCallService" where
  "call_service =
     \<lparr>tcs_tools = (\<lambda>_ _ _ w. (Inr sample_tool, w)),
      tcs_Acquire = (\<lambda>_ _ w. (Inr \<lparr>pa_Kind = InvocationOwned, pa_Invocation = call_invocation\<rparr>, w)),
      tcs_RecordAuthorization = (\<lambda>_ _ _ _ _ _ w. (Inr (), w)),
      tcs_authorizer = (\<lambda>_ w. (Inr call_decision, w)), tcs_credentials = (\<lambda>_ _ _ _ w. (Inr (Some 5), w)),
      tcs_Release = (\<lambda>_ w. w), tcs_connector = (\<lambda>_ _ w. (Inl (ErrNew []), w)),
      tcs_validator = NewValidator DefaultSchemaLimits, tcs_clock = (\<lambda>w. (100, w)),
      tcs_newID = (\<lambda>w. (Inr (replicate 16 0), w)), tcs_policyProfile = ''d'', tcs_policyVersion = ''1''\<rparr>"

lemmas call_text_eval = call_text_def call_resource_def quote_def quote_body.simps escape_ascii_def only_bytes_def
  defaultMaxOutputSize_def canonical_eval

lemma call_parse:
  "Parse call_text (only_bytes 1024) = Inr (CObject [(''repo'', CString ''x'')])"
  "Parse call_text (only_bytes (int (length call_text))) = Inr (CObject [(''repo'', CString ''x'')])"
  "Parse (json_Marshal (CObject call_resource)) (only_bytes defaultMaxOutputSize) = Inr (CObject call_resource)"
  "json_Marshal (CObject [(''repo'', CString ''x'')]) = call_text"
  "int (length (json_Marshal (CObject call_resource))) \<le> defaultMaxOutputSize"
  by (simp_all add: call_text_eval)

lemma call_normalized:
  assumes "validate (CObject [(''repo'', CString ''x'')]) = None"
  shows "NormalizeArguments marshal_format call_text (only_bytes 1024) (Some validate) = Inr call_arguments"
  using assms by (simp add: NormalizeArguments_def call_parse(1,4) format_def marshal_format_def
      call_arguments_def del: json_Marshal.simps)

lemma call_projected:
  "Project marshal_format call_arguments (projectionDefinition (tvd_ResourceProjection sample_tool)) = Inr call_projection"
proof -
  have "Canonicalize marshal_format call_text (only_bytes (int (length call_text))) = Inr call_text"
    by (simp add: Canonicalize_def call_parse(2,4) format_def marshal_format_def del: json_Marshal.simps)
  moreover have "finish_projection marshal_format defaultMaxOutputSize call_resource = Inr call_projection"
    using call_parse(5) by (simp add: finish_projection_def Canonicalize_def call_parse(3) format_def
        marshal_format_def call_projection_def del: json_Marshal.simps)
  moreover have "\<not> defaultMaxOutputSize < 2" by (simp add: defaultMaxOutputSize_def)
  ultimately show ?thesis
    using call_parse(2) unfolding Project_def compile_projection_def
    by (simp add: call_arguments_def projectionDefinition_def sample_tool_def sample_field_def Let_def
        compile_field_def ContainsAny_def parsePointer_def validType_def type_matches_def class_defs
        defaultMaxFields_def call_resource_def call_text_def)
qed

lemma call_compile:
  "\<exists>v. Schema_Compile (\<lambda>_. Some ()) ''{}'' (NewValidator DefaultSchemaLimits)
     = (Inr \<lparr>co_schema = (), co_limits = DefaultSchemaLimits\<rparr>, v)"
  by (simp add: Schema_Compile_def NewValidator_def compile_document_def decodeJSON_def Decode_value_def expect_def
      skip_ws_def is_ws_def max_depth_def inspect_def push_def normalized_def limited_def DefaultSchemaLimits_def
      maximumCacheEntries_def maximumErrors_def Let_def)

lemma call_validated:
  "validate_arguments call_library \<lparr>co_schema = (), co_limits = DefaultSchemaLimits\<rparr> (CObject [(''repo'', CString ''x'')]) = None"
proof -
  have "decodeJSON call_text = Inr (JObject [(''repo'', JString ''x'')])"
    by (simp add: decodeJSON_def Decode_value_def call_text_eval max_depth_def)
  moreover have "int (length call_text) \<le> sl_MaxInstanceBytes DefaultSchemaLimits"
    by (simp add: call_text_eval DefaultSchemaLimits_def)
  ultimately show ?thesis
    unfolding validate_arguments_def call_parse(4)
    by (simp add: ValidateJSON_def call_library_def inspect_def push_def DefaultSchemaLimits_def external_member_def)
qed

lemma call_prepared:
  "prepare call_library marshal_format (NewValidator DefaultSchemaLimits) call_request sample_tool
     = Inr (call_arguments, call_projection)"
proof -
  have schema: "tvd_InputSchema sample_tool = ''{}''" "tvd_OutputSchema sample_tool = ''{}''"
    "tvd_ToolID sample_tool = ''github.pulls''" "lim_RequestBytes (tvd_Limits sample_tool) = 1024"
    by (simp_all add: sample_tool_def)
  obtain v where v: "Schema_Compile (\<lambda>_. Some ()) ''{}'' (NewValidator DefaultSchemaLimits)
     = (Inr \<lparr>co_schema = (), co_limits = DefaultSchemaLimits\<rparr>, v)" using call_compile by blast
  have "ValidateToolPublication sample_tool
      (Some (\<lambda>raw. fst (CompileSchema (\<lambda>_. Some ()) raw (NewValidator DefaultSchemaLimits)))) = None"
    using sample_tool_publishable by (simp add: ValidateToolPublication_def sample_tool_valid schema CompileSchema_def v)
  then show ?thesis
    using call_normalized [where validate = "validate_arguments call_library \<lparr>co_schema = (), co_limits = DefaultSchemaLimits\<rparr>", OF call_validated] call_projected
    by (simp add: prepare_def call_request_def schema v call_library_def)
qed

definition call_authorization :: AuthorizationRequest where
  "call_authorization = authorizationRequest call_identity call_invocation sample_tool call_resource ''d'' ''1''"

lemma call_decision_valid: "ValidateFor call_decision call_authorization = None"
  by (simp add: ValidateFor_def call_decision_def sample_decision_def no_constraints_def call_authorization_def
      authorizationRequest_def call_identity_def call_invocation_def new_invocation_def call_request_def
      call_arguments_def Profile_def call_resource_def quote_def quote_body.simps escape_ascii_def code_def
      sample_tool_def Tool_Catalog.sample_version_def SemanticVersion_String_def class_defs
      AuthorizationConstraints_Validate_def request_eval IsZero_def reason_defs
      AuthorizationReason_Valid_def containsReason_def)

lemma call_narrowed:
  "\<exists>narrowed. NarrowAuthorizationConstraints call_decision (call_ceiling call_authorization sample_tool) = Inr narrowed"
  by (simp add: NarrowAuthorizationConstraints_def call_decision_def sample_decision_def no_constraints_def
      call_ceiling_def call_authorization_def authorizationRequest_def call_resource_def quote_def quote_body.simps
      escape_ascii_def code_def sample_tool_def AuthorizationConstraints_Validate_def request_eval reason_defs
      narrowSet_def)

lemma call_reaches_connector:
  "\<exists>res w tr limit q. Create call_library marshal_format (Some (traced_calls call_service)) call_request ((), [])
     = (res, w, tr) \<and> EvConnector limit q \<in> set tr"
proof -
  obtain narrowed where narrowed: "NarrowAuthorizationConstraints call_decision (call_ceiling call_authorization sample_tool)
      = Inr narrowed" using call_narrowed by blast
  have checked: "check_call call_request = None"
    by (simp add: check_call_def call_request_def validInvocationIdentity_def call_identity_def validInvocationText_def
        trim_eval ContainsAny_def validToolCallID_def is_digit_def between_def code_def tool_eval semver_eval)
  have "ad_Outcome call_decision = AuthorizationAllow" "tcr_Identity call_request = call_identity"
    by (simp_all add: call_decision_def sample_decision_def call_request_def)
  then show ?thesis
    using call_prepared call_decision_valid narrowed checked
    by (simp add: Create_def Let_def call_bind_def call_map_error_def call_return_def traced_call_simps
        call_service_def authorize_call_def execute_call_def call_projection_def map_error_def
        flip: call_authorization_def)
qed

theorem connector_runs_only_recorded_allow_witness:
  "\<exists>tr limit q v acquired authRequest decision narrowed.
    tr = EvAcquire v (Inr acquired) # connector_run authRequest decision narrowed q
      (canonical_Digest ArgumentDomain (cq_CanonicalArguments q))
      (canonical_Digest ResourceDomain (cq_ResourceProjection q))
    \<and> EvConnector limit q \<in> set tr
    \<and> pa_Kind acquired = InvocationOwned \<and> ad_Outcome decision = AuthorizationAllow
    \<and> cq_Decision q = (decision :: AuthorizationDecision)\<lparr>ad_Constraints := narrowed\<rparr>
    \<and> cq_Credential (q :: nat ConnectorRequest) = cq_Credential q"
proof -
  obtain res w tr limit and q :: "nat ConnectorRequest" where
    run: "Create call_library marshal_format (Some (traced_calls call_service)) call_request ((), []) = (res, w, tr)"
    "EvConnector limit q \<in> set tr" using call_reaches_connector by blast
  from connector_runs_only_recorded_allow [OF run] run(2) show ?thesis by blast
qed

end
