(* ===== verification/Pg_Acquisition.thy ===== *)
theory Pg_Acquisition
  imports Pg_Repositories Contracts
begin

text \<open>
  Ownership of logical invocations (\<open>internal/adapters/postgres/invocation_acquisition.go\<close>): a claim
  on (tenant, run, tool call) is inserted together with its invocation, recovered a bounded number of
  times after its lease has run out, and completed with a replay envelope by its current owner.
\<close>

section \<open>Requests and results\<close>

datatype AcquisitionKind =
  AcquisitionOwned | AcquisitionRecovered | AcquisitionPending | AcquisitionReplay
  | AcquisitionConflict | AcquisitionExhausted

record InvocationAcquisition =
  acq_Kind :: AcquisitionKind
  acq_Invocation :: Invocation
  acq_ReplayStatusCode :: "int option"
  acq_ReplayResultDigest :: "bytes option"
  acq_SafeReplayPayload :: "string option"

record AcquisitionRequest =
  req_Invocation :: Invocation
  req_OwnerID :: string
  req_Now :: instant
  req_LeaseDuration :: duration
  req_MaxRecoveries :: int

definition validateAcquisitionRequest :: "AcquisitionRequest \<Rightarrow> goerror option" where
  "validateAcquisitionRequest r =
     (let v = req_Invocation r in
      first_err
        [fail_if (req_OwnerID r = [] \<or> inv_RunID v = [] \<or> inv_ToolCallID v = [] \<or> inv_ToolID v = []
             \<or> inv_ToolVersion v = [] \<or> length (inv_ArgumentDigest v) \<noteq> 32)
           (NewError CodeInvalidArgument ''logical invocation acquisition fields are invalid'' None),
         fail_if (IsZero (req_Now r) \<or> req_LeaseDuration r \<le> 0 \<or> req_LeaseDuration r > 5 * Minute
             \<or> req_MaxRecoveries r < 0 \<or> req_MaxRecoveries r > 10)
           (NewError CodeInvalidArgument ''logical invocation acquisition bounds are invalid'' None)])"

text \<open>The bytes hashed: each field after its length as eight big-endian bytes.\<close>

definition framed :: "bytes list \<Rightarrow> bytes" where
  "framed parts = concat (map (\<lambda>f. be_bytes 8 (length f) @ f) parts)"

definition request_fields :: "Invocation \<Rightarrow> bytes list" where
  "request_fields v =
     [bytes_of_string (inv_ToolID v), bytes_of_string (inv_ToolVersion v), inv_ArgumentDigest v]"

definition logicalRequestDigest :: "Invocation \<Rightarrow> bytes" where
  "logicalRequestDigest v = Sum256 (framed (request_fields v))"

type_synonym claim_key = "string \<times> string \<times> string"

definition logical_scope :: "string \<Rightarrow> string" where
  "logical_scope runID = ''logical_invocation:'' @ runID"

definition request_key :: "string \<Rightarrow> AcquisitionRequest \<Rightarrow> claim_key" where
  "request_key tenant r =
     (tenant, logical_scope (inv_RunID (req_Invocation r)), inv_ToolCallID (req_Invocation r))"

section \<open>Acquire\<close>

text \<open>The \<open>INSERT ... ON CONFLICT DO UPDATE ... RETURNING\<close> that claims or recovers.\<close>

definition fresh_claim :: "tables \<Rightarrow> AcquisitionRequest \<Rightarrow> idempotency_row" where
  "fresh_claim db r =
     \<lparr>ir_invocation_id = None, ir_request_digest = logicalRequestDigest (req_Invocation r),
      ir_state = ''claimed'', ir_claim_owner = Some (req_OwnerID r),
      ir_claim_expires_at = Some (timestamptz db (req_Now r + req_LeaseDuration r)),
      ir_replay_status_code = None, ir_replay_result_digest = None, ir_safe_replay_payload = None,
      ir_created_at = timestamptz db (req_Now r), ir_updated_at = timestamptz db (req_Now r),
      ir_expires_at = timestamptz db (req_Now r + 24 * Hour),
      ir_recovery_count = 0, ir_max_recoveries = req_MaxRecoveries r\<rparr>"

definition recoverable :: "tables \<Rightarrow> AcquisitionRequest \<Rightarrow> idempotency_row \<Rightarrow> bool" where
  "recoverable db r row \<longleftrightarrow>
     ir_state row = ''claimed''
     \<and> ir_request_digest row = logicalRequestDigest (req_Invocation r)
     \<and> (case ir_claim_expires_at row of None \<Rightarrow> False | Some e \<Rightarrow> e \<le> timestamptz db (req_Now r))
     \<and> ir_recovery_count row < ir_max_recoveries row"

definition recovered_claim :: "tables \<Rightarrow> AcquisitionRequest \<Rightarrow> idempotency_row \<Rightarrow> idempotency_row" where
  "recovered_claim db r row =
     row\<lparr>ir_claim_owner := Some (req_OwnerID r),
         ir_claim_expires_at := Some (timestamptz db (req_Now r + req_LeaseDuration r)),
         ir_updated_at := timestamptz db (req_Now r),
         ir_recovery_count := ir_recovery_count row + 1\<rparr>"

definition put_claim :: "claim_key \<Rightarrow> idempotency_row \<Rightarrow> tables \<Rightarrow> tables" where
  "put_claim key row db = db\<lparr>t_idempotency := AList.update key row (t_idempotency db)\<rparr>"

definition claim_stmt ::
  "string \<Rightarrow> AcquisitionRequest \<Rightarrow> tables \<Rightarrow> (int \<times> string option) result \<times> tables" where
  "claim_stmt tenant r db =
     (let key = request_key tenant r in
      case map_of (t_idempotency db) key of
        None \<Rightarrow>
          (case first_err [check (idempotency_ok (fresh_claim db r)), tenant_exists db tenant] of
             Some e \<Rightarrow> (Inl e, db)
           | None \<Rightarrow> (Inr (0, None), put_claim key (fresh_claim db r) db))
      | Some row \<Rightarrow>
          if \<not> recoverable db r row then (Inl ErrNoRows, db)
          else (case check (idempotency_ok (recovered_claim db r row)) of
             Some e \<Rightarrow> (Inl e, db)
           | None \<Rightarrow> (Inr (ir_recovery_count row + 1, ir_invocation_id row),
                      put_claim key (recovered_claim db r row) db)))"

text \<open>\<open>UPDATE idempotency_records SET invocation_id, updated_at ... AND claim_owner\<close>.\<close>

definition link_stmt :: "string \<Rightarrow> AcquisitionRequest \<Rightarrow> tables \<Rightarrow> (nat \<times> tables) result" where
  "link_stmt tenant r db =
     ensure (invocation_exists db tenant (inv_ID (req_Invocation r)))
       (bind_result
          (update_row (request_key tenant r) (\<lambda>row. ir_claim_owner row = Some (req_OwnerID r))
             (\<lambda>row. row\<lparr>ir_invocation_id := Some (inv_ID (req_Invocation r)),
                        ir_updated_at := timestamptz db (req_Now r)\<rparr>) idempotency_ok (t_idempotency db))
          (\<lambda>(n, tbl). Inr (n, db\<lparr>t_idempotency := tbl\<rparr>)))"

text \<open>
  The row the classification reads: the claim joined with its invocation. A claim without an
  invocation yields \<open>NULL\<close> columns, which do not scan into strings.
\<close>

definition scan_null :: goerror where
  "scan_null = ErrNew ''cannot scan NULL into *string''"

definition classify_stmt ::
  "string \<Rightarrow> AcquisitionRequest \<Rightarrow> tables \<Rightarrow> (idempotency_row \<times> Invocation) result \<times> tables" where
  "classify_stmt tenant r db =
     (case map_of (t_idempotency db) (request_key tenant r) of
        None \<Rightarrow> (Inl ErrNoRows, db)
      | Some row \<Rightarrow>
          (case ir_invocation_id row of
             None \<Rightarrow> (Inl scan_null, db)
           | Some i \<Rightarrow> (case map_of (t_invocations db) (tenant, i) of
               None \<Rightarrow> (Inl scan_null, db)
             | Some v \<Rightarrow> (Inr (row, v), db))))"

definition plain_acquisition :: "AcquisitionKind \<Rightarrow> Invocation \<Rightarrow> InvocationAcquisition" where
  "plain_acquisition kind v = \<lparr>acq_Kind = kind, acq_Invocation = v, acq_ReplayStatusCode = None,
     acq_ReplayResultDigest = None, acq_SafeReplayPayload = None\<rparr>"

definition classified :: "AcquisitionRequest \<Rightarrow> idempotency_row \<Rightarrow> Invocation \<Rightarrow> InvocationAcquisition" where
  "classified r row v =
     (let w = req_Invocation r in
      if ir_request_digest row \<noteq> logicalRequestDigest w \<or> inv_ToolID v \<noteq> inv_ToolID w
         \<or> inv_ToolVersion v \<noteq> inv_ToolVersion w \<or> inv_ArgumentDigest v \<noteq> inv_ArgumentDigest w
      then plain_acquisition AcquisitionConflict v
      else if ir_state row = ''completed''
      then \<lparr>acq_Kind = AcquisitionReplay, acq_Invocation = v,
            acq_ReplayStatusCode = ir_replay_status_code row,
            acq_ReplayResultDigest = ir_replay_result_digest row,
            acq_SafeReplayPayload = ir_safe_replay_payload row\<rparr>
      else if (case ir_claim_expires_at row of None \<Rightarrow> False | Some e \<Rightarrow> \<not> e > req_Now r)
              \<and> ir_recovery_count row \<ge> ir_max_recoveries row
      then plain_acquisition AcquisitionExhausted v
      else plain_acquisition AcquisitionPending v)"

definition classifyExisting ::
  "string \<Rightarrow> AcquisitionRequest \<Rightarrow> (tables, InvocationAcquisition) action" where
  "classifyExisting tenant r =
     act_bind (act_map_error (repositoryError ''classify logical invocation'')
                 (statement (classify_stmt tenant r)))
       (\<lambda>(row, v). act_return (Inr (classified r row v)))"

text \<open>The branch after a successful claim.\<close>

definition owned_or_recovered ::
  "string \<Rightarrow> AcquisitionRequest \<Rightarrow> int \<times> string option \<Rightarrow> (tables, InvocationAcquisition) action" where
  "owned_or_recovered tenant r claim =
     (let (recoveryCount, existing) = claim in
      if recoveryCount > 0 then
        (case existing of
           None \<Rightarrow> act_return (Inl (ErrNew ''recovered logical invocation has no durable invocation''))
         | Some i \<Rightarrow> act_bind (Invocation_Get tenant i)
             (\<lambda>v. act_return (Inr (plain_acquisition AcquisitionRecovered v))))
      else
        act_bind (Invocation_Create tenant (req_Invocation r))
          (\<lambda>_. act_bind (act_map_error (repositoryError ''link invocation acquisition'')
                           (statement (exec (link_stmt tenant r))))
             (\<lambda>_. act_return (Inr (plain_acquisition AcquisitionOwned (req_Invocation r))))))"

definition acquire :: "string \<Rightarrow> AcquisitionRequest \<Rightarrow> (tables, InvocationAcquisition) action" where
  "acquire tenant r c =
     (case statement (claim_stmt tenant r) c of
        (Inr claim, d) \<Rightarrow> owned_or_recovered tenant r claim d
      | (Inl err, d) \<Rightarrow>
          if \<not> errors_Is err ErrNoRows then (Inl (repositoryError ''claim logical invocation'' err), d)
          else classifyExisting tenant r d)"

definition Acquire :: "string \<Rightarrow> AcquisitionRequest \<Rightarrow> (tables, InvocationAcquisition) action" where
  "Acquire tenant r =
     (case validateAcquisitionRequest r of
        Some err \<Rightarrow> act_return (Inl err)
      | None \<Rightarrow> WithinTransaction (acquire tenant r))"

definition NewLogicalInvocationAcquirer :: "'b option \<Rightarrow> string \<Rightarrow> string result" where
  "NewLogicalInvocationAcquirer database tenantID =
     bind_result (NewTransactor database) (\<lambda>_.
       map_error (ErrWrap ''invalid acquisition tenant ID'')
         (bind_result (ParseUUID tenantID) (\<lambda>uid. Inr (UUID_String uid))))"

section \<open>Complete\<close>

definition completed_claim ::
  "tables \<Rightarrow> int \<Rightarrow> bytes \<Rightarrow> string \<Rightarrow> instant \<Rightarrow> idempotency_row \<Rightarrow> idempotency_row" where
  "completed_claim db statusCode resultDigest safePayload now row =
     row\<lparr>ir_state := ''completed'', ir_claim_owner := None, ir_claim_expires_at := None,
         ir_replay_status_code := Some statusCode, ir_replay_result_digest := Some resultDigest,
         ir_safe_replay_payload := Some (jsonb db safePayload),
         ir_updated_at := timestamptz db now\<rparr>"

definition complete_stmt ::
  "string \<Rightarrow> string \<Rightarrow> string \<Rightarrow> string \<Rightarrow> int \<Rightarrow> bytes \<Rightarrow> string \<Rightarrow> instant \<Rightarrow> tables \<Rightarrow> (nat \<times> tables) result" where
  "complete_stmt tenant runID toolCallID ownerID statusCode resultDigest safePayload now db =
     bind_result
       (update_row (tenant, logical_scope runID, toolCallID)
          (\<lambda>row. ir_state row = ''claimed'' \<and> ir_claim_owner row = Some ownerID)
          (completed_claim db statusCode resultDigest safePayload now) idempotency_ok (t_idempotency db))
       (\<lambda>(n, tbl). Inr (n, db\<lparr>t_idempotency := tbl\<rparr>))"

definition Complete ::
  "string \<Rightarrow> string \<Rightarrow> string \<Rightarrow> string \<Rightarrow> int \<Rightarrow> bytes \<Rightarrow> string \<Rightarrow> instant \<Rightarrow> (tables, unit) action" where
  "Complete tenant runID toolCallID ownerID statusCode resultDigest safePayload now =
     (if runID = [] \<or> toolCallID = [] \<or> ownerID = [] \<or> statusCode < 100 \<or> statusCode > 599
         \<or> length resultDigest \<noteq> 32 \<or> safePayload = [] \<or> IsZero now
      then act_return (Inl (NewError CodeInvalidArgument
             ''logical invocation completion fields are invalid'' None))
      else exec_one ''complete logical invocation acquisition''
             ''logical invocation ownership is no longer current''
             (complete_stmt tenant runID toolCallID ownerID statusCode resultDigest safePayload now))"

section \<open>Framing\<close>

lemma framed_Cons: "framed (f # fs) = be_bytes 8 (length f) @ f @ framed fs"
  by (simp add: framed_def)

lemma framed_inject:
  assumes "length xs = length ys"
    and "\<forall>f \<in> set xs \<union> set ys. length f < 2 ^ 64"
  shows "framed xs = framed ys \<longleftrightarrow> xs = ys"
  using assms
proof (induction xs ys rule: list_induct2)
  case (Cons x xs y ys)
  have small: "length x < 256 ^ 8" "length y < 256 ^ 8" using Cons.prems by auto
  have "length x = length y" if "be_bytes 8 (length x) = be_bytes 8 (length y)"
    using that small by (simp add: be_bytes_inject)
  with Cons show ?case by (auto simp: framed_Cons append_eq_append_conv)
qed simp

section \<open>What a successful acquisition did\<close>

lemma Invocation_Get_Inr:
  assumes "Invocation_Get tenant i c = (Inr v, d)"
  shows "map_of (t_invocations (conn_db c)) (tenant, i) = Some v" "conn_db d = conn_db c"
  using assms
  by (auto simp: Invocation_Get_def act_map_error_Inr dest!: statement_Inr)

lemma classify_Inr:
  assumes "classify_stmt tenant r db = (Inr (row, v), db')"
  obtains i where "map_of (t_idempotency db) (request_key tenant r) = Some row"
    "ir_invocation_id row = Some i" "map_of (t_invocations db) (tenant, i) = Some v" "db' = db"
proof -
  from assms have "\<exists>i. map_of (t_idempotency db) (request_key tenant r) = Some row
      \<and> ir_invocation_id row = Some i \<and> map_of (t_invocations db) (tenant, i) = Some v \<and> db' = db"
    by (simp add: classify_stmt_def split: option.splits)
  with that show thesis by blast
qed

lemma link_Inr:
  assumes "link_stmt tenant r db = Inr (n, db')"
    and "map_of (t_idempotency db) (request_key tenant r) = Some row"
    and "ir_claim_owner row = Some (req_OwnerID r)"
  shows "db' = put_claim (request_key tenant r)
    (row\<lparr>ir_invocation_id := Some (inv_ID (req_Invocation r)),
         ir_updated_at := timestamptz db (req_Now r)\<rparr>) db"
proof -
  let ?f = "\<lambda>row. row\<lparr>ir_invocation_id := Some (inv_ID (req_Invocation r)),
    ir_updated_at := timestamptz db (req_Now r)\<rparr>"
  obtain m tbl where upd: "update_row (request_key tenant r)
      (\<lambda>row. ir_claim_owner row = Some (req_OwnerID r)) ?f idempotency_ok (t_idempotency db) = Inr (m, tbl)"
    and db': "db' = db\<lparr>t_idempotency := tbl\<rparr>"
    using assms(1) unfolding link_stmt_def ensure_Inr bind_result_Inr by fastforce
  from upd assms(2, 3) have "tbl = AList.update (request_key tenant r) (?f row) (t_idempotency db)"
    unfolding update_row_Inr by simp
  with db' show ?thesis by (simp only: put_claim_def)
qed

definition linked_claim :: "tables \<Rightarrow> AcquisitionRequest \<Rightarrow> idempotency_row" where
  "linked_claim db r = (fresh_claim db r)\<lparr>ir_invocation_id := Some (inv_ID (req_Invocation r))\<rparr>"

lemma put_claim_simps [simp]:
  "map_of (t_idempotency (put_claim key row db)) = (map_of (t_idempotency db))(key \<mapsto> row)"
  "t_invocations (put_claim key row db) = t_invocations db"
  "t_server (put_claim key row db) = t_server db"
  "put_claim key row (put_claim key row' db) = put_claim key row db"
  by (simp_all add: put_claim_def AList.update_conv')

lemma insert_invocation_put_claim [simp]:
  "insert_invocation tenant v (put_claim key row db) = insert_invocation tenant v db"
  by (simp add: insert_invocation_def store_invocation_def tenant_exists_def logical_calls_def
      put_claim_def)

lemma put_claim_invocations:
  "put_claim key row (db\<lparr>t_invocations := tbl\<rparr>) = (put_claim key row db)\<lparr>t_invocations := tbl\<rparr>"
  by (simp add: put_claim_def)

lemma owned_Inr:
  assumes "owned_or_recovered tenant r (0, x) e = (Inr a, d)"
    and "conn_db e = put_claim (request_key tenant r) (fresh_claim db r) db"
  obtains tbl where "insert_invocation tenant (req_Invocation r) db = Inr tbl"
    "a = plain_acquisition AcquisitionOwned (req_Invocation r)"
    "conn_db d = put_claim (request_key tenant r) (linked_claim db r) (db\<lparr>t_invocations := tbl\<rparr>)"
proof -
  from assms(1) obtain u e1 n where create: "Invocation_Create tenant (req_Invocation r) e = (Inr u, e1)"
    and link: "link_stmt tenant r (conn_db e1) = Inr (n, conn_db d)"
    and a: "a = plain_acquisition AcquisitionOwned (req_Invocation r)"
    by (auto simp: owned_or_recovered_def act_bind_Inr act_map_error_Inr act_return_def
        dest!: statement_Inr)
  from create obtain tbl where tbl: "insert_invocation tenant (req_Invocation r) (conn_db e) = Inr tbl"
    "conn_db e1 = (conn_db e)\<lparr>t_invocations := tbl\<rparr>"
    unfolding Invocation_Create_def by (rule insert_stmt_Inr)
  have row: "map_of (t_idempotency (conn_db e1)) (request_key tenant r) = Some (fresh_claim db r)"
    "ir_claim_owner (fresh_claim db r) = Some (req_OwnerID r)"
    by (simp_all add: tbl(2) assms(2) fresh_claim_def)
  have "conn_db d = put_claim (request_key tenant r) (linked_claim db r) (db\<lparr>t_invocations := tbl\<rparr>)"
    using link_Inr [OF link row]
    by (simp add: tbl(2) assms(2) linked_claim_def fresh_claim_def flip: put_claim_invocations)
  with tbl(1) a that show thesis by (simp add: assms(2))
qed

lemma recovered_Inr:
  assumes "owned_or_recovered tenant r (n, x) e = (Inr a, d)" "0 < n"
  obtains i v where "x = Some i" "map_of (t_invocations (conn_db e)) (tenant, i) = Some v"
    "a = plain_acquisition AcquisitionRecovered v" "conn_db d = conn_db e"
proof -
  from assms obtain i v where i: "x = Some i" and get: "Invocation_Get tenant i e = (Inr v, d)"
    and a: "a = plain_acquisition AcquisitionRecovered v"
    by (auto simp: owned_or_recovered_def act_bind_Inr act_return_def split: option.splits)
  from i Invocation_Get_Inr [OF get] a show thesis by (intro that [of i v]) simp_all
qed

text \<open>The three ways \<open>acquire\<close> succeeds: a new claim, a recovered claim, a classification.\<close>

definition claims_ok :: "tables \<Rightarrow> bool" where
  "claims_ok db \<longleftrightarrow>
     (\<forall>key row. map_of (t_idempotency db) key = Some row \<longrightarrow> idempotency_ok row)"

lemma claims_okD:
  assumes "claims_ok db" "map_of (t_idempotency db) key = Some row"
  shows "idempotency_ok row" "0 \<le> ir_recovery_count row" "ir_recovery_count row \<le> ir_max_recoveries row"
proof -
  from assms show "idempotency_ok row" unfolding claims_ok_def by blast
  then show "0 \<le> ir_recovery_count row" "ir_recovery_count row \<le> ir_max_recoveries row"
    by (simp_all add: idempotency_ok_def)
qed

lemma acquire_cases:
  assumes "acquire tenant r c = (Inr a, d)" "claims_ok (conn_db c)"
  obtains
    (owned) tbl where
      "map_of (t_idempotency (conn_db c)) (request_key tenant r) = None"
      "insert_invocation tenant (req_Invocation r) (conn_db c) = Inr tbl"
      "a = plain_acquisition AcquisitionOwned (req_Invocation r)"
      "conn_db d = put_claim (request_key tenant r) (linked_claim (conn_db c) r)
         ((conn_db c)\<lparr>t_invocations := tbl\<rparr>)"
      "idempotency_ok (fresh_claim (conn_db c) r)"
  | (recovered) row i v where
      "map_of (t_idempotency (conn_db c)) (request_key tenant r) = Some row"
      "recoverable (conn_db c) r row" "ir_invocation_id row = Some i"
      "map_of (t_invocations (conn_db c)) (tenant, i) = Some v"
      "a = plain_acquisition AcquisitionRecovered v"
      "conn_db d = put_claim (request_key tenant r) (recovered_claim (conn_db c) r row) (conn_db c)"
      "idempotency_ok (recovered_claim (conn_db c) r row)"
  | (existing) row i v where
      "map_of (t_idempotency (conn_db c)) (request_key tenant r) = Some row"
      "ir_invocation_id row = Some i" "map_of (t_invocations (conn_db c)) (tenant, i) = Some v"
      "a = classified r row v" "conn_db d = conn_db c" "\<not> recoverable (conn_db c) r row"
proof (cases "statement (claim_stmt tenant r) c")
  case (Pair res e)
  show thesis
  proof (cases res)
    case (Inr claim)
    with Pair have stmt: "claim_stmt tenant r (conn_db c) = (Inr claim, conn_db e)"
      by (simp add: statement_Inr)
    from assms(1) Pair Inr have run: "owned_or_recovered tenant r claim e = (Inr a, d)"
      by (simp add: acquire_def)
    show thesis
    proof (cases "map_of (t_idempotency (conn_db c)) (request_key tenant r)")
      case None
      with stmt have claim: "claim = (0, None)" and ok: "idempotency_ok (fresh_claim (conn_db c) r)"
        and e: "conn_db e = put_claim (request_key tenant r) (fresh_claim (conn_db c) r) (conn_db c)"
        by (auto simp: claim_stmt_def Let_def check_def split: option.splits if_splits)
      from owned_Inr [OF run [unfolded claim] e] obtain tbl where
        "insert_invocation tenant (req_Invocation r) (conn_db c) = Inr tbl"
        "a = plain_acquisition AcquisitionOwned (req_Invocation r)"
        "conn_db d = put_claim (request_key tenant r) (linked_claim (conn_db c) r)
           ((conn_db c)\<lparr>t_invocations := tbl\<rparr>)" .
      with None ok show thesis by (intro owned)
    next
      case (Some row)
      with stmt have rec: "recoverable (conn_db c) r row"
        and claim: "claim = (ir_recovery_count row + 1, ir_invocation_id row)"
        and ok: "idempotency_ok (recovered_claim (conn_db c) r row)"
        and e: "conn_db e = put_claim (request_key tenant r) (recovered_claim (conn_db c) r row) (conn_db c)"
        by (auto simp: claim_stmt_def Let_def check_def split: option.splits if_splits)
      have "0 < ir_recovery_count row + 1"
        using claims_okD(2) [OF assms(2) Some] by simp
      from recovered_Inr [OF run [unfolded claim] this] obtain i v where
        "ir_invocation_id row = Some i" "map_of (t_invocations (conn_db e)) (tenant, i) = Some v"
        "a = plain_acquisition AcquisitionRecovered v" "conn_db d = conn_db e" .
      with Some rec e ok show thesis by (intro recovered [of row i v]) simp_all
    qed
  next
    case (Inl err)
    with assms(1) Pair have norows: "errors_Is err ErrNoRows" and run: "classifyExisting tenant r e = (Inr a, d)"
      by (auto simp: acquire_def split: if_splits)
    from statement_NoRows [OF Pair [unfolded Inl] norows]
    have stmt: "claim_stmt tenant r (conn_db c) = (Inl err, conn_db e)" .
    from run obtain row v where "classify_stmt tenant r (conn_db e) = (Inr (row, v), conn_db d)"
      "a = classified r row v"
      by (auto simp: classifyExisting_def act_bind_Inr act_map_error_Inr act_return_def
          dest!: statement_Inr)
    moreover have e: "conn_db e = conn_db c"
      using stmt by (simp add: claim_stmt_def Let_def split: option.splits if_splits)
    ultimately obtain i where found: "map_of (t_idempotency (conn_db c)) (request_key tenant r) = Some row"
      "ir_invocation_id row = Some i" "map_of (t_invocations (conn_db c)) (tenant, i) = Some v"
      "conn_db d = conn_db c" "a = classified r row v"
      by (metis classify_Inr)
    have "\<not> recoverable (conn_db c) r row"
      using stmt norows found(1)
      by (auto simp: claim_stmt_def Let_def check_def fail_if_def check_violation_def split: if_splits)
    with found show thesis by (intro existing [of row i v])
  qed
qed

section \<open>Claims are backed by durable invocations\<close>

definition claim_backed :: "tables \<Rightarrow> claim_key \<Rightarrow> idempotency_row \<Rightarrow> bool" where
  "claim_backed db key row \<longleftrightarrow>
     (\<exists>tenant i v. key = (tenant, logical_scope (inv_RunID v), inv_ToolCallID v)
        \<and> ir_invocation_id row = Some i \<and> map_of (t_invocations db) (tenant, i) = Some v
        \<and> ir_request_digest row = logicalRequestDigest v)"

definition acq_inv :: "tables \<Rightarrow> bool" where
  "acq_inv db \<longleftrightarrow> claims_ok db
     \<and> (\<forall>key row. map_of (t_idempotency db) key = Some row \<longrightarrow> claim_backed db key row)"

lemma acq_invI:
  assumes "\<And>key row. map_of (t_idempotency db) key = Some row \<Longrightarrow> idempotency_ok row \<and> claim_backed db key row"
  shows "acq_inv db"
  using assms unfolding acq_inv_def claims_ok_def by blast

lemma acq_invD:
  assumes "acq_inv db" "map_of (t_idempotency db) key = Some row"
  shows "idempotency_ok row" "claim_backed db key row"
  using assms unfolding acq_inv_def claims_ok_def by blast+

lemma claim_backed_cong:
  assumes "claim_backed db key row" "ir_invocation_id row' = ir_invocation_id row"
    "ir_request_digest row' = ir_request_digest row"
    "\<And>k v. map_of (t_invocations db) k = Some v \<Longrightarrow> map_of (t_invocations db') k = Some v"
  shows "claim_backed db' key row'"
  using assms unfolding claim_backed_def by metis

lemma logicalRequestDigest_stored [simp]:
  "logicalRequestDigest (store_invocation db v) = logicalRequestDigest v"
  by (simp add: logicalRequestDigest_def request_fields_def store_invocation_def)

lemma insert_invocation_Inr:
  assumes "insert_invocation tenant v db = Inr tbl"
  shows "map_of tbl = (map_of (t_invocations db))((tenant, inv_ID v) \<mapsto> store_invocation db v)"
    "map_of (t_invocations db) (tenant, inv_ID v) = None"
  using assms unfolding insert_invocation_def
  by (rule insert_row_lookup, simp add: insert_row_Inr)

lemma put_claim_inv:
  assumes "acq_inv db" "idempotency_ok row" "claim_backed (db\<lparr>t_invocations := tbl\<rparr>) key row"
    and "\<And>k v. map_of (t_invocations db) k = Some v \<Longrightarrow> map_of tbl k = Some v"
  shows "acq_inv (put_claim key row (db\<lparr>t_invocations := tbl\<rparr>))"
proof (rule acq_invI)
  fix k x
  assume look: "map_of (t_idempotency (put_claim key row (db\<lparr>t_invocations := tbl\<rparr>))) k = Some x"
  show "idempotency_ok x \<and> claim_backed (put_claim key row (db\<lparr>t_invocations := tbl\<rparr>)) k x"
  proof (cases "k = key")
    case True
    with look assms(2) claim_backed_cong [OF assms(3), of x] show ?thesis by simp
  next
    case False
    with look have old: "map_of (t_idempotency db) k = Some x" by simp
    show ?thesis using acq_invD [OF assms(1) old] assms(4)
      by (auto intro: claim_backed_cong [of db k x])
  qed
qed

lemma acquire_inv:
  assumes "acquire tenant r c = (Inr a, d)" "acq_inv (conn_db c)"
  shows "acq_inv (conn_db d)"
proof -
  let ?db = "conn_db c"
  from assms(2) have ok: "claims_ok ?db" by (simp add: acq_inv_def)
  from assms(1) ok show ?thesis
  proof (cases rule: acquire_cases)
    case (owned tbl)
    note rows = insert_invocation_Inr [OF owned(2)]
    have "idempotency_ok (linked_claim ?db r)"
      using owned(5) by (simp add: linked_claim_def idempotency_ok_def fresh_claim_def)
    moreover have "claim_backed (?db\<lparr>t_invocations := tbl\<rparr>) (request_key tenant r) (linked_claim ?db r)"
      unfolding claim_backed_def
      by (intro exI [of _ tenant] exI [of _ "inv_ID (req_Invocation r)"]
          exI [of _ "store_invocation ?db (req_Invocation r)"])
        (simp add: rows(1) linked_claim_def fresh_claim_def request_key_def,
         simp add: store_invocation_def)
    ultimately show ?thesis unfolding owned(4)
      using assms(2) rows by (intro put_claim_inv) auto
  next
    case (recovered row i v)
    have "claim_backed (?db\<lparr>t_invocations := t_invocations ?db\<rparr>) (request_key tenant r)
        (recovered_claim ?db r row)"
      using acq_invD(2) [OF assms(2) recovered(1)]
      by (rule claim_backed_cong) (simp_all add: recovered_claim_def)
    from put_claim_inv [OF assms(2) recovered(7) this] show ?thesis by (simp add: recovered(6))
  next
    case (existing row i v)
    with assms(2) show ?thesis by simp
  qed
qed

lemma Acquire_effect:
  assumes "Acquire tenant r c = (res, d)"
  obtains "conn_db d = conn_db c" "\<exists>e. res = Inl e"
  | c' a d' where "conn_db c' = conn_db c" "acquire tenant r c' = (Inr a, d')" "conn_db d = conn_db d'"
      "\<And>x. res = Inr x \<Longrightarrow> x = a" "validateAcquisitionRequest r = None"
proof (cases "validateAcquisitionRequest r")
  case None
  with assms have run: "WithinTransaction (acquire tenant r) c = (res, d)" by (simp add: Acquire_def)
  show thesis
  proof (cases res)
    case (Inl e)
    from run show thesis
      by (cases rule: WithinTransaction_effect) (use Inl None that in auto)
  next
    case (Inr x)
    from run [unfolded Inr] show thesis
      by (cases rule: WithinTransaction_Inr) (use Inr None that(2) in auto)
  qed
next
  case (Some e)
  with assms have "res = Inl e" "d = c" by (auto simp: Acquire_def act_return_def)
  then show thesis by (intro that(1)) simp_all
qed

lemma complete_Inr:
  assumes "complete_stmt tenant run call owner status digest payload now db = Inr (n, db')"
  obtains "db' = db" "n = 0"
  | row where "map_of (t_idempotency db) (tenant, logical_scope run, call) = Some row"
      "ir_state row = ''claimed''" "ir_claim_owner row = Some owner" "n = 1"
      "db' = put_claim (tenant, logical_scope run, call)
         (completed_claim db status digest payload now row) db"
      "idempotency_ok (completed_claim db status digest payload now row)"
proof (cases "map_of (t_idempotency db) (tenant, logical_scope run, call)")
  case None
  with assms show thesis by (intro that(1)) (auto simp: complete_stmt_def update_row_def)
next
  case (Some row)
  show thesis
  proof (cases "ir_state row = ''claimed'' \<and> ir_claim_owner row = Some owner")
    case True
    from assms Some True show thesis
      by (intro that(2) [OF Some]) (auto simp: complete_stmt_def update_row_def put_claim_def split: if_splits)
  next
    case False
    with assms Some show thesis
      by (intro that(1)) (auto simp: complete_stmt_def update_row_def split: if_splits)
  qed
qed

lemma complete_inv:
  assumes "complete_stmt tenant run call owner status digest payload now db = Inr (n, db')" "acq_inv db"
  shows "acq_inv db'"
  using assms(1)
proof (cases rule: complete_Inr)
  case 1
  with assms(2) show ?thesis by simp
next
  case (2 row)
  from acq_invD(2) [OF assms(2) 2(1)]
  have "claim_backed (db\<lparr>t_invocations := t_invocations db\<rparr>) (tenant, logical_scope run, call)
      (completed_claim db status digest payload now row)"
    by (rule claim_backed_cong) (simp_all add: completed_claim_def)
  from put_claim_inv [OF assms(2) 2(6) this] show ?thesis by (simp add: 2(5))
qed

text \<open>The calls processes make, one transaction or statement at a time.\<close>

datatype acq_call =
    CallAcquire string AcquisitionRequest
  | CallComplete string string string string int bytes string instant

definition acq_call :: "tables conn \<Rightarrow> acq_call \<Rightarrow> tables conn" where
  "acq_call c call =
     (case call of
        CallAcquire tenant r \<Rightarrow> snd (Acquire tenant r c)
      | CallComplete tenant run toolCall owner status digest payload now \<Rightarrow>
          snd (Complete tenant run toolCall owner status digest payload now c))"

lemma Complete_effect:
  assumes "Complete tenant run call owner status digest payload now c = (res, d)" "P (conn_db c)"
    and "\<And>n t. complete_stmt tenant run call owner status digest payload now (conn_db c) = Inr (n, t) \<Longrightarrow> P t"
  shows "P (conn_db d)"
  using assms by (auto simp: Complete_def act_return_def split: if_splits elim: exec_one_effect)

lemma acq_call_inv:
  assumes "acq_inv (conn_db c)"
  shows "acq_inv (conn_db (acq_call c call))"
proof (cases call)
  case (CallAcquire tenant r)
  obtain res d where run: "Acquire tenant r c = (res, d)" by fastforce
  from run have "acq_inv (conn_db d)"
    by (cases rule: Acquire_effect) (use assms in \<open>auto dest: acquire_inv\<close>)
  with CallAcquire run show ?thesis by (simp add: acq_call_def)
next
  case (CallComplete tenant run toolCall owner status digest payload now)
  obtain res d where run: "Complete tenant run toolCall owner status digest payload now c = (res, d)"
    by fastforce
  have "acq_inv (conn_db d)"
    by (rule Complete_effect [OF run, of acq_inv]) (use assms complete_inv in blast)+
  with CallComplete run show ?thesis by (simp add: acq_call_def)
qed

lemma acq_calls_inv: "acq_inv (conn_db c) \<Longrightarrow> acq_inv (conn_db (foldl acq_call c calls))"
  by (induction calls arbitrary: c) (auto intro: acq_call_inv)

section \<open>Ownership is granted a bounded number of times\<close>

definition owns :: "AcquisitionKind \<Rightarrow> bool" where
  "owns kind \<longleftrightarrow> kind = AcquisitionOwned \<or> kind = AcquisitionRecovered"

definition granted :: "claim_key \<Rightarrow> tables conn \<Rightarrow> acq_call \<Rightarrow> bool" where
  "granted key c call \<longleftrightarrow>
     (case call of
        CallAcquire tenant r \<Rightarrow> request_key tenant r = key
          \<and> (case fst (Acquire tenant r c) of Inr a \<Rightarrow> owns (acq_Kind a) | Inl e \<Rightarrow> False)
      | CallComplete _ _ _ _ _ _ _ _ \<Rightarrow> False)"

fun grants :: "claim_key \<Rightarrow> tables conn \<Rightarrow> acq_call list \<Rightarrow> nat" where
  "grants key c [] = 0"
| "grants key c (call # calls) =
     (if granted key c call then 1 else 0) + grants key (acq_call c call) calls"

text \<open>What is left of the budget of a key: a first claim with ten recoveries, or the recoveries left.\<close>

definition budget :: "claim_key \<Rightarrow> tables \<Rightarrow> int" where
  "budget key db =
     (case map_of (t_idempotency db) key of
        None \<Rightarrow> 11
      | Some row \<Rightarrow> ir_max_recoveries row - ir_recovery_count row)"

lemma plain_Kind [simp]: "acq_Kind (plain_acquisition k v) = k"
  by (simp add: plain_acquisition_def)

lemma classified_not_owns [simp]: "\<not> owns (acq_Kind (classified r row v))"
  by (simp add: classified_def Let_def owns_def)

lemma classified_completed:
  assumes "ir_state row = ''completed''"
  shows "acq_Kind (classified r row v) = AcquisitionConflict
    \<or> (acq_Kind (classified r row v) = AcquisitionReplay
       \<and> acq_ReplayStatusCode (classified r row v) = ir_replay_status_code row
       \<and> acq_ReplayResultDigest (classified r row v) = ir_replay_result_digest row
       \<and> acq_SafeReplayPayload (classified r row v) = ir_safe_replay_payload row)"
  using assms by (simp add: classified_def Let_def)

lemma acquire_budget:
  assumes "acquire tenant r c = (Inr a, d)" "claims_ok (conn_db c)" "validateAcquisitionRequest r = None"
  shows "budget key (conn_db d)
      + (if request_key tenant r = key \<and> owns (acq_Kind a) then 1 else 0) \<le> budget key (conn_db c)"
  using assms(1, 2)
proof (cases rule: acquire_cases)
  case (owned tbl)
  have "req_MaxRecoveries r \<le> 10" using assms(3) by (simp add: validateAcquisitionRequest_def Let_def)
  with owned show ?thesis by (auto simp: budget_def linked_claim_def fresh_claim_def)
next
  case (recovered row i v)
  then show ?thesis by (auto simp: budget_def recovered_claim_def)
next
  case (existing row i v)
  then show ?thesis by simp
qed

lemma complete_budget:
  assumes "complete_stmt tenant run call owner status digest payload now db = Inr (n, db')"
  shows "budget key db' = budget key db"
  using assms by (cases rule: complete_Inr) (auto simp: budget_def completed_claim_def split: option.splits)

lemma acq_call_budget:
  assumes "claims_ok (conn_db c)"
  shows "budget key (conn_db (acq_call c call)) + (if granted key c call then 1 else 0)
    \<le> budget key (conn_db c)"
proof (cases call)
  case (CallAcquire tenant r)
  obtain res d where run: "Acquire tenant r c = (res, d)" by fastforce
  from run have "budget key (conn_db d)
      + (if request_key tenant r = key \<and> (\<exists>a. res = Inr a \<and> owns (acq_Kind a)) then 1 else 0)
      \<le> budget key (conn_db c)"
  proof (cases rule: Acquire_effect)
    case 1
    then show ?thesis by auto
  next
    case (2 c' a d')
    have "claims_ok (conn_db c')" using assms 2(1) by simp
    from acquire_budget [OF 2(2) this 2(5), of key] 2(1, 3, 4) show ?thesis
      by (auto split: if_splits)
  qed
  with CallAcquire run show ?thesis by (auto simp: acq_call_def granted_def split: sum.splits if_splits)
next
  case (CallComplete tenant run toolCall owner status digest payload now)
  obtain res d where run: "Complete tenant run toolCall owner status digest payload now c = (res, d)"
    by fastforce
  have "budget key (conn_db d) = budget key (conn_db c)"
    by (rule Complete_effect [OF run, of "\<lambda>db. budget key db = budget key (conn_db c)"])
      (auto dest: complete_budget)
  with CallComplete run show ?thesis by (simp add: acq_call_def granted_def)
qed

lemma grants_within_budget:
  "acq_inv (conn_db c) \<Longrightarrow> int (grants key c calls) \<le> budget key (conn_db c)"
proof (induction calls arbitrary: c)
  case Nil
  then show ?case
    using claims_okD(3) by (fastforce simp: budget_def acq_inv_def split: option.splits)
next
  case (Cons call calls)
  have "claims_ok (conn_db c)" using Cons.prems by (simp add: acq_inv_def)
  from acq_call_budget [OF this, of key call] Cons.IH [OF acq_call_inv [OF Cons.prems], of call]
  show ?case by (cases "granted key c call") simp_all
qed

section \<open>Completed claims\<close>

definition completed_as :: "claim_key \<Rightarrow> idempotency_row \<Rightarrow> tables \<Rightarrow> bool" where
  "completed_as key row db \<longleftrightarrow>
     map_of (t_idempotency db) key = Some row \<and> ir_state row = ''completed''"

lemma acq_call_completed:
  assumes "completed_as key row (conn_db c)" "acq_inv (conn_db c)"
  shows "completed_as key row (conn_db (acq_call c call))"
proof (cases call)
  case (CallAcquire tenant r)
  obtain res d where run: "Acquire tenant r c = (res, d)" by fastforce
  from run have "completed_as key row (conn_db d)"
  proof (cases rule: Acquire_effect)
    case 1
    with assms(1) show ?thesis by simp
  next
    case (2 c' a d')
    have "claims_ok (conn_db c')" using assms(2) 2(1) by (simp add: acq_inv_def)
    with 2(2) show ?thesis
      by (cases rule: acquire_cases)
        (use assms(1) 2(1, 3) in \<open>auto simp: completed_as_def recoverable_def\<close>)
  qed
  with CallAcquire run show ?thesis by (simp add: acq_call_def)
next
  case (CallComplete tenant run toolCall owner status digest payload now)
  obtain res d where run: "Complete tenant run toolCall owner status digest payload now c = (res, d)"
    by fastforce
  have "completed_as key row (conn_db d)"
  proof (rule Complete_effect [OF run, of "completed_as key row", OF assms(1)])
    fix n t
    assume "complete_stmt tenant run toolCall owner status digest payload now (conn_db c) = Inr (n, t)"
    then show "completed_as key row t"
      by (cases rule: complete_Inr) (use assms(1) in \<open>auto simp: completed_as_def\<close>)
  qed
  with CallComplete run show ?thesis by (simp add: acq_call_def)
qed

interpretation claims: settled_store "\<lambda>c d. \<exists>call. d = acq_call c call"
    "\<lambda>key row c. completed_as key row (conn_db c) \<and> acq_inv (conn_db c)"
proof unfold_locales
  fix s t :: "tables conn" and key row
  assume "\<exists>call. t = acq_call s call" "completed_as key row (conn_db s) \<and> acq_inv (conn_db s)"
  then show "completed_as key row (conn_db t) \<and> acq_inv (conn_db t)"
    using acq_call_completed acq_call_inv by blast
qed (simp add: completed_as_def)

lemma acq_calls_completed:
  assumes "completed_as key row (conn_db c)" "acq_inv (conn_db c)"
  shows "completed_as key row (conn_db (foldl acq_call c calls))"
  using claims.forever [OF foldl_steps] assms by blast

section \<open>Properties\<close>

text \<open>
  A visible claim always refers to a durable invocation. Starting from a ledger without claims,
  after any interleaving of acquisitions and completions by any processes, with any failures of the
  connection, every claim names an invocation of its tenant with the claim's run, tool call and request
  digest, and its recoveries are within its bound.
\<close>

theorem claims_refer_to_durable_invocations:
  assumes "t_idempotency (conn_db c) = []"
    and "map_of (t_idempotency (conn_db (foldl acq_call c calls))) (tenant, scope, call) = Some row"
  shows "\<exists>i v. ir_invocation_id row = Some i
      \<and> map_of (t_invocations (conn_db (foldl acq_call c calls))) (tenant, i) = Some v
      \<and> scope = logical_scope (inv_RunID v) \<and> call = inv_ToolCallID v
      \<and> ir_request_digest row = logicalRequestDigest v
      \<and> 0 \<le> ir_recovery_count row \<and> ir_recovery_count row \<le> ir_max_recoveries row"
proof -
  from assms(1) have "acq_inv (conn_db c)" by (intro acq_invI) simp
  from acq_invD [OF acq_calls_inv [OF this] assms(2)] show ?thesis
    by (auto simp: claim_backed_def idempotency_ok_def)
qed

text \<open>
  C24. Ownership of one logical invocation is granted at most eleven times in total: once, and once per
  recovery, of which a request can ask for ten. This holds for every interleaving of calls on every
  consistent ledger; when the claim exists already, only its remaining recoveries are granted.
\<close>

theorem ownership_grants_are_bounded:
  assumes "acq_inv (conn_db c)"
  shows "int (grants key c calls) \<le>
    (case map_of (t_idempotency (conn_db c)) key of
       None \<Rightarrow> 11 | Some row \<Rightarrow> ir_max_recoveries row - ir_recovery_count row)"
  using grants_within_budget [OF assms] by (simp add: budget_def)

text \<open>
  C7. While the lease of a claim is running nobody is granted ownership of it and the ledger does not
  change: an acquisition answers pending, conflict or recovery exhausted, or replay if it completed.
\<close>

theorem live_lease_excludes_others:
  assumes "acq_inv (conn_db c)"
    and "map_of (t_idempotency (conn_db c)) (request_key tenant r) = Some row"
    and "ir_claim_expires_at row = Some e" and "timestamptz (conn_db c) (req_Now r) < e"
    and "Acquire tenant r c = (Inr a, d)"
  shows "\<not> owns (acq_Kind a) \<and> conn_db d = conn_db c"
  using assms(5)
proof (cases rule: Acquire_effect)
  case 1
  then show ?thesis by simp
next
  case (2 c' x d')
  have "claims_ok (conn_db c')" using assms(1) 2(1) by (simp add: acq_inv_def)
  with 2(2) show ?thesis
    by (cases rule: acquire_cases) (use assms(2-4) 2(1, 3, 4) in \<open>auto simp: recoverable_def\<close>)
qed

text \<open>
  C6. Only the current owner completes a claim, and its envelope is what every later caller sees. If
  \<open>Complete\<close> succeeds, the claim was held by that owner; and after any further calls an acquisition of
  the same logical invocation that succeeds is a conflict or a replay of exactly that status, digest and
  payload (as the server stores \<open>jsonb\<close>).
\<close>

theorem completed_result_is_replayed:
  assumes "acq_inv (conn_db c)"
    and "Complete tenant run call owner status digest payload now c = (Inr (), d)"
    and "Acquire tenant r (foldl acq_call d calls) = (Inr a, e)"
    and "request_key tenant r = (tenant, logical_scope run, call)"
  shows "(\<exists>row. map_of (t_idempotency (conn_db c)) (tenant, logical_scope run, call) = Some row
        \<and> ir_state row = ''claimed'' \<and> ir_claim_owner row = Some owner)
    \<and> (acq_Kind a = AcquisitionConflict
       \<or> (acq_Kind a = AcquisitionReplay \<and> acq_ReplayStatusCode a = Some status
          \<and> acq_ReplayResultDigest a = Some digest
          \<and> acq_SafeReplayPayload a = Some (jsonb (conn_db c) payload)))"
proof -
  let ?key = "(tenant, logical_scope run, call)"
  from assms(2) have stmt:
    "complete_stmt tenant run call owner status digest payload now (conn_db c) = Inr (1, conn_db d)"
    by (auto simp: Complete_def act_return_def split: if_splits dest!: exec_one_Inr)
  obtain row where row: "map_of (t_idempotency (conn_db c)) ?key = Some row"
    "ir_state row = ''claimed''" "ir_claim_owner row = Some owner"
    and d: "conn_db d = put_claim ?key (completed_claim (conn_db c) status digest payload now row) (conn_db c)"
    using stmt
  proof (cases rule: complete_Inr)
    case 1
    from 1(2) show thesis by simp
  next
    case (2 row)
    then show thesis by (intro that [of row])
  qed
  define fin where "fin = completed_claim (conn_db c) status digest payload now row"
  have inv: "acq_inv (conn_db (foldl acq_call d calls))"
    by (rule acq_calls_inv) (rule complete_inv [OF stmt assms(1)])
  have "completed_as ?key fin (conn_db (foldl acq_call d calls))"
    by (rule acq_calls_completed) (simp add: completed_as_def d fin_def completed_claim_def, rule complete_inv [OF stmt assms(1)])
  then have look: "map_of (t_idempotency (conn_db (foldl acq_call d calls))) (request_key tenant r) = Some fin"
    by (simp add: completed_as_def assms(4))
  have "acq_Kind a = AcquisitionConflict \<or> (\<exists>v. a = classified r fin v)"
    using assms(3)
  proof (cases rule: Acquire_effect)
    case (2 c' x d')
    have "claims_ok (conn_db c')" using inv 2(1) by (simp add: acq_inv_def)
    with 2(2) show ?thesis
      by (cases rule: acquire_cases)
        (use look 2(1, 4) in \<open>auto simp: recoverable_def fin_def completed_claim_def\<close>)
  qed simp
  then have "acq_Kind a = AcquisitionConflict \<or> (acq_Kind a = AcquisitionReplay
      \<and> acq_ReplayStatusCode a = Some status \<and> acq_ReplayResultDigest a = Some digest
      \<and> acq_SafeReplayPayload a = Some (jsonb (conn_db c) payload))"
    using classified_completed [of fin r] by (auto simp: fin_def completed_claim_def)
  with row show ?thesis by blast
qed

text \<open>
  C25. A logical invocation is bound to one tool, version and argument digest. Unless the answer is a
  conflict, the durable invocation an acquisition returns has the run, tool call, tool, version and
  argument digest of the request, provided SHA-256 does not collide on the two framed requests.
\<close>

theorem acquisition_binds_request:
  assumes "acq_inv (conn_db c)" and "Acquire tenant r c = (Inr a, d)"
    and "acq_Kind a \<noteq> AcquisitionConflict"
    and "\<forall>f \<in> set (request_fields (acq_Invocation a)) \<union> set (request_fields (req_Invocation r)).
           length f < 2 ^ 64"
    and "Sum256 (framed (request_fields (acq_Invocation a))) = Sum256 (framed (request_fields (req_Invocation r)))
         \<longrightarrow> framed (request_fields (acq_Invocation a)) = framed (request_fields (req_Invocation r))"
  shows "inv_ToolID (acq_Invocation a) = inv_ToolID (req_Invocation r)
    \<and> inv_ToolVersion (acq_Invocation a) = inv_ToolVersion (req_Invocation r)
    \<and> inv_ArgumentDigest (acq_Invocation a) = inv_ArgumentDigest (req_Invocation r)
    \<and> inv_RunID (acq_Invocation a) = inv_RunID (req_Invocation r)
    \<and> inv_ToolCallID (acq_Invocation a) = inv_ToolCallID (req_Invocation r)"
proof -
  let ?v = "acq_Invocation a" and ?w = "req_Invocation r"
  from assms(2) obtain c' d' where run: "conn_db c' = conn_db c" "acquire tenant r c' = (Inr a, d')"
    by (cases rule: Acquire_effect) auto
  have ok: "claims_ok (conn_db c')" using assms(1) run(1) by (simp add: acq_inv_def)
  have backed: "inv_RunID v = inv_RunID ?w \<and> inv_ToolCallID v = inv_ToolCallID ?w
      \<and> ir_request_digest row = logicalRequestDigest v"
    if "map_of (t_idempotency (conn_db c)) (request_key tenant r) = Some row"
      "ir_invocation_id row = Some i" "map_of (t_invocations (conn_db c)) (tenant, i) = Some v" for row i v
    using acq_invD(2) [OF assms(1) that(1)] that(2, 3)
    by (auto simp: claim_backed_def request_key_def logical_scope_def)
  have fields: "request_fields ?v = request_fields ?w" if "logicalRequestDigest ?v = logicalRequestDigest ?w"
    using that assms(4, 5) framed_inject [of "request_fields ?v" "request_fields ?w"]
    by (simp add: logicalRequestDigest_def request_fields_def)
  from run(2) ok show ?thesis
  proof (cases rule: acquire_cases)
    case (owned tbl)
    then show ?thesis by (simp add: plain_acquisition_def)
  next
    case (recovered row i v)
    with backed [of row i v] run(1) fields show ?thesis
      by (simp add: plain_acquisition_def recoverable_def request_fields_def)
  next
    case (existing row i v)
    with backed [of row i v] run(1) assms(3) show ?thesis
      by (simp add: classified_def Let_def plain_acquisition_def split: if_splits)
  qed
qed

section \<open>A concrete acquisition\<close>

definition sample_invocation :: Invocation where
  "sample_invocation = \<lparr>inv_ID = ''i'', inv_RunID = ''run'', inv_ToolCallID = ''call'', inv_ToolID = ''a.b'',
     inv_ToolVersion = ''1.0.0'', inv_ArgumentProfile = ''p'', inv_ArgumentDigest = replicate 32 0,
     inv_ResourceDigest = replicate 32 0, inv_ResourceProjection = ''{}'', inv_RetryClass = ''safe'',
     inv_State = ''received'', inv_StateVersion = 1, inv_TerminalCode = None, inv_TerminalAt = None,
     inv_CreatedAt = 7, inv_UpdatedAt = 7\<rparr>"

definition sample_request_at :: "instant \<Rightarrow> AcquisitionRequest" where
  "sample_request_at now = \<lparr>req_Invocation = sample_invocation, req_OwnerID = ''w'', req_Now = now,
     req_LeaseDuration = 60, req_MaxRecoveries = 2\<rparr>"

abbreviation sample_conn :: "tables \<Rightarrow> tables conn" where
  "sample_conn db \<equiv> \<lparr>conn_db = db, conn_outcomes = []\<rparr>"

definition owned_tables :: tables where
  "owned_tables = put_claim (''t'', logical_scope ''run'', ''call'')
     (linked_claim sample_tables (sample_request_at 10))
     (sample_tables\<lparr>t_invocations := [((''t'', ''i''), sample_invocation)]\<rparr>)"

lemma length_logicalRequestDigest [simp]: "length (logicalRequestDigest v) = 32"
  by (simp add: logicalRequestDigest_def)

lemma sample_acquisition_valid: "now \<noteq> 0 \<Longrightarrow> validateAcquisitionRequest (sample_request_at now) = None"
  by (simp add: validateAcquisitionRequest_def sample_request_at_def sample_invocation_def IsZero_def
      duration_defs)

lemma sample_key: "request_key ''t'' (sample_request_at now) = (''t'', logical_scope ''run'', ''call'')"
  by (simp add: request_key_def sample_request_at_def sample_invocation_def)

lemma sample_insert:
  "insert_invocation ''t'' sample_invocation sample_tables = Inr [((''t'', ''i''), sample_invocation)]"
  by (simp add: insert_invocation_def insert_row_def store_invocation_def sample_tables_def empty_tables_def
      sample_invocation_def invocation_ok_def invocation_states_def terminal_states_def pg_eval
      logical_calls_def tool_eval)

lemma sample_claim:
  "claim_stmt ''t'' (sample_request_at 10) sample_tables =
     (Inr (0, None), put_claim (''t'', logical_scope ''run'', ''call'')
        (fresh_claim sample_tables (sample_request_at 10)) sample_tables)"
  by (simp add: claim_stmt_def sample_key Let_def)
    (simp add: sample_tables_def empty_tables_def fresh_claim_def sample_request_at_def pg_eval
      idempotency_ok_def duration_defs)

lemma sample_request_invocation [simp]: "req_Invocation (sample_request_at now) = sample_invocation"
  by (simp add: sample_request_at_def)

lemma sample_link:
  "link_stmt ''t'' (sample_request_at 10) ((put_claim (''t'', logical_scope ''run'', ''call'')
       (fresh_claim sample_tables (sample_request_at 10)) sample_tables)
       \<lparr>t_invocations := [((''t'', ''i''), sample_invocation)]\<rparr>) = Inr (1, owned_tables)"
proof -
  have id: "inv_ID sample_invocation = ''i''" by (simp add: sample_invocation_def)
  show ?thesis
    by (simp add: link_stmt_def sample_key invocation_exists_def update_row_def id owned_tables_def
        linked_claim_def put_claim_def sample_tables_def empty_tables_def)
      (simp add: fresh_claim_def sample_request_at_def idempotency_ok_def duration_defs)
qed

lemma sample_acquired:
  "Acquire ''t'' (sample_request_at 10) (sample_conn sample_tables) =
     (Inr (plain_acquisition AcquisitionOwned sample_invocation), sample_conn owned_tables)"
  by (simp add: Acquire_def sample_acquisition_valid acquire_def sample_claim owned_or_recovered_def
      Invocation_Create_def sample_insert sample_link pg_eval)

lemma sample_call: "acq_call (sample_conn sample_tables) (CallAcquire ''t'' (sample_request_at 10))
    = sample_conn owned_tables"
  by (simp add: acq_call_def sample_acquired)

lemma sample_inv: "acq_inv sample_tables" "acq_inv owned_tables"
proof -
  show empty: "acq_inv sample_tables"
    by (intro acq_invI) (simp add: sample_tables_def empty_tables_def)
  from acq_call_inv [of "sample_conn sample_tables" "CallAcquire ''t'' (sample_request_at 10)"] empty
  show "acq_inv owned_tables" by (simp add: sample_call)
qed

lemma owned_tables_simps [simp]:
  "map_of (t_idempotency owned_tables) (''t'', logical_scope ''run'', ''call'')
     = Some (linked_claim sample_tables (sample_request_at 10))"
  "map_of (t_invocations owned_tables) (''t'', ''i'') = Some sample_invocation"
  "t_server owned_tables = \<lparr>sv_jsonb = id, sv_timestamptz = id\<rparr>"
  by (simp_all add: owned_tables_def) (simp add: sample_tables_def empty_tables_def)

lemma sample_linked_claim:
  "linked_claim sample_tables (sample_request_at 10) =
     \<lparr>ir_invocation_id = Some ''i'', ir_request_digest = logicalRequestDigest sample_invocation,
      ir_state = ''claimed'', ir_claim_owner = Some ''w'', ir_claim_expires_at = Some 70,
      ir_replay_status_code = None, ir_replay_result_digest = None, ir_safe_replay_payload = None,
      ir_created_at = 10, ir_updated_at = 10, ir_expires_at = 10 + 24 * Hour,
      ir_recovery_count = 0, ir_max_recoveries = 2\<rparr>"
  by (simp add: linked_claim_def fresh_claim_def sample_tables_def empty_tables_def)
    (simp add: sample_request_at_def sample_invocation_def)

lemma sample_pending:
  "Acquire ''t'' (sample_request_at 20) (sample_conn owned_tables) =
     (Inr (plain_acquisition AcquisitionPending sample_invocation), sample_conn owned_tables)"
  by (simp add: Acquire_def sample_acquisition_valid acquire_def claim_stmt_def sample_key recoverable_def
      classifyExisting_def classify_stmt_def classified_def pg_eval sample_linked_claim)
    (simp add: sample_request_at_def)

theorem claims_refer_to_durable_invocations_witness:
  "\<exists>i v. ir_invocation_id (linked_claim sample_tables (sample_request_at 10)) = Some i
      \<and> map_of (t_invocations owned_tables) (''t'', i) = Some v
      \<and> logical_scope ''run'' = logical_scope (inv_RunID v) \<and> ''call'' = inv_ToolCallID v
      \<and> ir_request_digest (linked_claim sample_tables (sample_request_at 10)) = logicalRequestDigest v"
  using claims_refer_to_durable_invocations [of "sample_conn sample_tables"
      "[CallAcquire ''t'' (sample_request_at 10)]" "''t''" "logical_scope ''run''" "''call''"]
  by (simp add: sample_call) (auto simp: sample_tables_def empty_tables_def)

theorem ownership_grants_are_bounded_witness:
  "int (grants (''t'', logical_scope ''run'', ''call'') (sample_conn sample_tables)
     [CallAcquire ''t'' (sample_request_at 10), CallAcquire ''t'' (sample_request_at 20)]) \<le> 11"
  using ownership_grants_are_bounded [of "sample_conn sample_tables" "(''t'', logical_scope ''run'', ''call'')"
      "[CallAcquire ''t'' (sample_request_at 10), CallAcquire ''t'' (sample_request_at 20)]"]
    sample_inv(1)
  by (simp add: sample_tables_def empty_tables_def)

theorem live_lease_excludes_others_witness:
  "\<not> owns (acq_Kind (plain_acquisition AcquisitionPending sample_invocation))
   \<and> conn_db (sample_conn owned_tables) = conn_db (sample_conn owned_tables)"
proof (rule live_lease_excludes_others [OF _ _ _ _ sample_pending])
  show "acq_inv (conn_db (sample_conn owned_tables))" using sample_inv(2) by simp
  show "map_of (t_idempotency (conn_db (sample_conn owned_tables))) (request_key ''t'' (sample_request_at 20))
      = Some (linked_claim sample_tables (sample_request_at 10))" by (simp add: sample_key)
  show "ir_claim_expires_at (linked_claim sample_tables (sample_request_at 10)) = Some 70"
    by (simp add: sample_linked_claim)
  show "timestamptz (conn_db (sample_conn owned_tables)) (req_Now (sample_request_at 20)) < 70"
    by (simp add: sample_request_at_def)
qed

definition replay_tables :: tables where
  "replay_tables = put_claim (''t'', logical_scope ''run'', ''call'')
     (completed_claim owned_tables 200 (replicate 32 1) ''{}'' 15
        (linked_claim sample_tables (sample_request_at 10))) owned_tables"

lemma sample_complete:
  "Complete ''t'' ''run'' ''call'' ''w'' 200 (replicate 32 1) ''{}'' 15 (sample_conn owned_tables)
     = (Inr (), sample_conn replay_tables)"
  by (simp add: Complete_def IsZero_def complete_stmt_def pg_eval sample_linked_claim idempotency_ok_def
      completed_claim_def replay_tables_def put_claim_def duration_defs)

lemma sample_replay:
  "Acquire ''t'' (sample_request_at 20) (sample_conn replay_tables) =
     (Inr \<lparr>acq_Kind = AcquisitionReplay, acq_Invocation = sample_invocation,
          acq_ReplayStatusCode = Some 200, acq_ReplayResultDigest = Some (replicate 32 1),
          acq_SafeReplayPayload = Some ''{}''\<rparr>, sample_conn replay_tables)"
  by (simp add: Acquire_def sample_acquisition_valid acquire_def claim_stmt_def sample_key recoverable_def
      classifyExisting_def classify_stmt_def classified_def pg_eval sample_linked_claim
      replay_tables_def completed_claim_def)

theorem completed_result_is_replayed_witness:
  "\<exists>row. map_of (t_idempotency owned_tables) (''t'', logical_scope ''run'', ''call'') = Some row
        \<and> ir_state row = ''claimed'' \<and> ir_claim_owner row = Some ''w''"
  using completed_result_is_replayed [OF _ sample_complete, of "sample_request_at 20" "[]"]
    sample_inv(2) sample_replay sample_key by simp

theorem acquisition_binds_request_witness:
  "inv_ToolID (acq_Invocation (plain_acquisition AcquisitionOwned sample_invocation)) = ''a.b''
   \<and> inv_RunID (acq_Invocation (plain_acquisition AcquisitionOwned sample_invocation)) = ''run''"
  using acquisition_binds_request [OF _ sample_acquired] sample_inv(1)
  by (simp add: plain_acquisition_def request_fields_def) (simp add: sample_invocation_def)

end
