(* ===== verification/Pg_Ledger.thy ===== *)
theory Pg_Ledger
  imports Tool_Calls Pg_Acquisition
begin

text \<open>
  The invocation ledger (\<open>internal/adapters/postgres/invocation_ledger.go\<close>): the acquisition of logical
  invocations and the tenant's protected mutations behind the ports of the tool-call service. A clock
  reading and the entropy of a fresh UUID are arguments. A Go slice or map without elements is taken to
  be nil, as for the authorization request.
\<close>

section \<open>Operations\<close>

record InvocationLedger =
  il_tenantID :: string
  il_ownerID :: string
  il_lease :: duration
  il_maxRecoveries :: int

definition NewInvocationLedger ::
  "string option \<Rightarrow> bool \<Rightarrow> string \<Rightarrow> duration \<Rightarrow> int \<Rightarrow> bool \<Rightarrow> InvocationLedger result" where
  "NewInvocationLedger acquirer decisions_db ownerID lease maxRecoveries clock =
     (case acquirer of
        Some tenantID \<Rightarrow>
          if \<not> decisions_db \<or> ownerID = [] \<or> lease \<le> 0 \<or> lease > 5 * Minute \<or> maxRecoveries < 0
             \<or> maxRecoveries > 10 \<or> \<not> clock
          then Inl (ErrNew ''invocation ledger configuration is invalid'')
          else Inr \<lparr>il_tenantID = tenantID, il_ownerID = ownerID, il_lease = lease, il_maxRecoveries = maxRecoveries\<rparr>
      | None \<Rightarrow> Inl (ErrNew ''invocation ledger configuration is invalid''))"

text \<open>\<open>copy\<close> into an array of thirty-two bytes.\<close>

definition copy32 :: "bytes \<Rightarrow> Digest" where
  "copy32 bs = take 32 bs @ replicate (32 - length bs) 0"

definition portInvocation :: "Invocation \<Rightarrow> LogicalInvocation" where
  "portInvocation v =
     \<lparr>li_ID = inv_ID v, li_RunID = inv_RunID v, li_ToolCallID = inv_ToolCallID v, li_ToolID = inv_ToolID v,
      li_ToolVersion = inv_ToolVersion v, li_ArgumentProfile = inv_ArgumentProfile v,
      li_ArgumentDigest = copy32 (inv_ArgumentDigest v), li_ResourceDigest = copy32 (inv_ResourceDigest v),
      li_ResourceProjection = inv_ResourceProjection v, li_RetryClass = inv_RetryClass v, li_State = inv_State v,
      li_CreatedAt = inv_CreatedAt v, li_UpdatedAt = inv_UpdatedAt v\<rparr>"

definition ledger_invocation :: "LogicalInvocation \<Rightarrow> Invocation" where
  "ledger_invocation v =
     \<lparr>inv_ID = li_ID v, inv_RunID = li_RunID v, inv_ToolCallID = li_ToolCallID v, inv_ToolID = li_ToolID v,
      inv_ToolVersion = li_ToolVersion v, inv_ArgumentProfile = li_ArgumentProfile v,
      inv_ArgumentDigest = li_ArgumentDigest v, inv_ResourceDigest = li_ResourceDigest v,
      inv_ResourceProjection = li_ResourceProjection v, inv_RetryClass = li_RetryClass v, inv_State = li_State v,
      inv_StateVersion = 1, inv_TerminalCode = None, inv_TerminalAt = None,
      inv_CreatedAt = li_CreatedAt v, inv_UpdatedAt = li_UpdatedAt v\<rparr>"

definition port_kind :: "AcquisitionKind \<Rightarrow> InvocationAcquisitionKind" where
  "port_kind kind =
     (case kind of AcquisitionOwned \<Rightarrow> InvocationOwned | AcquisitionRecovered \<Rightarrow> InvocationOwned
      | AcquisitionConflict \<Rightarrow> InvocationConflict | _ \<Rightarrow> InvocationExisting)"

definition ledger_Acquire ::
  "InvocationLedger \<Rightarrow> instant \<Rightarrow> InvocationIdentity \<Rightarrow> LogicalInvocation \<Rightarrow> (tables, port_Acquisition) action" where
  "ledger_Acquire ledger now identity v =
     (if ii_TenantID identity \<noteq> il_tenantID ledger \<or> ii_RunID identity \<noteq> li_RunID v
      then act_return (Inl (NewError CodeInvalidArgument ''invocation scope does not match the tenant ledger'' None))
      else act_bind (Acquire (il_tenantID ledger)
          \<lparr>req_Invocation = ledger_invocation v, req_OwnerID = il_ownerID ledger, req_Now = now,
           req_LeaseDuration = il_lease ledger, req_MaxRecoveries = il_maxRecoveries ledger\<rparr>)
        (\<lambda>result. act_return (Inr \<lparr>pa_Kind = port_kind (acq_Kind result),
           pa_Invocation = portInvocation (acq_Invocation result)\<rparr>)))"

definition json_constraints :: "AuthorizationConstraints \<Rightarrow> json" where
  "json_constraints c = JObject
     [(''Repositories'', json_strings (ac_Repositories c)), (''Resources'', json_strings (ac_Resources c)),
      (''Actions'', json_strings (ac_Actions c)),
      (''ArgumentMax'', if ac_ArgumentMax c = [] then JNull
         else JObject (map (\<lambda>(k, n). (k, JNumber (Itoa n))) (sort_key fst (ac_ArgumentMax c)))),
      (''MaxResultBytes'', JNumber (Itoa (ac_MaxResultBytes c))), (''MaxDuration'', JNumber (Itoa (ac_MaxDuration c)))]"

definition json_pairs :: "(string \<times> string) list \<Rightarrow> string" where
  "json_pairs ps = json_print (JObject (map (\<lambda>(k, v). (k, JString v)) ps))"

definition decision_record ::
  "string \<Rightarrow> AuthorizationDecision \<Rightarrow> Digest \<Rightarrow> Digest \<Rightarrow> Digest \<Rightarrow> instant \<Rightarrow> pg_AuthorizationDecision" where
  "decision_record invocationID decision contextDigest argumentDigest resourceDigest recorded =
     \<lparr>pad_InvocationID = invocationID, pad_DecisionID = ad_DecisionID decision, pad_ContextDigest = contextDigest,
      pad_ArgumentDigest = argumentDigest, pad_ResourceDigest = resourceDigest, pad_Outcome = ad_Outcome decision,
      pad_PolicyRef = ad_PolicyID decision @ ''@'' @ ad_PolicyVersion decision,
      pad_Constraints = json_print (json_constraints (ad_Constraints decision)),
      pad_IssuedAt = ad_IssuedAt decision, pad_ExpiresAt = ad_ExpiresAt decision, pad_RecordedAt = recorded,
      pad_RevocationCheckpoint = Some (ad_RevocationCheckpoint decision)\<rparr>"

definition decision_evidence ::
  "InvocationIdentity \<Rightarrow> string \<Rightarrow> AuthorizationDecision \<Rightarrow> string \<Rightarrow> string \<Rightarrow> instant \<Rightarrow> ProtectedMutationRecords" where
  "decision_evidence identity invocationID decision eventID outboxID recorded =
     (let correlation = json_pairs [(''decision_id'', ad_DecisionID decision), (''invocation_id'', invocationID),
            (''run_id'', ii_RunID identity)];
          payload = json_pairs [(''decision_id'', ad_DecisionID decision), (''event_id'', eventID),
            (''event_type'', ''authorization.decision''), (''invocation_id'', invocationID),
            (''outcome'', ad_Outcome decision)];
          digest = DigestBytes payload in
      \<lparr>pmr_Audit = \<lparr>ae_EventID = eventID, ae_InvocationID = Some invocationID, ae_EventType = ''authorization.decision'',
         ae_EvidenceProfile = ''tg.evidence/v1alpha1'', ae_ActorClass = ''workload'',
         ae_ActorRef = Some (ii_WorkloadID identity), ae_Outcome = ad_Outcome decision, ae_ReasonCode = None,
         ae_Correlation = correlation, ae_SafePayload = payload, ae_PayloadDigest = digest,
         ae_OccurredAt = recorded, ae_RecordedAt = recorded\<rparr>,
       pmr_Outbox = [\<lparr>om_ID = outboxID, om_EventID = eventID, om_Topic = ''evidence'',
         om_EventType = ''authorization.decision'', om_SafePayload = payload, om_PayloadDigest = digest,
         om_CreatedAt = recorded, om_AvailableAt = recorded\<rparr>]\<rparr>)"

type_synonym uuid_source = "instant \<times> bytes result"

definition ledger_RecordAuthorization ::
  "InvocationLedger \<Rightarrow> uuid_source \<Rightarrow> uuid_source \<Rightarrow> InvocationIdentity \<Rightarrow> string \<Rightarrow> AuthorizationDecision
     \<Rightarrow> Digest \<Rightarrow> Digest \<Rightarrow> instant \<Rightarrow> (tables, unit) action" where
  "ledger_RecordAuthorization ledger first second identity invocationID decision argumentDigest resourceDigest recorded =
     (if ii_TenantID identity \<noteq> il_tenantID ledger
      then act_return (Inl (NewError CodeInvalidArgument ''authorization scope does not match the tenant ledger'' None))
      else case ParseDigest (ad_ContextDigest decision) of
        Inl err \<Rightarrow> act_return (Inl (NewError CodeInternal ''authorization context digest is invalid'' (Some err)))
      | Inr contextDigest \<Rightarrow>
          (case NewUUIDv7From (fst first) (snd first) of
             Inl err \<Rightarrow> act_return
               (Inl (NewError CodeInternal ''authorization evidence identity could not be created'' (Some err)))
           | Inr eventID \<Rightarrow>
               (case NewUUIDv7From (fst second) (snd second) of
                  Inl err \<Rightarrow> act_return
                    (Inl (NewError CodeInternal ''authorization publication identity could not be created'' (Some err)))
                | Inr outboxID \<Rightarrow>
                    ProtectedMutation_Execute (il_tenantID ledger)
                      (decision_evidence identity invocationID decision (UUID_String eventID) (UUID_String outboxID) recorded)
                      (Some (RecordAuthorization (il_tenantID ledger)
                         (decision_record invocationID decision contextDigest argumentDigest resourceDigest recorded))))))"

definition ledger_GetToolCall ::
  "InvocationLedger \<Rightarrow> InvocationIdentity \<Rightarrow> string \<Rightarrow> (tables, ToolCallView) action" where
  "ledger_GetToolCall ledger identity toolCallID =
     (if ii_TenantID identity \<noteq> il_tenantID ledger \<or> ii_RunID identity = []
      then act_return (Inl (NewError CodeNotFound ''tool call was not found'' None))
      else case NewTenantRepositories (Some ()) (ii_TenantID identity) of
        Inl err \<Rightarrow> act_return (Inl err)
      | Inr tenant \<Rightarrow> GetToolCallView tenant (ii_RunID identity) toolCallID)"

text \<open>\<open>digestJSON\<close> of \<open>internal/adapters/thinkpixelag/authorization.go\<close>, on the encoded value.\<close>

definition digestJSON :: "string \<Rightarrow> string" where
  "digestJSON encoded = ''sha256:'' @ hex_EncodeToString (Sum256 (bytes_of_string encoded))"

section \<open>Recording a decision\<close>

definition decision_recorded :: "string \<Rightarrow> pg_AuthorizationDecision \<Rightarrow> tables \<Rightarrow> bool" where
  "decision_recorded tenant v db \<longleftrightarrow>
     (\<exists>row. map_of (t_decisions db) (tenant, pad_InvocationID v, pad_DecisionID v) = Some row
        \<and> pad_Outcome row = pad_Outcome v \<and> pad_ContextDigest row = pad_ContextDigest v
        \<and> pad_ArgumentDigest row = pad_ArgumentDigest v \<and> pad_ResourceDigest row = pad_ResourceDigest v)"

lemma RecordAuthorization_Inr:
  assumes "RecordAuthorization tenant v c = (Inr u, d)"
  shows "decision_recorded tenant v (conn_db d)"
proof -
  from assms obtain tbl where "insert_decision tenant v (conn_db c) = Inr tbl"
    "conn_db d = (conn_db c)\<lparr>t_decisions := tbl\<rparr>"
    unfolding RecordAuthorization_def by (rule insert_stmt_Inr)
  then show ?thesis
    by (auto simp: insert_decision_def Let_def decision_recorded_def dest: insert_row_lookup)
qed

lemma digestJSON_refused: "\<exists>e. ParseDigest (digestJSON encoded) = Inl e"
proof (cases "ParseDigest (digestJSON encoded)")
  case (Inr d)
  have "CHR ''s'' \<in> set (digestJSON encoded)" by (simp add: digestJSON_def)
  from ParseDigest_chars [OF Inr this] show ?thesis by (simp add: hex_value_def)
qed auto

lemma ledger_refuses_digestJSON:
  assumes "ad_ContextDigest decision = digestJSON encoded"
  shows "\<exists>e. ledger_RecordAuthorization ledger f g identity x decision a r t c = (Inl e, c)"
  using digestJSON_refused [of encoded] assms
  by (auto simp: ledger_RecordAuthorization_def act_return_def)

lemma ledger_RecordAuthorization_cases:
  assumes "ledger_RecordAuthorization ledger f g identity invocationID decision a r t c = (res, d)"
  shows "(d = c \<and> (\<exists>e. res = Inl e))
    \<or> (\<exists>ctx eventID outboxID. ii_TenantID identity = il_tenantID ledger
        \<and> ParseDigest (ad_ContextDigest decision) = Inr ctx
        \<and> ProtectedMutation_Execute (il_tenantID ledger)
            (decision_evidence identity invocationID decision eventID outboxID t)
            (Some (RecordAuthorization (il_tenantID ledger) (decision_record invocationID decision ctx a r t))) c = (res, d))"
proof (cases "ii_TenantID identity = il_tenantID ledger")
  case True
  show ?thesis
  proof (cases "ParseDigest (ad_ContextDigest decision)")
    case (Inr ctx)
    with True assms show ?thesis
      by (cases "NewUUIDv7From (fst f) (snd f)"; cases "NewUUIDv7From (fst g) (snd g)")
        (auto simp: ledger_RecordAuthorization_def act_return_def)
  qed (use True assms in \<open>auto simp: ledger_RecordAuthorization_def act_return_def\<close>)
qed (use assms in \<open>auto simp: ledger_RecordAuthorization_def act_return_def\<close>)

lemma recorded_with_evidence:
  assumes "ProtectedMutation_Execute tenant records (Some (RecordAuthorization tenant v)) c = (res, d)"
  shows "(conn_db d = conn_db c \<and> (\<exists>e. res = Inl e))
    \<or> (decision_recorded tenant v (conn_db d) \<and> evidence_recorded tenant records (conn_db d))"
  using ProtectedMutation_effect [OF assms]
proof (elim disjE conjE exE)
  fix body c0 u c1
  assume "Some (RecordAuthorization tenant v) = Some body" "body c0 = (Inr u, c1)"
    and same: "t_decisions (conn_db d) = t_decisions (conn_db c1)"
    and evidence: "evidence_recorded tenant records (conn_db d)"
  then have "decision_recorded tenant v (conn_db c1)" by (auto dest: RecordAuthorization_Inr)
  with same evidence show ?thesis by (simp add: decision_recorded_def)
qed blast

section \<open>Properties\<close>

text \<open>
  C4. A decision is recorded with its evidence or not at all. After \<open>RecordAuthorization\<close>, for every pattern
  of connection failures, the database is what it was and an error is answered, or the decision of that
  invocation is stored under the ledger's own tenant with its outcome, its context digest and the digests of
  the arguments and resource given, together with an audit event of the same outcome and an undelivered
  outbox message for that event.
\<close>

theorem decision_and_evidence_are_one:
  assumes "ledger_RecordAuthorization ledger f g identity invocationID decision a r t c = (res, d)"
  shows "(conn_db d = conn_db c \<and> (\<exists>e. res = Inl e))
    \<or> (\<exists>ctx eventID outboxID. ii_TenantID identity = il_tenantID ledger
        \<and> ParseDigest (ad_ContextDigest decision) = Inr ctx
        \<and> decision_recorded (il_tenantID ledger) (decision_record invocationID decision ctx a r t) (conn_db d)
        \<and> evidence_recorded (il_tenantID ledger)
            (decision_evidence identity invocationID decision eventID outboxID t) (conn_db d))"
  using ledger_RecordAuthorization_cases [OF assms]
proof (elim disjE conjE exE)
  fix ctx eventID outboxID
  assume "ii_TenantID identity = il_tenantID ledger" "ParseDigest (ad_ContextDigest decision) = Inr ctx"
    and run: "ProtectedMutation_Execute (il_tenantID ledger)
      (decision_evidence identity invocationID decision eventID outboxID t)
      (Some (RecordAuthorization (il_tenantID ledger) (decision_record invocationID decision ctx a r t))) c = (res, d)"
  with recorded_with_evidence [OF run] show ?thesis by blast
qed simp

definition sample_ledger :: InvocationLedger where
  "sample_ledger = \<lparr>il_tenantID = ''t'', il_ownerID = ''owner'', il_lease = Second, il_maxRecoveries = 1\<rparr>"

definition recorded_decision :: AuthorizationDecision where
  "recorded_decision = call_decision\<lparr>ad_ContextDigest := Digest_String (replicate 32 0)\<rparr>"

text \<open>An instant of 1997.\<close>

definition ledger_now :: instant where
  "ledger_now = 63000000000000000000"

abbreviation ledger_conn :: "tables conn" where
  "ledger_conn \<equiv> sample_conn (sample_tables\<lparr>t_invocations := [((''t'', ''i''), sample_invocation)]\<rparr>)"

lemma json_pairs_object:
  assumes "list_all (\<lambda>(k, v). utf8_valid k \<and> utf8_valid v) ps"
  shows "jsonObject (json_pairs ps)"
proof -
  let ?v = "JObject (map (\<lambda>(k, v). (k, JString v)) ps)"
  have "json_wf ?v" using assms by (auto simp: list_all_iff)
  moreover have "Max (insert 0 ((\<lambda>(k, v). 0 :: nat) ` set ps)) = 0" by (cases ps) (auto simp: image_constant_conv split_def)
  then have "json_depth ?v \<le> max_depth" by (simp add: image_image split_def max_depth_def)
  ultimately show ?thesis by (simp add: jsonObject_def json_pairs_def Unmarshal_value_print del: json_print.simps)
qed

lemma sample_uuid:
  assumes "NewUUIDv7From ledger_now (Inr (replicate 10 b)) = Inr u"
  shows "ParseUUID (UUID_String u) = Inr u"
  using NewUUIDv7From_shape(1) [OF assms] by (simp add: ParseUUID_String)

lemma UUID_String_utf8: "utf8_valid (UUID_String u)"
proof (rule utf8_valid_ascii, rule ballI)
  fix c
  assume "c \<in> set (UUID_String u)"
  then have "is_lower_hex c \<or> c = CHR ''-''" by (auto simp: UUID_String_def dest: hex_encode_lower)
  then show "code c < 0x80" by (auto simp: is_lower_hex_def code_def Let_def)
qed

lemma sample_evidence_valid:
  assumes "NewUUIDv7From ledger_now (Inr (replicate 10 0)) = Inr e" "NewUUIDv7From ledger_now (Inr (replicate 10 1)) = Inr x"
  shows "validateProtectedMutationRecords
    (decision_evidence call_identity ''i'' recorded_decision (UUID_String e) (UUID_String x) 5) = None"
proof -
  note text_ok = utf8_valid.simps code_def
  have "jsonObject (json_pairs [(''decision_id'', ad_DecisionID recorded_decision), (''invocation_id'', ''i''),
      (''run_id'', ii_RunID call_identity)])"
    by (rule json_pairs_object) (simp add: recorded_decision_def call_decision_def sample_decision_def call_identity_def text_ok)
  moreover have "jsonObject (json_pairs [(''decision_id'', ad_DecisionID recorded_decision), (''event_id'', UUID_String e),
      (''event_type'', ''authorization.decision''), (''invocation_id'', ''i''), (''outcome'', ad_Outcome recorded_decision)])"
    using UUID_String_utf8 [of e]
    by (intro json_pairs_object) (simp add: recorded_decision_def call_decision_def sample_decision_def reason_defs text_ok)
  ultimately show ?thesis
    using sample_uuid [OF assms(1)] sample_uuid [OF assms(2)]
    by (simp add: validateProtectedMutationRecords_def decision_evidence_def Let_def validateOutbox_def DigestBytes_def
        IsZero_def trim_eval recorded_decision_def call_decision_def sample_decision_def reason_defs)
qed

lemma sample_recording:
  "\<exists>d. ledger_RecordAuthorization sample_ledger (ledger_now, Inr (replicate 10 0)) (ledger_now, Inr (replicate 10 1)) call_identity ''i''
     recorded_decision (replicate 32 0) (replicate 32 0) 5 ledger_conn = (Inr (), d)"
proof -
  obtain e where e: "NewUUIDv7From ledger_now (Inr (replicate 10 0)) = Inr e"
    by (simp add: NewUUIDv7From_def Let_def UnixMilli_def unix_epoch_seconds_def ledger_now_def)
  obtain x where x: "NewUUIDv7From ledger_now (Inr (replicate 10 1)) = Inr x"
    by (simp add: NewUUIDv7From_def Let_def UnixMilli_def unix_epoch_seconds_def ledger_now_def)
  have digest: "ParseDigest (ad_ContextDigest recorded_decision) = Inr (replicate 32 0)"
    by (simp add: recorded_decision_def)
  show ?thesis
    unfolding ledger_RecordAuthorization_def digest fst_conv snd_conv e x ProtectedMutation_Execute_def
      sum.case option.case sample_evidence_valid [OF e x]
    by (simp add: sample_ledger_def call_identity_def RecordAuthorization_def Audit_Record_def Enqueue_def pg_eval
        insert_decision_def insert_audit_def insert_outbox_def decision_ok_def audit_ok_def outbox_ok_def outbox_new_def
        decision_record_def decision_evidence_def recorded_decision_def call_decision_def sample_decision_def
        reason_defs DigestBytes_def Let_def sample_tables_def empty_tables_def)
qed

theorem decision_and_evidence_are_one_witness:
  "\<exists>ctx eventID outboxID db. decision_recorded ''t''
      (decision_record ''i'' recorded_decision ctx (replicate 32 0) (replicate 32 0) 5) db
    \<and> evidence_recorded ''t'' (decision_evidence call_identity ''i'' recorded_decision eventID outboxID 5) db"
proof -
  obtain d where run: "ledger_RecordAuthorization sample_ledger (ledger_now, Inr (replicate 10 0)) (ledger_now, Inr (replicate 10 1))
      call_identity ''i'' recorded_decision (replicate 32 0) (replicate 32 0) 5 ledger_conn = (Inr (), d)"
    using sample_recording by blast
  from decision_and_evidence_are_one [OF run] show ?thesis by (auto simp: sample_ledger_def)
qed


definition blocked_service :: "(tables conn, nat, unit) ToolCallService" where
  "blocked_service =
     \<lparr>tcs_tools = (\<lambda>_ _ _ w. (Inr sample_tool, w)),
      tcs_Acquire = (\<lambda>_ _ w. (Inr \<lparr>pa_Kind = InvocationOwned, pa_Invocation = call_invocation\<rparr>, w)),
      tcs_RecordAuthorization = (\<lambda>i x d a r t c. ledger_RecordAuthorization
         \<lparr>il_tenantID = ''t'', il_ownerID = ''owner'', il_lease = Second, il_maxRecoveries = 1\<rparr>
         (ledger_now, Inr (replicate 10 0)) (ledger_now, Inr (replicate 10 1)) i x d a r t c),
      tcs_authorizer = (\<lambda>_ w. (Inr (call_decision\<lparr>ad_ContextDigest := digestJSON ''{}''\<rparr>), w)),
      tcs_credentials = (\<lambda>_ _ _ _ w. (Inr (Some 5), w)),
      tcs_Release = (\<lambda>_ w. w), tcs_connector = (\<lambda>_ _ w. (Inl (ErrNew []), w)),
      tcs_validator = NewValidator DefaultSchemaLimits, tcs_clock = (\<lambda>w. (100, w)),
      tcs_newID = (\<lambda>w. (Inr (replicate 16 0), w)), tcs_policyProfile = ''d'', tcs_policyVersion = ''1''\<rparr>"


end
