(* ===== verification/Pg_Attempts.thy ===== *)
theory Pg_Attempts
  imports Pg_Repositories Contracts
begin

text \<open>
  Fenced execution attempts (\<open>internal/adapters/postgres/attempt_claiming.go\<close>): a claim creates the
  next attempt with a greater fence under a lease, \<open>IsCurrent\<close> is the check a worker makes before an
  external send, and \<open>Finalize\<close> records an outcome for the live owner of the latest fence only.
\<close>

section \<open>Requests\<close>

definition maxAttemptLease :: duration where
  "maxAttemptLease = 5 * Minute"

datatype AttemptClaimKind = AttemptClaimed | AttemptClaimBusy | AttemptIneligible

definition zero_Attempt :: Attempt where
  "zero_Attempt = \<lparr>att_InvocationID = [], att_AttemptNo = 0, att_Fence = 0, att_OwnerID = None,
     att_ClaimedAt = None, att_LeaseExpiresAt = None, att_DownstreamRequestRef = None,
     att_DownstreamResultRef = None, att_OutcomeClassification = None, att_RetryClassification = None,
     att_AmbiguityClassification = None, att_Evidence = [], att_StartedAt = 0, att_FinishedAt = None\<rparr>"

record AttemptClaim =
  ac_Kind :: AttemptClaimKind
  ac_Attempt :: Attempt

record AttemptClaimRequest =
  acr_InvocationID :: string
  acr_OwnerID :: string
  acr_Now :: instant
  acr_LeaseDuration :: duration
  acr_Evidence :: string

record AttemptFinalization =
  fin_InvocationID :: string
  fin_AttemptNo :: int
  fin_Fence :: int
  fin_OwnerID :: string
  fin_Now :: instant
  fin_DownstreamRequestRef :: "string option"
  fin_DownstreamResultRef :: "string option"
  fin_OutcomeClassification :: string
  fin_RetryClassification :: "string option"
  fin_AmbiguityClassification :: "string option"
  fin_Evidence :: string

definition validJSONObject :: "string \<Rightarrow> bool" where
  "validJSONObject val \<longleftrightarrow>
     val = [] \<or> (case Unmarshal_value val of Some (JObject _) \<Rightarrow> True | _ \<Rightarrow> False)"

definition validateAttemptClaimRequest :: "AttemptClaimRequest \<Rightarrow> goerror option" where
  "validateAttemptClaimRequest r =
     fail_if (acr_InvocationID r = [] \<or> acr_OwnerID r = [] \<or> IsZero (acr_Now r)
         \<or> acr_LeaseDuration r \<le> 0 \<or> acr_LeaseDuration r > maxAttemptLease
         \<or> \<not> validJSONObject (acr_Evidence r))
       (NewError CodeInvalidArgument ''attempt claim fields are invalid'' None)"

definition validateAttemptFinalization :: "AttemptFinalization \<Rightarrow> goerror option" where
  "validateAttemptFinalization f =
     first_err
       [fail_if (fin_InvocationID f = [] \<or> fin_AttemptNo f \<le> 0 \<or> fin_Fence f \<le> 0 \<or> fin_OwnerID f = []
            \<or> IsZero (fin_Now f)
            \<or> fin_OutcomeClassification f \<notin> set [''not_sent'', ''definitely_rejected'',
                 ''confirmed_success'', ''transient_safe'', ''unknown'']
            \<or> \<not> validJSONObject (fin_Evidence f))
          (NewError CodeInvalidArgument ''attempt finalization fields are invalid'' None),
        fail_if (fin_OutcomeClassification f = ''unknown'' \<and> fin_AmbiguityClassification f = None)
          (NewError CodeInvalidArgument
             ''unknown attempt outcome requires ambiguity classification'' None)]"

definition NewAttemptClaimer :: "'b option \<Rightarrow> string \<Rightarrow> string result" where
  "NewAttemptClaimer database tenantID =
     bind_result (NewTransactor database) (\<lambda>_.
       map_error (ErrWrap ''invalid attempt-claim tenant ID'')
         (bind_result (ParseUUID tenantID) (\<lambda>uid. Inr (UUID_String uid))))"

section \<open>Claim\<close>

text \<open>\<open>ORDER BY attempt_no DESC LIMIT 1\<close>.\<close>

definition latest_attempt :: "tables \<Rightarrow> string \<Rightarrow> string \<Rightarrow> Attempt option" where
  "latest_attempt db tenant i =
     (let rows = attempts_of db tenant i in
      List.find (\<lambda>a. list_all (\<lambda>b. att_AttemptNo b \<le> att_AttemptNo a) rows) rows)"

definition scanAttempt :: "string \<Rightarrow> Attempt \<Rightarrow> Attempt" where
  "scanAttempt i row = row\<lparr>att_InvocationID := i\<rparr>"

text \<open>The previous attempt still holds its lease.\<close>

definition holds_lease :: "instant \<Rightarrow> Attempt \<Rightarrow> bool" where
  "holds_lease now a \<longleftrightarrow>
     att_FinishedAt a = None \<and> (case att_LeaseExpiresAt a of None \<Rightarrow> False | Some e \<Rightarrow> e > now)"

definition evidence_or_empty :: "string \<Rightarrow> string" where
  "evidence_or_empty e = (if e = [] then ''{}'' else e)"

definition next_attempt_of :: "AttemptClaimRequest \<Rightarrow> Attempt option \<Rightarrow> Attempt" where
  "next_attempt_of r previous =
     (let (attemptNo, fence) = (case previous of
            None \<Rightarrow> (1, 1)
          | Some p \<Rightarrow> (wrap64 (att_AttemptNo p + 1), wrap64 (att_Fence p + 1))) in
      zero_Attempt\<lparr>att_InvocationID := acr_InvocationID r, att_AttemptNo := attemptNo,
        att_Fence := fence, att_OwnerID := Some (acr_OwnerID r), att_ClaimedAt := Some (acr_Now r),
        att_LeaseExpiresAt := Some (acr_Now r + acr_LeaseDuration r),
        att_Evidence := evidence_or_empty (acr_Evidence r), att_StartedAt := acr_Now r\<rparr>)"

definition claim_next ::
  "string \<Rightarrow> AttemptClaimRequest \<Rightarrow> Attempt option \<Rightarrow> (tables, AttemptClaim) action" where
  "claim_next tenant r previous =
     act_bind (insert_stmt ''claim invocation attempt'' (insert_attempt tenant (next_attempt_of r previous))
                 (\<lambda>tbl db. db\<lparr>t_attempts := tbl\<rparr>))
       (\<lambda>_. act_return (Inr \<lparr>ac_Kind = AttemptClaimed, ac_Attempt = next_attempt_of r previous\<rparr>))"

definition claim :: "string \<Rightarrow> AttemptClaimRequest \<Rightarrow> (tables, AttemptClaim) action" where
  "claim tenant r =
     act_bind (act_map_error (repositoryError ''lock invocation for attempt claim'')
        (statement (query_one (\<lambda>db.
           map_option inv_State (map_of (t_invocations db) (tenant, acr_InvocationID r))))))
     (\<lambda>state.
       if state \<noteq> ''ready'' \<and> state \<noteq> ''retry_wait''
       then act_return (Inr \<lparr>ac_Kind = AttemptIneligible, ac_Attempt = zero_Attempt\<rparr>)
       else (\<lambda>c.
         case statement (query_one (\<lambda>db. latest_attempt db tenant (acr_InvocationID r))) c of
           (Inr row, d) \<Rightarrow>
             (let previous = scanAttempt (acr_InvocationID r) row in
              if holds_lease (acr_Now r) previous
              then (Inr \<lparr>ac_Kind = AttemptClaimBusy, ac_Attempt = previous\<rparr>, d)
              else claim_next tenant r (Some previous) d)
         | (Inl err, d) \<Rightarrow>
             if \<not> errors_Is err ErrNoRows
             then (Inl (repositoryError ''read latest invocation attempt'' err), d)
             else claim_next tenant r None d))"

definition Claim :: "string \<Rightarrow> AttemptClaimRequest \<Rightarrow> (tables, AttemptClaim) action" where
  "Claim tenant r =
     (case validateAttemptClaimRequest r of
        Some err \<Rightarrow> act_return (Inl err)
      | None \<Rightarrow> WithinTransaction (claim tenant r))"

section \<open>IsCurrent and Finalize\<close>

definition newer_exists :: "tables \<Rightarrow> string \<Rightarrow> string \<Rightarrow> int \<Rightarrow> bool" where
  "newer_exists db tenant i n =
     list_ex (\<lambda>((t, j, m), _). t = tenant \<and> j = i \<and> m > n) (t_attempts db)"

text \<open>The predicate both statements share.\<close>

definition live_fence ::
  "tables \<Rightarrow> string \<Rightarrow> string \<Rightarrow> int \<Rightarrow> int \<Rightarrow> string \<Rightarrow> instant \<Rightarrow> Attempt \<Rightarrow> bool" where
  "live_fence db tenant i attemptNo fence ownerID now a \<longleftrightarrow>
     att_Fence a = fence \<and> att_OwnerID a = Some ownerID \<and> att_FinishedAt a = None
     \<and> (case att_LeaseExpiresAt a of None \<Rightarrow> False | Some e \<Rightarrow> e > timestamptz db now)
     \<and> \<not> newer_exists db tenant i attemptNo"

definition is_current ::
  "tables \<Rightarrow> string \<Rightarrow> string \<Rightarrow> int \<Rightarrow> int \<Rightarrow> string \<Rightarrow> instant \<Rightarrow> bool" where
  "is_current db tenant i attemptNo fence ownerID now \<longleftrightarrow>
     (case map_of (t_attempts db) (tenant, i, attemptNo) of
        None \<Rightarrow> False
      | Some a \<Rightarrow> live_fence db tenant i attemptNo fence ownerID now a)"

definition IsCurrent ::
  "string \<Rightarrow> string \<Rightarrow> int \<Rightarrow> int \<Rightarrow> string \<Rightarrow> instant \<Rightarrow> (tables, bool) action" where
  "IsCurrent tenant invocationID attemptNo fence ownerID now =
     (if invocationID = [] \<or> attemptNo \<le> 0 \<or> fence \<le> 0 \<or> ownerID = [] \<or> IsZero now
      then act_return (Inl (NewError CodeInvalidArgument ''attempt fence fields are invalid'' None))
      else act_map_error (repositoryError ''check invocation attempt fence'')
        (statement (\<lambda>db. (Inr (is_current db tenant invocationID attemptNo fence ownerID now), db))))"

definition finalized :: "tables \<Rightarrow> AttemptFinalization \<Rightarrow> Attempt \<Rightarrow> Attempt" where
  "finalized db f a =
     a\<lparr>att_OwnerID := None, att_ClaimedAt := None, att_LeaseExpiresAt := None,
       att_DownstreamRequestRef := fin_DownstreamRequestRef f,
       att_DownstreamResultRef := fin_DownstreamResultRef f,
       att_OutcomeClassification := Some (fin_OutcomeClassification f),
       att_RetryClassification := fin_RetryClassification f,
       att_AmbiguityClassification := fin_AmbiguityClassification f,
       att_Evidence := jsonb db (evidence_or_empty (fin_Evidence f)),
       att_FinishedAt := Some (timestamptz db (fin_Now f))\<rparr>"

definition finalize_stmt :: "string \<Rightarrow> AttemptFinalization \<Rightarrow> tables \<Rightarrow> (nat \<times> tables) result" where
  "finalize_stmt tenant f db =
     bind_result
       (update_row (tenant, fin_InvocationID f, fin_AttemptNo f)
          (live_fence db tenant (fin_InvocationID f) (fin_AttemptNo f) (fin_Fence f) (fin_OwnerID f) (fin_Now f))
          (finalized db f) attempt_ok (t_attempts db))
       (\<lambda>(n, tbl). Inr (n, db\<lparr>t_attempts := tbl\<rparr>))"

definition Finalize :: "string \<Rightarrow> AttemptFinalization \<Rightarrow> (tables, unit) action" where
  "Finalize tenant f =
     (case validateAttemptFinalization f of
        Some err \<Rightarrow> act_return (Inl err)
      | None \<Rightarrow> exec_one ''finalize invocation attempt'' ''invocation attempt fence is no longer current''
          (finalize_stmt tenant f))"

section \<open>Steps of the attempts table\<close>

text \<open>
  What any client of the adapter can do to the table: nothing, add the next attempt (a claim or
  \<open>AttemptRepository.Create\<close>), or finalize.
\<close>

inductive attempt_step :: "tables \<Rightarrow> tables \<Rightarrow> bool" where
  elsewhere: "t_attempts db' = t_attempts db \<Longrightarrow> attempt_step db db'"
| claimed: "insert_attempt tenant v db = Inr (t_attempts db') \<Longrightarrow> attempt_step db db'"
| finalizes: "finalize_stmt tenant f db = Inr (n, db') \<Longrightarrow> attempt_step db db'"

inductive_cases attempt_stepE: "attempt_step db db'"

lemma insert_stmt_effect:
  assumes "insert_stmt operation ins upd c = (r, d)" "P (conn_db c)"
    and "\<And>tbl. ins (conn_db c) = Inr tbl \<Longrightarrow> P (upd tbl (conn_db c))"
  shows "P (conn_db d)"
proof -
  have done_or_not: "P t"
    if "map_sum id (\<lambda>tbl. (1, upd tbl (conn_db c))) (ins (conn_db c)) = Inr (n, t)" for n t
    using that assms(3) by (cases "ins (conn_db c)") auto
  from assms(1) [unfolded insert_stmt_def] show ?thesis
    by (rule unit_of_effect [rotated], elim act_map_error_effect [rotated] exec_effect)
      (rule assms(2), rule done_or_not)
qed

lemma claim_next_effect:
  assumes "claim_next tenant r previous c = (res, d)"
  shows "attempt_step (conn_db c) (conn_db d)"
proof -
  obtain x e where ins: "insert_stmt ''claim invocation attempt''
      (insert_attempt tenant (next_attempt_of r previous)) (\<lambda>tbl db. db\<lparr>t_attempts := tbl\<rparr>) c = (x, e)"
    by fastforce
  with assms have "conn_db d = conn_db e"
    by (auto simp: claim_next_def act_bind_def act_return_def split: sum.splits)
  moreover have "attempt_step (conn_db c) (conn_db e)"
    by (rule insert_stmt_effect [OF ins]) (auto intro: elsewhere claimed)
  ultimately show ?thesis by simp
qed

lemma query_one_effect:
  "statement (query_one q) c = (r, d) \<Longrightarrow> conn_db d = conn_db c"
  using statement_effect [of "query_one q" c r d] by auto

lemma query_one_found: "statement (query_one q) c = (Inr a, d) \<Longrightarrow> q (conn_db c) = Some a"
  by (auto dest: statement_Inr)

lemma query_one_missing:
  "statement (query_one q) c = (Inl e, d) \<Longrightarrow> errors_Is e ErrNoRows \<Longrightarrow> q (conn_db c) = None"
  by (auto dest: statement_NoRows)

lemma claim_effect:
  assumes "claim tenant r c = (res, d)"
  shows "attempt_step (conn_db c) (conn_db d)"
proof -
  obtain x e where lock: "statement (query_one (\<lambda>db.
      map_option inv_State (map_of (t_invocations db) (tenant, acr_InvocationID r)))) c = (x, e)" by fastforce
  obtain y g where latest:
    "statement (query_one (\<lambda>db. latest_attempt db tenant (acr_InvocationID r))) e = (y, g)" by fastforce
  note same = query_one_effect [OF lock] query_one_effect [OF latest]
  have next_step: "attempt_step (conn_db c) (conn_db d)" if "claim_next tenant r p g = (res, d)" for p
    using claim_next_effect [OF that] same by simp
  have "conn_db d = conn_db c \<or> (\<exists>p. claim_next tenant r p g = (res, d))"
    using assms lock latest same
    by (auto simp: claim_def act_bind_def act_map_error_def act_return_def Let_def
        split: sum.splits if_splits)
  with next_step show ?thesis by (auto intro: elsewhere)
qed

lemma Claim_step:
  assumes "Claim tenant r c = (res, d)"
  shows "attempt_step (conn_db c) (conn_db d)"
proof (cases "validateAttemptClaimRequest r")
  case None
  with assms have "WithinTransaction (claim tenant r) c = (res, d)" by (simp add: Claim_def)
  then show ?thesis
    by (cases rule: WithinTransaction_effect) (auto intro: elsewhere dest!: claim_effect)
next
  case (Some e)
  with assms show ?thesis by (auto simp: Claim_def act_return_def intro: elsewhere)
qed

lemma Finalize_step:
  assumes "Finalize tenant f c = (res, d)"
  shows "attempt_step (conn_db c) (conn_db d)"
  using assms
  by (auto simp: Finalize_def act_return_def split: option.splits
      intro: elsewhere finalizes elim!: exec_one_effect)

lemma Attempt_Create_step:
  assumes "Attempt_Create tenant v c = (res, d)"
  shows "attempt_step (conn_db c) (conn_db d)"
  using assms unfolding Attempt_Create_def
  by (rule insert_stmt_effect) (auto intro: elsewhere claimed)

section \<open>What a step keeps\<close>

lemma finalize_Inr:
  assumes "finalize_stmt tenant f db = Inr (n, db')"
  obtains "db' = db" "n = 0"
  | a where "map_of (t_attempts db) (tenant, fin_InvocationID f, fin_AttemptNo f) = Some a" "n = 1"
      "live_fence db tenant (fin_InvocationID f) (fin_AttemptNo f) (fin_Fence f) (fin_OwnerID f) (fin_Now f) a"
      "attempt_ok (finalized db f a)"
      "db' = db\<lparr>t_attempts := AList.update (tenant, fin_InvocationID f, fin_AttemptNo f)
         (finalized db f a) (t_attempts db)\<rparr>"
proof (cases "map_of (t_attempts db) (tenant, fin_InvocationID f, fin_AttemptNo f)")
  case None
  with assms show thesis by (intro that(1)) (auto simp: finalize_stmt_def update_row_def)
next
  case (Some a)
  show thesis
  proof (cases "live_fence db tenant (fin_InvocationID f) (fin_AttemptNo f) (fin_Fence f)
      (fin_OwnerID f) (fin_Now f) a")
    case True
    from assms Some True show thesis
      by (intro that(2) [OF Some]) (auto simp: finalize_stmt_def update_row_def split: if_splits)
  next
    case False
    with assms Some show thesis by (intro that(1)) (auto simp: finalize_stmt_def update_row_def)
  qed
qed

lemma insert_attempt_Inr:
  assumes "insert_attempt tenant v db = Inr tbl"
  shows "tbl = t_attempts db @ [((tenant, att_InvocationID v, att_AttemptNo v), store_attempt db v)]"
    "map_of (t_attempts db) (tenant, att_InvocationID v, att_AttemptNo v) = None"
    "att_AttemptNo v = foldr max (map att_AttemptNo (attempts_of db tenant (att_InvocationID v))) 0 + 1"
    "foldr max (map att_Fence (attempts_of db tenant (att_InvocationID v))) 0 < att_Fence v"
    "attempt_ok (store_attempt db v)"
  using assms by (auto simp: insert_attempt_def Let_def insert_row_Inr check_def)

text \<open>Attempts are never removed.\<close>

lemma step_keeps_keys:
  assumes "attempt_step db db'" "map_of (t_attempts db) key \<noteq> None"
  shows "map_of (t_attempts db') key \<noteq> None"
  using assms(1)
proof (cases rule: attempt_step.cases)
  case (claimed tenant v)
  from assms(2) show ?thesis
    by (simp add: insert_attempt_Inr(1) [OF claimed] map_of_append map_add_def split: option.splits)
next
  case (finalizes tenant f n)
  then show ?thesis
    by (cases rule: finalize_Inr) (use assms(2) in \<open>simp_all add: AList.update_conv'\<close>)
qed (use assms(2) in simp)

lemma newer_exists_iff:
  "newer_exists db tenant i n \<longleftrightarrow> (\<exists>m > n. map_of (t_attempts db) (tenant, i, m) \<noteq> None)"
proof -
  have "newer_exists db tenant i n \<longleftrightarrow> (\<exists>m > n. (tenant, i, m) \<in> fst ` set (t_attempts db))"
    by (force simp: newer_exists_def list_ex_iff image_iff)
  then show ?thesis by (simp add: map_of_eq_None_iff)
qed

lemma step_keeps_newer:
  "attempt_step db db' \<Longrightarrow> newer_exists db tenant i n \<Longrightarrow> newer_exists db' tenant i n"
  unfolding newer_exists_iff using step_keeps_keys by blast

lemma steps_keep_newer:
  "attempt_step\<^sup>*\<^sup>* db db' \<Longrightarrow> newer_exists db tenant i n \<Longrightarrow> newer_exists db' tenant i n"
  by (induction rule: rtranclp_induct) (auto intro: step_keeps_newer)

text \<open>A finished attempt keeps its row.\<close>

definition finished_as :: "string \<times> string \<times> int \<Rightarrow> Attempt \<Rightarrow> tables \<Rightarrow> bool" where
  "finished_as key a db \<longleftrightarrow> map_of (t_attempts db) key = Some a \<and> att_FinishedAt a \<noteq> None"

lemma step_keeps_finished:
  assumes "attempt_step db db'" "finished_as key a db"
  shows "finished_as key a db'"
  using assms(1)
proof (cases rule: attempt_step.cases)
  case (claimed tenant v)
  from assms(2) insert_attempt_Inr(2) [OF claimed] show ?thesis
    by (auto simp: finished_as_def insert_attempt_Inr(1) [OF claimed] map_of_append map_add_def
        split: option.splits)
next
  case (finalizes tenant f n)
  then show ?thesis
    by (cases rule: finalize_Inr)
      (use assms(2) in \<open>auto simp: finished_as_def live_fence_def AList.update_conv'\<close>)
qed (use assms(2) in \<open>simp add: finished_as_def\<close>)

interpretation attempts: settled_store attempt_step finished_as
  by unfold_locales (rule step_keeps_finished, assumption+, simp add: finished_as_def)

section \<open>What a successful claim did\<close>

lemma latest_attempt_max:
  assumes "latest_attempt db tenant i = Some p" "b \<in> set (attempts_of db tenant i)"
  shows "att_AttemptNo b \<le> att_AttemptNo p"
  using assms by (auto simp: latest_attempt_def Let_def find_Some_iff list_all_iff)

lemma claim_Inr:
  assumes "claim tenant r c = (Inr ac, d)" "ac_Kind ac = AttemptClaimed"
  obtains previous where
    "ac_Attempt ac = next_attempt_of r previous"
    "insert_attempt tenant (next_attempt_of r previous) (conn_db c) = Inr (t_attempts (conn_db d))"
    "conn_db d = (conn_db c)\<lparr>t_attempts := t_attempts (conn_db d)\<rparr>"
    "\<And>p. latest_attempt (conn_db c) tenant (acr_InvocationID r) = Some p \<Longrightarrow> \<not> holds_lease (acr_Now r) p"
    "\<exists>v. map_of (t_invocations (conn_db c)) (tenant, acr_InvocationID r) = Some v
        \<and> (inv_State v = ''ready'' \<or> inv_State v = ''retry_wait'')"
proof -
  obtain x e where lock: "statement (query_one (\<lambda>db.
      map_option inv_State (map_of (t_invocations db) (tenant, acr_InvocationID r)))) c = (x, e)" by fastforce
  obtain y g where latest:
    "statement (query_one (\<lambda>db. latest_attempt db tenant (acr_InvocationID r))) e = (y, g)" by fastforce
  note same = query_one_effect [OF lock] query_one_effect [OF latest]
  from assms lock latest obtain state previous where state: "x = Inr state"
      "state = ''ready'' \<or> state = ''retry_wait''"
    and run: "claim_next tenant r previous g = (Inr ac, d)"
    and prev: "(\<exists>row. y = Inr row \<and> \<not> holds_lease (acr_Now r) (scanAttempt (acr_InvocationID r) row))
      \<or> (\<exists>err. y = Inl err \<and> errors_Is err ErrNoRows)"
    by (auto simp: claim_def act_bind_def act_map_error_def act_return_def Let_def
        split: sum.splits if_splits)
  from run obtain u h where ins: "insert_stmt ''claim invocation attempt''
      (insert_attempt tenant (next_attempt_of r previous)) (\<lambda>tbl db. db\<lparr>t_attempts := tbl\<rparr>) g = (Inr u, d)"
    and ac: "ac = \<lparr>ac_Kind = AttemptClaimed, ac_Attempt = next_attempt_of r previous\<rparr>"
    by (auto simp: claim_next_def act_bind_Inr act_return_def)
  from insert_stmt_Inr [OF ins] obtain tbl where
    "insert_attempt tenant (next_attempt_of r previous) (conn_db g) = Inr tbl"
    "conn_db d = (conn_db g)\<lparr>t_attempts := tbl\<rparr>" .
  moreover have "\<not> holds_lease (acr_Now r) p"
    if "latest_attempt (conn_db c) tenant (acr_InvocationID r) = Some p" for p
    using prev that latest same
    by (auto simp: holds_lease_def scanAttempt_def dest!: query_one_found query_one_missing)
  moreover from lock state have "\<exists>v. map_of (t_invocations (conn_db c)) (tenant, acr_InvocationID r) = Some v
        \<and> (inv_State v = ''ready'' \<or> inv_State v = ''retry_wait'')"
    by (auto dest!: query_one_found)
  ultimately show thesis using ac same by (intro that [of previous]) simp_all
qed

lemma Claim_Inr:
  assumes "Claim tenant r c = (Inr ac, d)"
  obtains c' d' where "conn_db c' = conn_db c" "claim tenant r c' = (Inr ac, d')" "conn_db d = conn_db d'"
    "validateAttemptClaimRequest r = None"
proof (cases "validateAttemptClaimRequest r")
  case None
  with assms have "WithinTransaction (claim tenant r) c = (Inr ac, d)" by (simp add: Claim_def)
  then show thesis by (cases rule: WithinTransaction_Inr) (use None that in blast)
next
  case (Some e)
  with assms show thesis by (simp add: Claim_def act_return_def)
qed

lemma Finalize_Inr:
  assumes "Finalize tenant f c = (Inr u, d)"
  shows "finalize_stmt tenant f (conn_db c) = Inr (1, conn_db d)"
  using assms
  by (auto simp: Finalize_def act_return_def split: option.splits dest: exec_one_Inr)

text \<open>Rows carry the invocation and number of their key.\<close>

definition att_wf :: "tables \<Rightarrow> bool" where
  "att_wf db \<longleftrightarrow> (\<forall>t i n a. map_of (t_attempts db) (t, i, n) = Some a \<longrightarrow> att_AttemptNo a = n)
     \<and> distinct (map fst (t_attempts db))"

lemma step_keeps_wf:
  assumes "attempt_step db db'" "att_wf db"
  shows "att_wf db'"
  using assms(1)
proof (cases rule: attempt_step.cases)
  case (claimed tenant v)
  from insert_attempt_Inr(2) [OF claimed] assms(2) show ?thesis
    by (auto simp: att_wf_def insert_attempt_Inr(1) [OF claimed] map_of_append map_add_def
        store_attempt_def map_of_eq_None_iff split: option.splits if_splits)
next
  case (finalizes tenant f n)
  then show ?thesis
  proof (cases rule: finalize_Inr)
    case (2 a)
    with assms(2) show ?thesis
      by (auto simp: att_wf_def AList.update_conv' finalized_def AList.distinct_update)
  qed (use assms(2) in simp)
qed (use assms(2) in \<open>simp add: att_wf_def\<close>)

lemma steps_keep_wf: "attempt_step\<^sup>*\<^sup>* db db' \<Longrightarrow> att_wf db \<Longrightarrow> att_wf db'"
  by (induction rule: rtranclp_induct) (auto intro: step_keeps_wf)

lemma attempts_of_row:
  assumes "map_of (t_attempts db) (tenant, i, n) = Some a"
  shows "a \<in> set (attempts_of db tenant i)"
  using map_of_SomeD [OF assms] by (force simp: attempts_of_def)

lemma foldr_max_le: "x \<in> set xs \<Longrightarrow> x \<le> foldr max xs (y :: int)"
  by (induction xs) auto

section \<open>Properties\<close>

text \<open>
  C5. A newer claim fences off every older attempt for ever. Once a claim has been granted, no
  finalization of an attempt of that invocation with a smaller number succeeds or has any effect, and
  no check of such an attempt answers that it is current, whatever happens to the tables in between and
  whatever instants and owners the late worker presents.
\<close>

theorem newer_claim_fences_older:
  assumes "Claim tenant r c = (Inr ac, d)" and "ac_Kind ac = AttemptClaimed"
    and "attempt_step\<^sup>*\<^sup>* (conn_db d) (conn_db e)"
    and "fin_InvocationID f = acr_InvocationID r" and "fin_AttemptNo f < att_AttemptNo (ac_Attempt ac)"
  shows "(\<exists>err. fst (Finalize tenant f e) = Inl err) \<and> conn_db (snd (Finalize tenant f e)) = conn_db e
    \<and> fst (IsCurrent tenant (acr_InvocationID r) (fin_AttemptNo f) fence owner now e) \<noteq> Inr True"
proof -
  from assms(1) obtain c' d' where run: "conn_db c' = conn_db c" "claim tenant r c' = (Inr ac, d')"
    "conn_db d = conn_db d'" by (rule Claim_Inr)
  from run(2) assms(2) obtain previous where ac: "ac_Attempt ac = next_attempt_of r previous"
    and ins: "insert_attempt tenant (next_attempt_of r previous) (conn_db c') = Inr (t_attempts (conn_db d'))"
    by (rule claim_Inr)
  have "att_InvocationID (next_attempt_of r previous) = acr_InvocationID r"
    by (simp add: next_attempt_of_def split: option.splits)
  then have "map_of (t_attempts (conn_db d)) (tenant, acr_InvocationID r, att_AttemptNo (ac_Attempt ac)) \<noteq> None"
    using insert_attempt_Inr(1) [OF ins] run(3) ac by (simp add: map_add_Some_iff)
  with assms(5) have "newer_exists (conn_db d) tenant (acr_InvocationID r) (fin_AttemptNo f)"
    unfolding newer_exists_iff by blast
  from steps_keep_newer [OF assms(3) this]
  have newer: "newer_exists (conn_db e) tenant (acr_InvocationID r) (fin_AttemptNo f)" .
  then have dead: "\<not> live_fence (conn_db e) tenant (acr_InvocationID r) (fin_AttemptNo f) x y z a" for x y z a
    by (simp add: live_fence_def)
  have stmt: "finalize_stmt tenant f (conn_db e) = Inr (0, conn_db e)"
    using dead assms(4) by (auto simp: finalize_stmt_def update_row_def split: option.splits)
  obtain res g where fin: "Finalize tenant f e = (res, g)" by fastforce
  have "conn_db g = conn_db e"
    using fin stmt by (auto simp: Finalize_def act_return_def split: option.splits elim!: exec_one_effect)
  moreover have "\<exists>err. res = Inl err"
    using Finalize_Inr [of tenant f e] fin stmt by (cases res) auto
  moreover have "fst (IsCurrent tenant (acr_InvocationID r) (fin_AttemptNo f) fence owner now e) \<noteq> Inr True"
  proof
    assume "fst (IsCurrent tenant (acr_InvocationID r) (fin_AttemptNo f) fence owner now e) = Inr True"
    then obtain h where "IsCurrent tenant (acr_InvocationID r) (fin_AttemptNo f) fence owner now e = (Inr True, h)"
      by (metis prod.collapse)
    then have "is_current (conn_db e) tenant (acr_InvocationID r) (fin_AttemptNo f) fence owner now"
      by (auto simp: IsCurrent_def act_return_def act_map_error_Inr split: if_splits dest!: statement_Inr)
    with dead show False by (simp add: is_current_def split: option.splits)
  qed
  ultimately show ?thesis using fin by simp
qed

text \<open>
  C26. A granted claim is the new latest attempt. On every table reached by claims and finalizations,
  the invocation was ready or waiting to retry, no earlier attempt is numbered or fenced as high, the
  latest one held no lease, and the new attempt is current for its owner until its lease expires.
\<close>

theorem granted_claim_is_latest_and_current:
  assumes "t_attempts db0 = []" and "attempt_step\<^sup>*\<^sup>* db0 (conn_db c)"
    and "Claim tenant r c = (Inr ac, d)" and "ac_Kind ac = AttemptClaimed"
    and "timestamptz (conn_db c) now < timestamptz (conn_db c) (acr_Now r + acr_LeaseDuration r)"
  shows "(\<forall>b \<in> set (attempts_of (conn_db c) tenant (acr_InvocationID r)).
        att_AttemptNo b < att_AttemptNo (ac_Attempt ac) \<and> att_Fence b < att_Fence (ac_Attempt ac))
    \<and> (\<forall>p. latest_attempt (conn_db c) tenant (acr_InvocationID r) = Some p \<longrightarrow> \<not> holds_lease (acr_Now r) p)
    \<and> (\<exists>v. map_of (t_invocations (conn_db c)) (tenant, acr_InvocationID r) = Some v
         \<and> (inv_State v = ''ready'' \<or> inv_State v = ''retry_wait''))
    \<and> is_current (conn_db d) tenant (acr_InvocationID r) (att_AttemptNo (ac_Attempt ac))
        (att_Fence (ac_Attempt ac)) (acr_OwnerID r) now"
proof -
  let ?i = "acr_InvocationID r" and ?a = "ac_Attempt ac"
  from assms(3) obtain c' d' where run: "conn_db c' = conn_db c" "claim tenant r c' = (Inr ac, d')"
    "conn_db d = conn_db d'" by (rule Claim_Inr)
  from run(2) assms(4) obtain previous where ac: "?a = next_attempt_of r previous"
    and ins: "insert_attempt tenant ?a (conn_db c) = Inr (t_attempts (conn_db d))"
    and db: "conn_db d = (conn_db c)\<lparr>t_attempts := t_attempts (conn_db d)\<rparr>"
    and rest: "\<And>p. latest_attempt (conn_db c) tenant ?i = Some p \<Longrightarrow> \<not> holds_lease (acr_Now r) p"
      "\<exists>v. map_of (t_invocations (conn_db c)) (tenant, ?i) = Some v
        \<and> (inv_State v = ''ready'' \<or> inv_State v = ''retry_wait'')"
    by (cases rule: claim_Inr) (use run(1, 3) in auto)
  have shape: "att_InvocationID ?a = ?i" "att_OwnerID ?a = Some (acr_OwnerID r)" "att_FinishedAt ?a = None"
    "att_LeaseExpiresAt ?a = Some (acr_Now r + acr_LeaseDuration r)"
    by (simp_all add: ac next_attempt_of_def zero_Attempt_def split: option.splits)
  note new = insert_attempt_Inr [OF ins, unfolded shape(1)]
  have above: "att_AttemptNo b < att_AttemptNo ?a \<and> att_Fence b < att_Fence ?a"
    if "b \<in> set (attempts_of (conn_db c) tenant ?i)" for b
    using foldr_max_le [of "att_AttemptNo b" "map att_AttemptNo (attempts_of (conn_db c) tenant ?i)" 0]
      foldr_max_le [of "att_Fence b" "map att_Fence (attempts_of (conn_db c) tenant ?i)" 0] that new(3, 4)
    by simp
  from assms(1) have "att_wf db0" by (simp add: att_wf_def)
  from steps_keep_wf [OF assms(2) this] have wf: "att_wf (conn_db c)" .
  have row: "map_of (t_attempts (conn_db d)) (tenant, ?i, att_AttemptNo ?a) = Some (store_attempt (conn_db c) ?a)"
    using new(1, 2) by (simp add: map_add_Some_iff)
  have no_newer: "\<not> newer_exists (conn_db d) tenant ?i (att_AttemptNo ?a)"
  proof
    assume "newer_exists (conn_db d) tenant ?i (att_AttemptNo ?a)"
    then obtain m b where m: "m > att_AttemptNo ?a" "map_of (t_attempts (conn_db c)) (tenant, ?i, m) = Some b"
      unfolding newer_exists_iff using new(1) by (auto split: if_splits)
    with wf above [OF attempts_of_row [OF m(2)]] show False by (auto simp: att_wf_def)
  qed
  have server: "t_server (conn_db d) = t_server (conn_db c)" by (subst db) simp
  have "is_current (conn_db d) tenant ?i (att_AttemptNo ?a) (att_Fence ?a) (acr_OwnerID r) now"
    using row no_newer shape assms(5) server
    by (simp add: is_current_def live_fence_def store_attempt_def)
  with above rest show ?thesis by blast
qed

text \<open>
  C27. An outcome is recorded at most once. After a successful finalization the row keeps exactly the
  recorded outcome for ever, and no other finalization of that attempt succeeds.
\<close>

theorem outcome_is_final:
  assumes "Finalize tenant f c = (Inr (), d)" and "attempt_step\<^sup>*\<^sup>* (conn_db d) (conn_db e)"
  shows "\<exists>a. map_of (t_attempts (conn_db e)) (tenant, fin_InvocationID f, fin_AttemptNo f) = Some a
      \<and> att_OutcomeClassification a = Some (fin_OutcomeClassification f)
      \<and> att_FinishedAt a = Some (timestamptz (conn_db c) (fin_Now f))
      \<and> (\<forall>g. fin_InvocationID g = fin_InvocationID f \<longrightarrow> fin_AttemptNo g = fin_AttemptNo f \<longrightarrow>
           (\<exists>err. fst (Finalize tenant g e) = Inl err))"
proof -
  let ?key = "(tenant, fin_InvocationID f, fin_AttemptNo f)"
  obtain a where "finished_as ?key (finalized (conn_db c) f a) (conn_db d)"
    using Finalize_Inr [OF assms(1)]
  proof (cases rule: finalize_Inr)
    case 1
    from 1(2) show thesis by simp
  next
    case (2 a)
    then show thesis
      by (intro that [of a]) (simp add: finished_as_def finalized_def AList.update_conv')
  qed
  from attempts.forever [OF assms(2) this]
  have row: "map_of (t_attempts (conn_db e)) ?key = Some (finalized (conn_db c) f a)"
    by (simp add: finished_as_def)
  have "\<exists>err. fst (Finalize tenant g e) = Inl err"
    if "fin_InvocationID g = fin_InvocationID f" "fin_AttemptNo g = fin_AttemptNo f" for g
  proof (cases "fst (Finalize tenant g e)")
    case (Inr u)
    then have "Finalize tenant g e = (Inr u, snd (Finalize tenant g e))" by (metis prod.collapse)
    from Finalize_Inr [OF this] show ?thesis
    proof (cases rule: finalize_Inr)
      case 1
      from 1(2) show ?thesis by simp
    next
      case (2 b)
      from row that 2(1) have "b = finalized (conn_db c) f a" by simp
      with 2(3) show ?thesis by (simp add: live_fence_def finalized_def)
    qed
  qed simp
  with row show ?thesis by (auto simp: finalized_def)
qed

text \<open>
  At most one worker is current: if two checks of one invocation could both answer yes, at whatever
  instants, they are about the same attempt, fence and owner.
\<close>

theorem at_most_one_current_worker:
  assumes "is_current db tenant i n f w now" and "is_current db tenant i m g v later"
  shows "n = m \<and> f = g \<and> w = v"
proof -
  from assms obtain a b where rows: "map_of (t_attempts db) (tenant, i, n) = Some a"
    "map_of (t_attempts db) (tenant, i, m) = Some b"
    and live: "live_fence db tenant i n f w now a" "live_fence db tenant i m g v later b"
    by (auto simp: is_current_def split: option.splits)
  from live have "\<not> newer_exists db tenant i n" "\<not> newer_exists db tenant i m"
    by (simp_all add: live_fence_def)
  with rows have "\<not> m > n" "\<not> n > m" unfolding newer_exists_iff by auto
  then have "n = m" by simp
  with rows live show ?thesis by (auto simp: live_fence_def)
qed

section \<open>A concrete history\<close>

definition ready_invocation :: Invocation where
  "ready_invocation = \<lparr>inv_ID = ''i'', inv_RunID = ''run'', inv_ToolCallID = ''call'', inv_ToolID = ''a.b'',
     inv_ToolVersion = ''1.0.0'', inv_ArgumentProfile = ''p'', inv_ArgumentDigest = replicate 32 0,
     inv_ResourceDigest = replicate 32 0, inv_ResourceProjection = ''{}'', inv_RetryClass = ''safe'',
     inv_State = ''ready'', inv_StateVersion = 6, inv_TerminalCode = None, inv_TerminalAt = None,
     inv_CreatedAt = 7, inv_UpdatedAt = 7\<rparr>"

definition attempt_at :: "int \<Rightarrow> string \<Rightarrow> instant \<Rightarrow> Attempt" where
  "attempt_at n owner now = zero_Attempt\<lparr>att_InvocationID := ''i'', att_AttemptNo := n, att_Fence := n,
     att_OwnerID := Some owner, att_ClaimedAt := Some now, att_LeaseExpiresAt := Some (now + 60),
     att_Evidence := ''{}'', att_StartedAt := now\<rparr>"

definition attempts_tables :: "((string \<times> string \<times> int) \<times> Attempt) list \<Rightarrow> tables" where
  "attempts_tables rows = sample_tables\<lparr>t_invocations := [((''t'', ''i''), ready_invocation)],
     t_attempts := rows\<rparr>"

definition attempt_request :: "string \<Rightarrow> instant \<Rightarrow> AttemptClaimRequest" where
  "attempt_request owner now = \<lparr>acr_InvocationID = ''i'', acr_OwnerID = owner, acr_Now = now,
     acr_LeaseDuration = 60, acr_Evidence = []\<rparr>"

abbreviation attempts_conn :: "((string \<times> string \<times> int) \<times> Attempt) list \<Rightarrow> tables conn" where
  "attempts_conn rows \<equiv> \<lparr>conn_db = attempts_tables rows, conn_outcomes = []\<rparr>"

lemmas attempt_eval =
  Claim_def claim_def claim_next_def validateAttemptClaimRequest_def validJSONObject_def IsZero_def
  maxAttemptLease_def duration_defs attempts_tables_def ready_invocation_def attempt_request_def
  latest_attempt_def attempts_of_def scanAttempt_def holds_lease_def next_attempt_of_def attempt_at_def
  zero_Attempt_def evidence_or_empty_def insert_attempt_def store_attempt_def attempt_ok_def
  sample_tables_def empty_tables_def pg_eval wrap64_def Let_def

lemma first_claim:
  "Claim ''t'' (attempt_request ''w'' 10) (attempts_conn []) =
     (Inr \<lparr>ac_Kind = AttemptClaimed, ac_Attempt = attempt_at 1 ''w'' 10\<rparr>,
      attempts_conn [((''t'', ''i'', 1), attempt_at 1 ''w'' 10)])"
  by (simp add: attempt_eval)

lemma second_claim:
  "Claim ''t'' (attempt_request ''v'' 90) (attempts_conn [((''t'', ''i'', 1), attempt_at 1 ''w'' 10)]) =
     (Inr \<lparr>ac_Kind = AttemptClaimed, ac_Attempt = attempt_at 2 ''v'' 90\<rparr>,
      attempts_conn [((''t'', ''i'', 1), attempt_at 1 ''w'' 10), ((''t'', ''i'', 2), attempt_at 2 ''v'' 90)])"
  by (simp add: attempt_eval)

definition sample_finalization :: AttemptFinalization where
  "sample_finalization = \<lparr>fin_InvocationID = ''i'', fin_AttemptNo = 1, fin_Fence = 1, fin_OwnerID = ''w'',
     fin_Now = 20, fin_DownstreamRequestRef = None, fin_DownstreamResultRef = None,
     fin_OutcomeClassification = ''confirmed_success'', fin_RetryClassification = None,
     fin_AmbiguityClassification = None, fin_Evidence = []\<rparr>"

theorem newer_claim_fences_older_witness:
  "\<exists>err. fst (Finalize ''t'' sample_finalization
     (attempts_conn [((''t'', ''i'', 1), attempt_at 1 ''w'' 10), ((''t'', ''i'', 2), attempt_at 2 ''v'' 90)]))
   = Inl err"
  using newer_claim_fences_older [OF second_claim, of _ sample_finalization]
  by (simp add: sample_finalization_def attempt_request_def attempt_at_def)

theorem granted_claim_is_latest_and_current_witness:
  "is_current (attempts_tables [((''t'', ''i'', 1), attempt_at 1 ''w'' 10)]) ''t'' ''i'' 1 1 ''w'' 69"
  using granted_claim_is_latest_and_current [OF _ _ first_claim, of "attempts_tables []" 69]
  by (simp add: attempts_tables_def attempt_request_def attempt_at_def zero_Attempt_def
      sample_tables_def empty_tables_def)

lemma sample_finalize:
  "Finalize ''t'' sample_finalization (attempts_conn [((''t'', ''i'', 1), attempt_at 1 ''w'' 10)]) =
     (Inr (), attempts_conn [((''t'', ''i'', 1), finalized (attempts_tables [])
        sample_finalization (attempt_at 1 ''w'' 10))])"
  by (simp add: Finalize_def validateAttemptFinalization_def validJSONObject_def IsZero_def
      sample_finalization_def finalize_stmt_def live_fence_def newer_exists_def finalized_def attempt_eval)

theorem outcome_is_final_witness:
  "\<exists>a. map_of (t_attempts (attempts_tables [((''t'', ''i'', 1), finalized (attempts_tables [])
        sample_finalization (attempt_at 1 ''w'' 10))])) (''t'', ''i'', 1) = Some a
      \<and> att_OutcomeClassification a = Some ''confirmed_success''"
  using outcome_is_final [OF sample_finalize rtranclp.rtrancl_refl]
  by (auto simp: sample_finalization_def)

theorem at_most_one_current_worker_witness:
  "(1 :: int) = 1 \<and> (1 :: int) = 1 \<and> ''w'' = ''w''"
proof (rule at_most_one_current_worker)
  show "is_current (attempts_tables [((''t'', ''i'', 1), attempt_at 1 ''w'' 10)]) ''t'' ''i'' 1 1 ''w'' 69"
    "is_current (attempts_tables [((''t'', ''i'', 1), attempt_at 1 ''w'' 10)]) ''t'' ''i'' 1 1 ''w'' 20"
    by (simp_all add: is_current_def live_fence_def newer_exists_def attempts_tables_def attempt_at_def
        zero_Attempt_def sample_tables_def empty_tables_def)
qed

end
