(* ===== verification/Pg_Outbox.thy ===== *)
theory Pg_Outbox
  imports Pg_Repositories Contracts
begin

text \<open>
  The outbox publisher (\<open>internal/adapters/postgres/outbox_publisher.go\<close>): claim the oldest available
  message under a lease, hand it to a sink, and record publication, a retry with backoff, or a dead
  letter, each only while the lease is still the claimed one. The sink is a parameter with its own
  state; clock readings and the random number are arguments. A claim is one atomic step, so the rows
  that \<open>SKIP LOCKED\<close> passes over are those another claim has already taken. Metrics are not modelled.
\<close>

section \<open>Publications and errors\<close>

record Publication =
  pub_TenantID :: string
  pub_OutboxID :: string
  pub_EventID :: string
  pub_Topic :: string
  pub_EventType :: string
  pub_SafePayload :: string
  pub_PayloadDigest :: bytes
  pub_CreatedAt :: instant

type_synonym PublicationErrorClass = string

definition PublicationTransient :: PublicationErrorClass where "PublicationTransient = ''transient''"
definition PublicationPermanent :: PublicationErrorClass where "PublicationPermanent = ''permanent''"
definition PublicationPoison :: PublicationErrorClass where "PublicationPoison = ''poison''"
definition PublicationUnknown :: PublicationErrorClass where "PublicationUnknown = ''unknown''"

lemmas publication_classes =
  PublicationTransient_def PublicationPermanent_def PublicationPoison_def PublicationUnknown_def

definition PublicationError :: "PublicationErrorClass \<Rightarrow> goerror \<Rightarrow> goerror" where
  "PublicationError class err =
     ErrTyped ''*PublicationError'' class (''outbox publication '' @ class @ '': '' @ Error err) (Some err)"

definition classifyPublicationError :: "goerror \<Rightarrow> PublicationErrorClass" where
  "classifyPublicationError err =
     (case errors_As_typed ''*PublicationError'' err of
        None \<Rightarrow> PublicationUnknown
      | Some class \<Rightarrow>
          if class \<in> set [PublicationTransient, PublicationPermanent, PublicationPoison, PublicationUnknown]
          then class else PublicationUnknown)"

record OutboxPublisherConfig =
  cfg_OwnerID :: string
  cfg_LeaseDuration :: duration
  cfg_MaxAttempts :: int
  cfg_BaseBackoff :: duration
  cfg_MaxBackoff :: duration
  cfg_Jitter :: rat

definition NewOutboxPublisher ::
  "'b option \<Rightarrow> 's option \<Rightarrow> OutboxPublisherConfig \<Rightarrow> goerror option \<Rightarrow> OutboxPublisherConfig result" where
  "NewOutboxPublisher database sink cfg metrics_err =
     ensure (first_err
       [fail_if (database = None \<or> sink = None) (ErrNew ''outbox database and sink are required''),
        fail_if (TrimSpace (cfg_OwnerID cfg) = [] \<or> cfg_LeaseDuration cfg \<le> 0 \<or> cfg_MaxAttempts cfg < 1
            \<or> cfg_BaseBackoff cfg \<le> 0 \<or> cfg_MaxBackoff cfg < cfg_BaseBackoff cfg
            \<or> cfg_Jitter cfg < 0 \<or> cfg_Jitter cfg > 1)
          (ErrNew ''outbox publisher configuration is invalid''),
        result_err (NewTransactor database),
        metrics_err])
       (Inr cfg)"

section \<open>Backoff\<close>

text \<open>
  Doubling up to the maximum, then a random factor around one. The factor is computed in \<open>float64\<close>,
  every operation rounding to the nearest value; conversion to \<open>time.Duration\<close> truncates.
\<close>

fun backoff_delay :: "OutboxPublisherConfig \<Rightarrow> nat \<Rightarrow> duration \<Rightarrow> duration" where
  "backoff_delay cfg 0 delay = delay"
| "backoff_delay cfg (Suc n) delay =
     (if \<not> delay < cfg_MaxBackoff cfg then delay
      else backoff_delay cfg n
        (if delay > quot64 (cfg_MaxBackoff cfg) 2 then cfg_MaxBackoff cfg else wrap64 (delay * 2)))"

definition f64 :: "rat \<Rightarrow> rat" where
  "f64 q = (case binary64 q of Some v \<Rightarrow> v | None \<Rightarrow> q)"

definition backoff :: "OutboxPublisherConfig \<Rightarrow> rat \<Rightarrow> int \<Rightarrow> duration" where
  "backoff cfg random attempt =
     (let delay = min (cfg_MaxBackoff cfg) (backoff_delay cfg (nat (attempt - 1)) (cfg_BaseBackoff cfg));
          factor = f64 (f64 (1 - cfg_Jitter cfg) + f64 (f64 (2 * cfg_Jitter cfg) * random));
          product = f64 (f64 (of_int delay) * factor) in
      if product < 0 then - \<lfloor>- product\<rfloor> else \<lfloor>product\<rfloor>)"

section \<open>Claiming\<close>

record claimedOutbox = Publication +
  co_AttemptCount :: int
  co_ClaimUntil :: instant

definition claimable :: "instant \<Rightarrow> outbox_row \<Rightarrow> bool" where
  "claimable now r \<longleftrightarrow>
     ob_published_at r = None \<and> ob_dead_lettered_at r = None \<and> om_AvailableAt r \<le> now
     \<and> (case ob_claim_until r of None \<Rightarrow> True | Some u \<Rightarrow> u \<le> now)"

definition candidate :: "instant \<Rightarrow> tables \<Rightarrow> ((string \<times> string) \<times> outbox_row) option" where
  "candidate now db =
     (case sort_key (\<lambda>(key, r). (om_AvailableAt r, key)) (filter (\<lambda>(_, r). claimable now r) (t_outbox db)) of
        [] \<Rightarrow> None
      | x # _ \<Rightarrow> Some x)"

definition claimed_row :: "tables \<Rightarrow> OutboxPublisherConfig \<Rightarrow> instant \<Rightarrow> outbox_row \<Rightarrow> outbox_row" where
  "claimed_row db cfg now r =
     r\<lparr>ob_claim_owner := Some (cfg_OwnerID cfg),
       ob_claim_until := Some (timestamptz db (now + cfg_LeaseDuration cfg)),
       ob_attempt_count := ob_attempt_count r + 1\<rparr>"

definition claimed_message :: "string \<times> string \<Rightarrow> outbox_row \<Rightarrow> claimedOutbox" where
  "claimed_message key r =
     \<lparr>pub_TenantID = fst key, pub_OutboxID = snd key, pub_EventID = om_EventID r, pub_Topic = om_Topic r,
      pub_EventType = om_EventType r, pub_SafePayload = om_SafePayload r,
      pub_PayloadDigest = om_PayloadDigest r, pub_CreatedAt = om_CreatedAt r,
      co_AttemptCount = ob_attempt_count r,
      co_ClaimUntil = (case ob_claim_until r of None \<Rightarrow> 0 | Some u \<Rightarrow> u)\<rparr>"

definition outbox_claim_stmt ::
  "OutboxPublisherConfig \<Rightarrow> instant \<Rightarrow> tables \<Rightarrow> claimedOutbox result \<times> tables" where
  "outbox_claim_stmt cfg now db =
     (case candidate (timestamptz db now) db of
        None \<Rightarrow> (Inl ErrNoRows, db)
      | Some (key, r) \<Rightarrow>
          if ob_attempt_count r + 1 > 2147483647 then (Inl (PgError ''22003''), db)
          else if outbox_ok (claimed_row db cfg now r)
          then (Inr (claimed_message key (claimed_row db cfg now r)),
                db\<lparr>t_outbox := AList.update key (claimed_row db cfg now r) (t_outbox db)\<rparr>)
          else (Inl check_violation, db))"

definition outbox_claim :: "OutboxPublisherConfig \<Rightarrow> instant \<Rightarrow> (tables, claimedOutbox) action" where
  "outbox_claim cfg now =
     act_map_error (\<lambda>err. if errors_Is err ErrNoRows then ErrNoRows
                         else repositoryError ''claim outbox message'' err)
       (WithinTransaction (statement (outbox_claim_stmt cfg now)))"

section \<open>Recording the outcome\<close>

definition owned_by :: "OutboxPublisherConfig \<Rightarrow> claimedOutbox \<Rightarrow> outbox_row \<Rightarrow> bool" where
  "owned_by cfg m r \<longleftrightarrow>
     ob_claim_owner r = Some (cfg_OwnerID cfg) \<and> ob_claim_until r = Some (co_ClaimUntil m)
     \<and> ob_attempt_count r = co_AttemptCount m
     \<and> ob_published_at r = None \<and> ob_dead_lettered_at r = None"

definition owned_update_stmt ::
  "OutboxPublisherConfig \<Rightarrow> claimedOutbox \<Rightarrow> (outbox_row \<Rightarrow> outbox_row) \<Rightarrow> tables \<Rightarrow> (nat \<times> tables) result" where
  "owned_update_stmt cfg m f db =
     bind_result (update_row (pub_TenantID m, pub_OutboxID m) (owned_by cfg m) f outbox_ok (t_outbox db))
       (\<lambda>(n, tbl). Inr (n, db\<lparr>t_outbox := tbl\<rparr>))"

definition ownedUpdate ::
  "OutboxPublisherConfig \<Rightarrow> string \<Rightarrow> claimedOutbox \<Rightarrow> (tables \<Rightarrow> outbox_row \<Rightarrow> outbox_row) \<Rightarrow> (tables, unit) action" where
  "ownedUpdate cfg operation m f =
     exec_one operation ''outbox lease is no longer current'' (\<lambda>db. owned_update_stmt cfg m (f db) db)"

definition published_row :: "string \<Rightarrow> instant \<Rightarrow> tables \<Rightarrow> outbox_row \<Rightarrow> outbox_row" where
  "published_row ref now db r =
     r\<lparr>ob_published_at := Some (timestamptz db now), ob_publication_ref := Some ref,
       ob_claim_owner := None, ob_claim_until := None\<rparr>"

definition markPublished ::
  "OutboxPublisherConfig \<Rightarrow> claimedOutbox \<Rightarrow> string \<Rightarrow> instant \<Rightarrow> (tables, unit) action" where
  "markPublished cfg m ref now = ownedUpdate cfg ''mark outbox published'' m (published_row ref now)"

definition dead_row :: "PublicationErrorClass \<Rightarrow> instant \<Rightarrow> tables \<Rightarrow> outbox_row \<Rightarrow> outbox_row" where
  "dead_row class now db r =
     r\<lparr>ob_dead_lettered_at := Some (timestamptz db now), ob_dead_letter_reason := Some (''delivery_'' @ class),
       ob_last_error_class := Some class, ob_last_error_at := Some (timestamptz db now),
       ob_claim_owner := None, ob_claim_until := None\<rparr>"

definition markDeadLetter ::
  "OutboxPublisherConfig \<Rightarrow> claimedOutbox \<Rightarrow> PublicationErrorClass \<Rightarrow> instant \<Rightarrow> (tables, unit) action" where
  "markDeadLetter cfg m class now = ownedUpdate cfg ''dead-letter outbox message'' m (dead_row class now)"

definition retry_row ::
  "PublicationErrorClass \<Rightarrow> duration \<Rightarrow> instant \<Rightarrow> tables \<Rightarrow> outbox_row \<Rightarrow> outbox_row" where
  "retry_row class delay now db r =
     r\<lparr>om_AvailableAt := timestamptz db (now + delay), ob_last_error_class := Some class,
       ob_last_error_at := Some (timestamptz db now), ob_claim_owner := None, ob_claim_until := None\<rparr>"

definition releaseForRetry ::
  "OutboxPublisherConfig \<Rightarrow> rat \<Rightarrow> claimedOutbox \<Rightarrow> PublicationErrorClass \<Rightarrow> instant \<Rightarrow> (tables, unit) action" where
  "releaseForRetry cfg random m class now =
     ownedUpdate cfg ''release outbox message for retry'' m
       (retry_row class (backoff cfg random (co_AttemptCount m)) now)"

section \<open>PublishOne\<close>

type_synonym 'w PublicationSink = "Publication \<Rightarrow> 'w \<Rightarrow> string result \<times> 'w"

definition handle_failure ::
  "OutboxPublisherConfig \<Rightarrow> rat \<Rightarrow> claimedOutbox \<Rightarrow> goerror \<Rightarrow> instant \<Rightarrow> (tables, unit) action" where
  "handle_failure cfg random m publishErr now =
     (let class = classifyPublicationError publishErr in
      if class = PublicationPermanent \<or> class = PublicationPoison \<or> co_AttemptCount m \<ge> cfg_MaxAttempts cfg
      then markDeadLetter cfg m class now
      else releaseForRetry cfg random m class now)"

definition PublishOne ::
  "OutboxPublisherConfig \<Rightarrow> 'w PublicationSink \<Rightarrow> instant \<Rightarrow> instant \<Rightarrow> rat \<Rightarrow> 'w \<Rightarrow> tables conn
     \<Rightarrow> (bool \<times> goerror option) \<times> 'w \<times> tables conn" where
  "PublishOne cfg sink now1 now2 random w c =
     (case outbox_claim cfg now1 c of
        (Inl err, d) \<Rightarrow> ((False, if errors_Is err ErrNoRows then None else Some err), w, d)
      | (Inr m, d) \<Rightarrow>
          (let (answer, w') = sink (Publication.truncate m) w;
               record = (case answer of
                   Inr ref \<Rightarrow>
                     if TrimSpace ref = [] then
                       handle_failure cfg random m (PublicationError PublicationPoison
                         (ErrNew ''sink returned an empty publication reference'')) now2
                     else markPublished cfg m ref now2
                 | Inl publishErr \<Rightarrow> handle_failure cfg random m publishErr now2);
               (r, e) = record d in
           ((True, result_err r), w', e)))"

section \<open>Dead letters\<close>

record DeadLetter = Publication +
  dl_AttemptCount :: int
  dl_ErrorClass :: PublicationErrorClass
  dl_DeadLetteredAt :: instant
  dl_Reason :: string

text \<open>Scanning a NULL column into a Go string or time fails.\<close>

definition dead_letter_row :: "(string \<times> string) \<times> outbox_row \<Rightarrow> DeadLetter result" where
  "dead_letter_row = (\<lambda>((tenant, i), r).
     (case (ob_last_error_class r, ob_dead_lettered_at r, ob_dead_letter_reason r) of
        (Some class, Some moment, Some reason) \<Rightarrow>
          Inr \<lparr>pub_TenantID = tenant, pub_OutboxID = i, pub_EventID = om_EventID r, pub_Topic = om_Topic r,
            pub_EventType = om_EventType r, pub_SafePayload = om_SafePayload r,
            pub_PayloadDigest = om_PayloadDigest r, pub_CreatedAt = om_CreatedAt r,
            dl_AttemptCount = ob_attempt_count r, dl_ErrorClass = class, dl_DeadLetteredAt = moment,
            dl_Reason = reason\<rparr>
      | _ \<Rightarrow> Inl (repositoryError ''scan outbox dead letter'' (ErrNew ''cannot scan NULL''))))"

fun scan_dead_letters :: "((string \<times> string) \<times> outbox_row) list \<Rightarrow> DeadLetter list result" where
  "scan_dead_letters [] = Inr []"
| "scan_dead_letters (x # xs) =
     bind_result (dead_letter_row x) (\<lambda>item.
       bind_result (scan_dead_letters xs) (\<lambda>items. Inr (item # items)))"

definition dead_letter_rows :: "string \<Rightarrow> int \<Rightarrow> tables \<Rightarrow> ((string \<times> string) \<times> outbox_row) list" where
  "dead_letter_rows tenant limit db =
     take (nat limit)
       (sort_key (\<lambda>((_, i), r). (- (case ob_dead_lettered_at r of None \<Rightarrow> 0 | Some t \<Rightarrow> t), i))
         (filter (\<lambda>((t, _), r). t = tenant \<and> ob_dead_lettered_at r \<noteq> None) (t_outbox db)))"

definition DeadLetters :: "string \<Rightarrow> int \<Rightarrow> (tables, DeadLetter list) action" where
  "DeadLetters tenantID limit =
     (case ParseUUID tenantID of
        Inl err \<Rightarrow> act_return (Inl (NewError CodeInvalidArgument ''dead-letter query is invalid'' (Some err)))
      | Inr uid \<Rightarrow>
          if limit < 1 \<or> limit > 1000
          then act_return (Inl (NewError CodeInvalidArgument ''dead-letter query is invalid'' None))
          else act_bind (act_map_error (repositoryError ''list outbox dead letters'')
              (statement (\<lambda>db. (Inr (dead_letter_rows (UUID_String uid) limit db), db))))
            (\<lambda>rows. act_return (scan_dead_letters rows)))"

section \<open>How the table changes\<close>

inductive outbox_step :: "tables \<Rightarrow> tables \<Rightarrow> bool" where
  enqueued: "insert_outbox tenant v db = Inr tbl \<Longrightarrow> outbox_step db (db\<lparr>t_outbox := tbl\<rparr>)"
| claimed: "outbox_claim_stmt cfg now db = (r, db') \<Longrightarrow> outbox_step db db'"
| recorded: "f \<in> {published_row ref now, dead_row class now, retry_row class delay now}
    \<Longrightarrow> owned_update_stmt cfg m (f db) db = Inr (n, db') \<Longrightarrow> outbox_step db db'"
| elsewhere: "t_outbox db' = t_outbox db \<Longrightarrow> outbox_step db db'"

abbreviation outbox_at :: "tables \<Rightarrow> string \<times> string \<Rightarrow> outbox_row option" where
  "outbox_at db key \<equiv> map_of (t_outbox db) key"

lemma candidate_Some:
  assumes "candidate now db = Some (key, r)"
  shows "(key, r) \<in> set (t_outbox db)" "claimable now r"
    "(k, x) \<in> set (t_outbox db) \<Longrightarrow> claimable now x \<Longrightarrow> (om_AvailableAt r, key) \<le> (om_AvailableAt x, k)"
proof -
  define sorted_rows where "sorted_rows =
    sort_key (\<lambda>(key, r). (om_AvailableAt r, key)) (filter (\<lambda>(_, r). claimable now r) (t_outbox db))"
  from assms obtain rest where hd: "sorted_rows = (key, r) # rest"
    by (auto simp: candidate_def sorted_rows_def split: list.splits)
  have in_rows: "y \<in> set sorted_rows \<longleftrightarrow> y \<in> set (t_outbox db) \<and> claimable now (snd y)" for y
    by (auto simp: sorted_rows_def)
  show "(key, r) \<in> set (t_outbox db)" "claimable now r"
    using in_rows [of "(key, r)"] hd by auto
  have "sorted (map (\<lambda>(key, r). (om_AvailableAt r, key)) sorted_rows)"
    by (simp add: sorted_rows_def)
  then show "(om_AvailableAt r, key) \<le> (om_AvailableAt x, k)"
    if "(k, x) \<in> set (t_outbox db)" "claimable now x"
    using that in_rows [of "(k, x)"] hd by auto
qed

lemma sort_key_Nil_iff: "sort_key k xs = [] \<longleftrightarrow> xs = []"
  by (metis length_sort length_0_conv)

lemma first_None_iff: "(case ys of [] \<Rightarrow> None | y # _ \<Rightarrow> Some y) = None \<longleftrightarrow> ys = []"
  by (cases ys) simp_all

lemma candidate_None:
  "candidate now db = None \<longleftrightarrow> (\<forall>(k, x) \<in> set (t_outbox db). \<not> claimable now x)"
  unfolding candidate_def first_None_iff sort_key_Nil_iff by (auto simp: filter_empty_conv)

text \<open>Primary keys are unique in the table, whatever is done to it.\<close>

definition outbox_wf :: "tables \<Rightarrow> bool" where
  "outbox_wf db \<longleftrightarrow> distinct (map fst (t_outbox db))"

lemma outbox_claim_Inr:
  assumes "outbox_claim_stmt cfg now db = (Inr m, db')" "outbox_wf db"
  obtains key r where
    "outbox_at db key = Some r" "claimable (timestamptz db now) r"
    "m = claimed_message key (claimed_row db cfg now r)"
    "db' = db\<lparr>t_outbox := AList.update key (claimed_row db cfg now r) (t_outbox db)\<rparr>"
    "outbox_ok (claimed_row db cfg now r)" "candidate (timestamptz db now) db = Some (key, r)"
proof -
  from assms(1) obtain key r where c: "candidate (timestamptz db now) db = Some (key, r)"
    "m = claimed_message key (claimed_row db cfg now r)"
    "db' = db\<lparr>t_outbox := AList.update key (claimed_row db cfg now r) (t_outbox db)\<rparr>"
    "outbox_ok (claimed_row db cfg now r)"
    by (auto simp: outbox_claim_stmt_def split: option.splits if_splits)
  with candidate_Some [OF c(1)] assms(2) show thesis
    by (intro that [of key r]) (simp_all add: outbox_wf_def)
qed

lemma outbox_claim_Inl: "outbox_claim_stmt cfg now db = (Inl e, db') \<Longrightarrow> db' = db"
  by (auto simp: outbox_claim_stmt_def split: option.splits if_splits)

text \<open>One step on one row: untouched, claimed again, or settled or released by its present owner.\<close>

definition row_step :: "outbox_row \<Rightarrow> outbox_row \<Rightarrow> bool" where
  "row_step r r' \<longleftrightarrow> r' = r \<or>
     (ob_published_at r = None \<and> ob_dead_lettered_at r = None
      \<and> (ob_attempt_count r' = ob_attempt_count r + 1
         \<or> ob_attempt_count r' = ob_attempt_count r \<and> ob_claim_owner r' = None))"

lemma owned_update_Inr:
  assumes "owned_update_stmt cfg m f db = Inr (n, db')"
  obtains "n = 0" "db' = db"
  | r where "n = 1" "outbox_at db (pub_TenantID m, pub_OutboxID m) = Some r" "owned_by cfg m r"
      "db' = db\<lparr>t_outbox := AList.update (pub_TenantID m, pub_OutboxID m) (f r) (t_outbox db)\<rparr>"
  using assms
  by (auto simp: owned_update_stmt_def update_row_def split: option.splits if_splits)

lemma updated_row_step:
  assumes "outbox_wf db" "outbox_at db k = Some x" "row_step x y"
    "db' = db\<lparr>t_outbox := AList.update k y (t_outbox db)\<rparr>"
  shows "outbox_wf db' \<and> (outbox_at db key = Some r \<longrightarrow> (\<exists>r'. outbox_at db' key = Some r' \<and> row_step r r'))"
proof -
  have "outbox_wf db'" using assms(1, 4) by (simp add: outbox_wf_def AList.distinct_update)
  moreover have "\<exists>r'. outbox_at db' key = Some r' \<and> row_step r r'" if "outbox_at db key = Some r"
    using that assms(2-4) by (cases "key = k") (auto simp: AList.update_conv' row_step_def)
  ultimately show ?thesis by blast
qed

lemma outbox_step_row:
  assumes "outbox_step db db'" "outbox_wf db"
  shows "outbox_wf db'" "outbox_at db key = Some r \<Longrightarrow> \<exists>r'. outbox_at db' key = Some r' \<and> row_step r r'"
proof -
  have "outbox_wf db' \<and> (outbox_at db key = Some r \<longrightarrow> (\<exists>r'. outbox_at db' key = Some r' \<and> row_step r r'))"
    using assms(1)
  proof (cases rule: outbox_step.cases)
    case (enqueued tenant v tbl)
    then show ?thesis using assms(2)
      by (auto simp: insert_outbox_def insert_row_Inr outbox_wf_def map_of_append map_add_def
          map_of_eq_None_iff row_step_def split: option.splits)
  next
    case (claimed cfg now res)
    show ?thesis
    proof (cases res)
      case (Inl e)
      with claimed assms(2) show ?thesis by (auto dest: outbox_claim_Inl simp: row_step_def)
    next
      case (Inr m)
      with claimed have "outbox_claim_stmt cfg now db = (Inr m, db')" by simp
      then show ?thesis
      proof (rule outbox_claim_Inr [OF _ assms(2)])
        fix k x
        assume "outbox_at db k = Some x" "claimable (timestamptz db now) x"
          "db' = db\<lparr>t_outbox := AList.update k (claimed_row db cfg now x) (t_outbox db)\<rparr>"
        then show ?thesis
          by (intro updated_row_step [OF assms(2)])
            (auto simp: row_step_def claimed_row_def claimable_def)
      qed
    qed
  next
    case (recorded f ref now cls delay cfg m n)
    from recorded(2) show ?thesis
    proof (cases rule: owned_update_Inr)
      case 1
      with assms(2) show ?thesis by (auto simp: row_step_def)
    next
      case (2 x)
      with recorded(1) show ?thesis
        by (intro updated_row_step [OF assms(2) 2(2) _ 2(4)])
          (auto simp: row_step_def owned_by_def published_row_def dead_row_def retry_row_def)
    qed
  next
    case elsewhere
    with assms(2) show ?thesis by (auto simp: outbox_wf_def row_step_def)
  qed
  then show "outbox_wf db'"
    "outbox_at db key = Some r \<Longrightarrow> \<exists>r'. outbox_at db' key = Some r' \<and> row_step r r'"
    by auto
qed

text \<open>A delivered row, published or dead-lettered, is settled.\<close>

definition delivered_as :: "string \<times> string \<Rightarrow> outbox_row \<Rightarrow> tables \<Rightarrow> bool" where
  "delivered_as key r db \<longleftrightarrow> outbox_wf db \<and> outbox_at db key = Some r
     \<and> (ob_published_at r \<noteq> None \<or> ob_dead_lettered_at r \<noteq> None)"

interpretation deliveries: settled_store outbox_step delivered_as
proof unfold_locales
  fix s t key r
  assume step: "outbox_step s t" and settled: "delivered_as key r s"
  then have wf: "outbox_wf s" and row: "outbox_at s key = Some r"
    and del: "ob_published_at r \<noteq> None \<or> ob_dead_lettered_at r \<noteq> None"
    by (simp_all add: delivered_as_def)
  from outbox_step_row(2) [OF step wf row] obtain r' where "outbox_at t key = Some r'" "row_step r r'"
    by blast
  with del outbox_step_row(1) [OF step wf] show "delivered_as key r t"
    by (auto simp: delivered_as_def row_step_def)
qed (simp add: delivered_as_def)

text \<open>Every operation of the publisher, whatever the driver answers, is steps of the table.\<close>

lemma ownedUpdate_effect:
  assumes "ownedUpdate cfg operation m f c = (r, d)"
    "f \<in> {published_row ref now, dead_row class now, retry_row class delay now}"
  shows "outbox_step (conn_db c) (conn_db d)"
  using assms(1) unfolding ownedUpdate_def
  by (rule exec_one_effect [where P = "outbox_step (conn_db c)"])
    (auto intro: outbox_step.elsewhere outbox_step.recorded [OF assms(2)])

lemma outbox_claim_effect:
  assumes "outbox_claim cfg now c = (r, d)"
  shows "outbox_step (conn_db c) (conn_db d)"
proof -
  obtain x e where run: "WithinTransaction (statement (outbox_claim_stmt cfg now)) c = (x, e)"
    and d: "conn_db d = conn_db e"
    using assms by (auto simp: outbox_claim_def act_map_error_def split: prod.splits)
  from run show ?thesis
  proof (cases rule: WithinTransaction_effect)
    case 1
    with d show ?thesis by (simp add: outbox_step.elsewhere)
  next
    case (2 c' a d')
    with d statement_Inr [OF 2(2)] show ?thesis by (simp add: outbox_step.claimed)
  qed
qed

lemma outbox_claim_granted:
  assumes "outbox_claim cfg now c = (Inr m, d)"
  shows "outbox_claim_stmt cfg now (conn_db c) = (Inr m, conn_db d)"
proof -
  from assms have "WithinTransaction (statement (outbox_claim_stmt cfg now)) c = (Inr m, d)"
    by (simp add: outbox_claim_def act_map_error_Inr)
  then show ?thesis by (rule WithinTransaction_Inr) (metis statement_Inr)
qed

lemma handle_failure_effect:
  "handle_failure cfg random m err now c = (r, d) \<Longrightarrow> outbox_step (conn_db c) (conn_db d)"
  by (auto simp: handle_failure_def markDeadLetter_def releaseForRetry_def Let_def split: if_splits
      elim!: ownedUpdate_effect)

lemma PublishOne_cases:
  assumes "PublishOne cfg sink now1 now2 random w c = (res, w', d)"
  obtains err where "outbox_claim cfg now1 c = (Inl err, d)" "w' = w"
  | m c' where "outbox_claim cfg now1 c = (Inr m, c')" "w' = snd (sink (Publication.truncate m) w)"
      "outbox_step (conn_db c') (conn_db d)"
proof (cases "outbox_claim cfg now1 c")
  case (Pair x c')
  show thesis
  proof (cases x)
    case (Inl err)
    with Pair assms show thesis by (intro that(1)) (simp_all add: PublishOne_def)
  next
    case (Inr m)
    obtain answer v where s: "sink (Publication.truncate m) w = (answer, v)" by fastforce
    from Pair Inr s assms have "w' = v" "outbox_step (conn_db c') (conn_db d)"
      by (auto simp: PublishOne_def Let_def markPublished_def handle_failure_effect
          split: sum.splits if_splits prod.splits elim!: ownedUpdate_effect)
    moreover have "snd (sink (Publication.truncate m) w) = v" unfolding s by simp
    ultimately show thesis using Pair Inr by (intro that(2) [of m c']) simp_all
  qed
qed

lemma PublishOne_steps:
  assumes "PublishOne cfg sink now1 now2 random w c = (res, w', d)"
  shows "outbox_step\<^sup>*\<^sup>* (conn_db c) (conn_db d)"
  using assms
proof (cases rule: PublishOne_cases)
  case (1 err)
  then show ?thesis by (auto dest: outbox_claim_effect)
next
  case (2 m c')
  then show ?thesis by (meson outbox_claim_effect converse_rtranclp_into_rtranclp r_into_rtranclp)
qed

lemma row_after_steps:
  assumes "outbox_step\<^sup>*\<^sup>* db db'" "outbox_wf db" "outbox_at db key = Some r"
  shows "outbox_wf db' \<and> (\<exists>r'. outbox_at db' key = Some r' \<and> ob_attempt_count r \<le> ob_attempt_count r')"
  using assms
proof (induction rule: rtranclp_induct)
  case (step s t)
  then obtain r' where "outbox_wf s" "outbox_at s key = Some r'" "ob_attempt_count r \<le> ob_attempt_count r'"
    by blast
  with outbox_step_row(1) [OF step(2)] outbox_step_row(2) [OF step(2), of key r'] show ?case
    by (fastforce simp: row_step_def)
qed simp

lemma claimed_key [simp]:
  "pub_TenantID (claimed_message key r) = fst key" "pub_OutboxID (claimed_message key r) = snd key"
  "co_AttemptCount (claimed_message key r) = ob_attempt_count r"
  by (simp_all add: claimed_message_def)

lemma truncated_key [simp]:
  "pub_TenantID (Publication.truncate m) = pub_TenantID m"
  "pub_OutboxID (Publication.truncate m) = pub_OutboxID m"
  by (simp_all add: Publication.truncate_def)

lemma outbox_claim_row:
  assumes "outbox_claim cfg now c = (Inr m, d)" "outbox_wf (conn_db c)"
  obtains r r' where "outbox_at (conn_db c) (pub_TenantID m, pub_OutboxID m) = Some r"
    "ob_published_at r = None" "ob_dead_lettered_at r = None"
    "outbox_at (conn_db d) (pub_TenantID m, pub_OutboxID m) = Some r'"
    "ob_attempt_count r' = ob_attempt_count r + 1" "co_AttemptCount m = ob_attempt_count r'"
  using outbox_claim_granted [OF assms(1)] assms(2)
proof (rule outbox_claim_Inr)
  fix key r
  assume "outbox_at (conn_db c) key = Some r" "claimable (timestamptz (conn_db c) now) r"
    "m = claimed_message key (claimed_row (conn_db c) cfg now r)"
    "conn_db d = (conn_db c)\<lparr>t_outbox := AList.update key (claimed_row (conn_db c) cfg now r) (t_outbox (conn_db c))\<rparr>"
  then show thesis
    by (intro that [of r "claimed_row (conn_db c) cfg now r"])
      (simp_all add: AList.update_conv' claimed_row_def claimable_def)
qed

lemma ownedUpdate_superseded:
  assumes "outbox_at (conn_db c) (pub_TenantID m, pub_OutboxID m) = Some r"
    "ob_attempt_count r \<noteq> co_AttemptCount m"
    "ownedUpdate cfg operation m f c = (res, d)"
  shows "(\<exists>err. res = Inl err) \<and> conn_db d = conn_db c"
proof -
  have stmt: "owned_update_stmt cfg m (f (conn_db c)) (conn_db c) = Inr (0, conn_db c)"
    using assms(1, 2) by (simp add: owned_update_stmt_def update_row_def owned_by_def)
  have "conn_db d = conn_db c"
    using assms(3) unfolding ownedUpdate_def
    by (rule exec_one_effect [where P = "\<lambda>db. db = conn_db c"]) (use stmt in auto)
  moreover have "res \<noteq> Inr u" for u
    using assms(3) stmt unfolding ownedUpdate_def by (auto dest!: exec_one_Inr)
  ultimately show ?thesis by (cases res) auto
qed

section \<open>Delivery without database failures\<close>

lemma ownedUpdate_answered:
  assumes "conn_outcomes c = []" "outbox_at (conn_db c) (pub_TenantID m, pub_OutboxID m) = Some x"
    "owned_by cfg m x" "outbox_ok (f (conn_db c) x)"
  shows "ownedUpdate cfg operation m f c = (Inr (), c\<lparr>conn_db := (conn_db c)\<lparr>t_outbox :=
     AList.update (pub_TenantID m, pub_OutboxID m) (f (conn_db c) x) (t_outbox (conn_db c))\<rparr>\<rparr>)"
  using assms
  by (simp add: ownedUpdate_def exec_one_def act_bind_def act_map_error_def act_return_def exec_def
      owned_update_stmt_def update_row_def)

definition row_healthy :: "outbox_row \<Rightarrow> bool" where
  "row_healthy r \<longleftrightarrow> outbox_ok r \<and> ob_attempt_count r < 2147483647"

lemma claimed_row_ok:
  assumes "outbox_ok r" "claimable now' r" "cfg_OwnerID cfg \<noteq> []"
  shows "outbox_ok (claimed_row db cfg now r)"
  using assms by (auto simp: outbox_ok_def claimed_row_def claimable_def)

lemma outbox_claim_answered:
  assumes "conn_outcomes c = []" "outbox_wf (conn_db c)" "cfg_OwnerID cfg \<noteq> []"
    and healthy: "\<forall>x \<in> ran (outbox_at (conn_db c)). row_healthy x"
    and work: "outbox_at (conn_db c) k0 = Some x0" "claimable (timestamptz (conn_db c) now) x0"
  obtains key r where "candidate (timestamptz (conn_db c) now) (conn_db c) = Some (key, r)"
    "outbox_at (conn_db c) key = Some r" "row_healthy r"
    "outbox_claim cfg now c = (Inr (claimed_message key (claimed_row (conn_db c) cfg now r)),
       c\<lparr>conn_db := (conn_db c)\<lparr>t_outbox :=
         AList.update key (claimed_row (conn_db c) cfg now r) (t_outbox (conn_db c))\<rparr>\<rparr>)"
proof -
  from work have "candidate (timestamptz (conn_db c) now) (conn_db c) \<noteq> None"
    by (auto simp: candidate_None dest: map_of_SomeD)
  then obtain key r where cand: "candidate (timestamptz (conn_db c) now) (conn_db c) = Some (key, r)" by auto
  note first = candidate_Some(1, 2) [OF cand]
  from first(1) assms(2) have row: "outbox_at (conn_db c) key = Some r" by (simp add: outbox_wf_def)
  with healthy have h: "row_healthy r" by (blast intro: ranI)
  have "outbox_claim_stmt cfg now (conn_db c)
    = (Inr (claimed_message key (claimed_row (conn_db c) cfg now r)),
       (conn_db c)\<lparr>t_outbox := AList.update key (claimed_row (conn_db c) cfg now r) (t_outbox (conn_db c))\<rparr>)"
    using cand h claimed_row_ok [OF _ first(2) assms(3)]
    by (simp add: outbox_claim_stmt_def row_healthy_def)
  with assms(1) have "outbox_claim cfg now c = (Inr (claimed_message key (claimed_row (conn_db c) cfg now r)),
       c\<lparr>conn_db := (conn_db c)\<lparr>t_outbox :=
         AList.update key (claimed_row (conn_db c) cfg now r) (t_outbox (conn_db c))\<rparr>\<rparr>)"
    by (simp add: outbox_claim_def act_map_error_def next_outcome_def)
  with cand row h show thesis by (rule that)
qed

lemma claimed_row_owned:
  "claimable now' r \<Longrightarrow>
     owned_by cfg (claimed_message key (claimed_row db cfg now r)) (claimed_row db cfg now r)"
  by (simp add: owned_by_def claimed_message_def claimed_row_def claimable_def)

lemma settled_rows_ok:
  assumes "outbox_ok r" "claimable now' r"
  shows "outbox_ok (published_row ref now db' (claimed_row db cfg now1 r))"
    and "class \<in> set [PublicationTransient, PublicationPermanent, PublicationPoison, PublicationUnknown]
      \<Longrightarrow> outbox_ok (dead_row class now db' (claimed_row db cfg now1 r))"
  using assms
  by (auto simp: outbox_ok_def claimed_row_def claimable_def published_row_def dead_row_def
      publication_classes)

lemma classify_known:
  "classifyPublicationError err
     \<in> set [PublicationTransient, PublicationPermanent, PublicationPoison, PublicationUnknown]"
  by (auto simp: classifyPublicationError_def split: option.splits)

text \<open>The row an accepted or finally refused delivery leaves.\<close>

definition final_row ::
  "OutboxPublisherConfig \<Rightarrow> string result \<Rightarrow> instant \<Rightarrow> tables \<Rightarrow> outbox_row \<Rightarrow> outbox_row option" where
  "final_row cfg answer now db r =
     (case answer of
        Inr ref \<Rightarrow> if TrimSpace ref = [] then Some (dead_row PublicationPoison now db r)
                  else Some (published_row ref now db r)
      | Inl err \<Rightarrow>
          if classifyPublicationError err \<in> {PublicationPermanent, PublicationPoison}
             \<or> ob_attempt_count r \<ge> cfg_MaxAttempts cfg
          then Some (dead_row (classifyPublicationError err) now db r) else None)"

lemma classify_PublicationError [simp]:
  "classifyPublicationError (PublicationError PublicationPoison err) = PublicationPoison"
  by (simp add: classifyPublicationError_def PublicationError_def)

lemma PublishOne_final:
  assumes "outbox_claim cfg now1 c = (Inr m, c')" "sink (Publication.truncate m) w = (answer, v)"
    "final_row cfg answer now2 db r = Some out" "ob_attempt_count r = co_AttemptCount m"
  obtains operation f where "out = f db r"
    "f \<in> range (\<lambda>ref. published_row ref now2) \<union> (\<lambda>cls. dead_row cls now2) `
       set [PublicationTransient, PublicationPermanent, PublicationPoison, PublicationUnknown]"
    "PublishOne cfg sink now1 now2 random w c =
       (case ownedUpdate cfg operation m f c' of (x, e) \<Rightarrow> ((True, result_err x), v, e))"
proof (cases answer)
  case (Inl err)
  with assms show thesis
    by (intro that [of "dead_row (classifyPublicationError err) now2" "''dead-letter outbox message''"])
      (use classify_known [of err] in \<open>auto simp: PublishOne_def final_row_def handle_failure_def
         markDeadLetter_def Let_def split: if_splits\<close>)
next
  case (Inr ref)
  show thesis
  proof (cases "TrimSpace ref = []")
    case True
    with assms Inr show thesis
      by (intro that [of "dead_row PublicationPoison now2" "''dead-letter outbox message''"])
        (auto simp: PublishOne_def final_row_def handle_failure_def markDeadLetter_def Let_def)
  next
    case False
    with assms Inr show thesis
      by (intro that [of "published_row ref now2" "''mark outbox published''"])
        (auto simp: PublishOne_def final_row_def markPublished_def Let_def)
  qed
qed

section \<open>Properties\<close>


text \<open>
  A publisher whose lease was taken over records nothing. After a second claim of the same message,
  by another publisher or by a new one under the same owner name, every attempt of the first claimant to
  record publication or failure is refused with an error and leaves the tables as they are, whatever
  happened in between.
\<close>

theorem superseded_lease_records_nothing:
  assumes "outbox_wf (conn_db c)" and "outbox_claim cfg now c = (Inr m, d)"
    and "outbox_step\<^sup>*\<^sup>* (conn_db d) (conn_db e)"
    and "outbox_claim cfg' now' e = (Inr m', f)"
    and "(pub_TenantID m', pub_OutboxID m') = (pub_TenantID m, pub_OutboxID m)"
    and "outbox_step\<^sup>*\<^sup>* (conn_db f) (conn_db g)"
    and "markPublished cfg m ref now'' g = (res, h) \<or> handle_failure cfg random m err now'' g = (res, h)"
  shows "(\<exists>err. res = Inl err) \<and> conn_db h = conn_db g"
proof -
  obtain r1 where r1: "outbox_at (conn_db d) (pub_TenantID m, pub_OutboxID m) = Some r1"
    "co_AttemptCount m = ob_attempt_count r1"
    using outbox_claim_row [OF assms(2, 1)] by metis
  have wf_d: "outbox_wf (conn_db d)"
    using outbox_step_row(1) [OF outbox_claim_effect [OF assms(2)] assms(1)] .
  from row_after_steps [OF assms(3) wf_d r1(1)] obtain r2 where wf_e: "outbox_wf (conn_db e)"
    and r2: "outbox_at (conn_db e) (pub_TenantID m, pub_OutboxID m) = Some r2"
      "ob_attempt_count r1 \<le> ob_attempt_count r2" by blast
  obtain r3 where r3: "outbox_at (conn_db f) (pub_TenantID m, pub_OutboxID m) = Some r3"
    "ob_attempt_count r3 = ob_attempt_count r2 + 1"
    using outbox_claim_row [OF assms(4) wf_e] assms(5) r2(1) by (metis Pair_inject option.inject)
  have wf_f: "outbox_wf (conn_db f)"
    using outbox_step_row(1) [OF outbox_claim_effect [OF assms(4)] wf_e] .
  from row_after_steps [OF assms(6) wf_f r3(1)] obtain r4 where
    r4: "outbox_at (conn_db g) (pub_TenantID m, pub_OutboxID m) = Some r4"
      "ob_attempt_count r3 \<le> ob_attempt_count r4" by blast
  have "ob_attempt_count r4 \<noteq> co_AttemptCount m" using r1(2) r2(2) r3(2) r4(2) by simp
  from ownedUpdate_superseded [OF r4(1) this] assms(7) show ?thesis
    by (auto simp: markPublished_def handle_failure_def markDeadLetter_def releaseForRetry_def Let_def
        split: if_splits)
qed


section \<open>Witnesses\<close>

definition sample_publisher :: OutboxPublisherConfig where
  "sample_publisher = \<lparr>cfg_OwnerID = ''p'', cfg_LeaseDuration = 10, cfg_MaxAttempts = 3, cfg_BaseBackoff = 1,
     cfg_MaxBackoff = 8, cfg_Jitter = 0\<rparr>"

definition sample_row :: outbox_row where
  "sample_row = \<lparr>om_ID = ''o'', om_EventID = ''e'', om_Topic = ''topic'', om_EventType = ''type'',
     om_SafePayload = ''{}'', om_PayloadDigest = replicate 32 0, om_CreatedAt = 1, om_AvailableAt = 2,
     ob_claim_owner = None, ob_claim_until = None, ob_attempt_count = 0, ob_last_error_class = None,
     ob_last_error_at = None, ob_published_at = None, ob_publication_ref = None,
     ob_dead_lettered_at = None, ob_dead_letter_reason = None\<rparr>"

definition sample_outbox :: "outbox_row \<Rightarrow> tables conn" where
  "sample_outbox r = \<lparr>conn_db = empty_tables\<lparr>t_outbox := [((''t'', ''o''), r)]\<rparr>, conn_outcomes = []\<rparr>"

lemmas outbox_eval =
  sample_publisher_def sample_row_def sample_outbox_def empty_tables_def outbox_wf_def outbox_ok_def
  outbox_claim_def outbox_claim_stmt_def candidate_def claimable_def claimed_row_def claimed_message_def
  Publication.truncate_def next_outcome_def

lemma sample_outbox_claim:
  "outbox_claim sample_publisher 5 (sample_outbox sample_row)
     = (Inr (claimed_message (''t'', ''o'') (claimed_row empty_tables sample_publisher 5 sample_row)),
        sample_outbox (claimed_row empty_tables sample_publisher 5 sample_row))"
  by (simp add: outbox_eval act_map_error_def)

lemma sample_outbox_reclaim:
  "outbox_claim sample_publisher 20 (sample_outbox (claimed_row empty_tables sample_publisher 5 sample_row))
     = (Inr (claimed_message (''t'', ''o'') (claimed_row empty_tables sample_publisher 20
          (claimed_row empty_tables sample_publisher 5 sample_row))),
        sample_outbox (claimed_row empty_tables sample_publisher 20
          (claimed_row empty_tables sample_publisher 5 sample_row)))"
  by (simp add: outbox_eval act_map_error_def)

lemma sample_publisher_valid:
  "NewOutboxPublisher (Some ()) (Some ()) sample_publisher None = Inr sample_publisher"
  by (simp add: NewOutboxPublisher_def NewTransactor_def NewTransactorWithTimeout_def sample_publisher_def
      trim_eval duration_defs)


theorem superseded_lease_records_nothing_witness:
  "let m = claimed_message (''t'', ''o'') (claimed_row empty_tables sample_publisher 5 sample_row);
       c = sample_outbox (claimed_row empty_tables sample_publisher 20
             (claimed_row empty_tables sample_publisher 5 sample_row)) in
   \<exists>err. fst (markPublished sample_publisher m ''ref'' 21 c) = Inl err
     \<and> conn_db (snd (markPublished sample_publisher m ''ref'' 21 c)) = conn_db c"
proof -
  have "outbox_wf (conn_db (sample_outbox sample_row))" by (simp add: outbox_eval)
  from superseded_lease_records_nothing [OF this sample_outbox_claim rtranclp.rtrancl_refl sample_outbox_reclaim
      _ rtranclp.rtrancl_refl disjI1 [OF prod.collapse [symmetric]]]
  show ?thesis by (simp add: Let_def)
qed

lemma published_row_ref: "Some (published_row ref now db y) = Some row \<Longrightarrow> ob_publication_ref row = Some ref"
  by (auto simp: published_row_def)


end
