(* ===== verification/Credential_Binding.thy ===== *)
theory Credential_Binding
  imports Tool_Catalog
begin

text \<open>
  Credential bindings (\<open>internal/domain/credential_binding.go\<close>): administrator-authored rules
  that attach a credential provider to exact tool versions of one tenant and connector instance.
\<close>

type_synonym CredentialCapabilityKind = string
definition CapabilityOAuthAccessToken :: CredentialCapabilityKind where
  "CapabilityOAuthAccessToken = ''oauth_access_token''"
definition CapabilityAPIToken :: CredentialCapabilityKind where
  "CapabilityAPIToken = ''api_token''"
definition CapabilityMTLS :: CredentialCapabilityKind where "CapabilityMTLS = ''mtls''"
definition CapabilitySignedRequest :: CredentialCapabilityKind where
  "CapabilitySignedRequest = ''signed_request''"

type_synonym SubjectDelegationMode = string
definition DelegationNone :: SubjectDelegationMode where "DelegationNone = ''none''"
definition DelegationTokenExchange :: SubjectDelegationMode where
  "DelegationTokenExchange = ''token_exchange''"

lemmas capability_defs =
  CapabilityOAuthAccessToken_def CapabilityAPIToken_def CapabilityMTLS_def
  CapabilitySignedRequest_def DelegationNone_def DelegationTokenExchange_def

record CredentialToolSelector =
  cts_ToolID :: ToolID
  cts_Version :: SemanticVersion
  cts_CredentialSelector :: string

record CredentialProviderBinding =
  cpb_ProviderType :: string
  cpb_ProviderRef :: string
  cpb_Capability :: CredentialCapabilityKind
  cpb_Audiences :: "string list"
  cpb_Resources :: "string list"
  cpb_Scopes :: "string list"

record SubjectDelegationPolicy =
  sdp_Mode :: SubjectDelegationMode
  sdp_TrustedIssuer :: string

record CredentialCachePolicy =
  ccp_MaximumTTL :: duration
  ccp_ExpirySkew :: duration

record CredentialBindingDefinition =
  cbd_ID :: UUID
  cbd_TenantID :: UUID
  cbd_ConnectorInstanceID :: UUID
  cbd_ToolSelectors :: "CredentialToolSelector list"
  cbd_Provider :: CredentialProviderBinding
  cbd_Delegation :: SubjectDelegationPolicy
  cbd_Cache :: CredentialCachePolicy
  cbd_RevocationEpoch :: string
  cbd_PolicyTags :: "string list"
  cbd_Enabled :: bool

definition zero_UUID :: UUID where
  "zero_UUID = replicate 16 0"

definition validSafeReference :: "string \<Rightarrow> nat \<Rightarrow> bool" where
  "validSafeReference value maximum = bounded_text maximum [CHR 0x00, CHR 0x0D, CHR 0x0A] value"

definition optionalSafeReference :: "string \<Rightarrow> nat \<Rightarrow> bool" where
  "optionalSafeReference value maximum \<longleftrightarrow> value = [] \<or> validSafeReference value maximum"

definition validCapabilityKind :: "CredentialCapabilityKind \<Rightarrow> bool" where
  "validCapabilityKind kind \<longleftrightarrow> kind = CapabilityOAuthAccessToken \<or> kind = CapabilityAPIToken
     \<or> kind = CapabilityMTLS \<or> kind = CapabilitySignedRequest"

definition validateStringSet :: "string \<Rightarrow> string list \<Rightarrow> nat \<Rightarrow> nat \<Rightarrow> goerror option" where
  "validateStringSet name values maximumCount maximumLength = first_err
     [fail_if (length values > maximumCount) (ErrNew (name @ '' exceed the configured bound'')),
      each_seen (\<lambda>seen value. first_err
        [fail_if (\<not> validSafeReference value maximumLength)
           (ErrNew (name @ '' contain an invalid value'')),
         fail_if (value \<in> set seen) (ErrNew (name @ '' contain a duplicate value''))]) [] values]"

definition selector_key :: "CredentialToolSelector \<Rightarrow> string" where
  "selector_key selector = cts_ToolID selector @ [CHR 0x00]
     @ SemanticVersion_String (cts_Version selector) @ [CHR 0x00] @ cts_CredentialSelector selector"

definition validateSelector ::
  "CredentialToolSelector list \<Rightarrow> CredentialToolSelector \<Rightarrow> goerror option" where
  "validateSelector seen selector = first_err
     [fail_if (result_err (ParseToolID (cts_ToolID selector)) \<noteq> None)
        (ErrNew ''credential binding contains an invalid tool selector''),
      fail_if (result_err (ParseSemanticVersion (SemanticVersion_String (cts_Version selector))) \<noteq> None
          \<or> \<not> validRegistryKey (cts_CredentialSelector selector))
        (ErrNew ''credential binding contains an invalid tool selector''),
      fail_if (selector_key selector \<in> set (map selector_key seen))
        (ErrNew ''credential binding contains a duplicate tool selector'')]"

definition ValidateCredentialBindingDefinition ::
  "CredentialBindingDefinition \<Rightarrow> goerror option" where
  "ValidateCredentialBindingDefinition definition =
     (let provider = cbd_Provider definition; delegation = cbd_Delegation definition;
          cache = cbd_Cache definition in first_err
     [fail_if (cbd_ID definition = zero_UUID \<or> cbd_TenantID definition = zero_UUID
          \<or> cbd_ConnectorInstanceID definition = zero_UUID)
        (ErrNew ''credential binding, tenant, and connector instance IDs are required''),
      fail_if (cbd_ToolSelectors definition = [] \<or> length (cbd_ToolSelectors definition) > 64)
        (ErrNew ''credential binding requires between 1 and 64 tool selectors''),
      each_seen validateSelector [] (cbd_ToolSelectors definition),
      fail_if (\<not> validRegistryKey (cpb_ProviderType provider)
          \<or> \<not> validSafeReference (cpb_ProviderRef provider) 512
          \<or> \<not> validCapabilityKind (cpb_Capability provider))
        (ErrNew ''credential provider binding is invalid''),
      validateStringSet ''audiences'' (cpb_Audiences provider) 32 512,
      validateStringSet ''resources'' (cpb_Resources provider) 32 512,
      validateStringSet ''scopes'' (cpb_Scopes provider) 64 256,
      fail_if (cpb_Capability provider = CapabilityOAuthAccessToken
          \<and> cpb_Audiences provider = [] \<and> cpb_Resources provider = [])
        (ErrNew ''OAuth capability requires an audience or resource''),
      fail_if (sdp_Mode delegation \<noteq> DelegationNone \<and> sdp_Mode delegation \<noteq> DelegationTokenExchange)
        (ErrNew ''subject delegation mode is invalid''),
      fail_if (sdp_Mode delegation = DelegationTokenExchange
          \<and> \<not> validSafeReference (sdp_TrustedIssuer delegation) 512)
        (ErrNew ''delegated credentials require a trusted subject issuer''),
      fail_if (sdp_Mode delegation = DelegationNone \<and> sdp_TrustedIssuer delegation \<noteq> [])
        (ErrNew ''non-delegated credentials cannot declare a subject issuer''),
      fail_if (ccp_MaximumTTL cache < 0 \<or> ccp_MaximumTTL cache > 24 * Hour
          \<or> ccp_ExpirySkew cache < 0 \<or> ccp_ExpirySkew cache > ccp_MaximumTTL cache)
        (ErrNew ''credential cache policy is invalid''),
      fail_if (\<not> optionalSafeReference (cbd_RevocationEpoch definition) 256)
        (ErrNew ''credential revocation epoch is invalid''),
      validateStringSet ''policy tags'' (cbd_PolicyTags definition) 32 128])"

text \<open>A binding is its validated definition; slices are copied, which keeps their values.\<close>

datatype CredentialBinding = CredentialBinding CredentialBindingDefinition

fun binding_Definition :: "CredentialBinding \<Rightarrow> CredentialBindingDefinition" where
  "binding_Definition (CredentialBinding d) = d"

definition NewCredentialBinding :: "CredentialBindingDefinition \<Rightarrow> CredentialBinding result" where
  "NewCredentialBinding definition =
     ensure (ValidateCredentialBindingDefinition definition) (Inr (CredentialBinding definition))"

section \<open>What an accepted binding satisfies\<close>

lemma validateStringSet_None:
  assumes "validateStringSet name xs count len = None"
  shows "length xs \<le> count" "distinct xs" "\<forall>x \<in> set xs. validSafeReference x len"
proof -
  from assms have each: "each_seen (\<lambda>seen value. first_err
        [fail_if (\<not> validSafeReference value len) (ErrNew (name @ '' contain an invalid value'')),
         fail_if (value \<in> set seen) (ErrNew (name @ '' contain a duplicate value''))]) [] xs = None"
    and count: "length xs \<le> count"
    by (auto simp: validateStringSet_def)
  show "length xs \<le> count" by (rule count)
  from each_seen_distinct [OF each, of "\<lambda>x. x"] show "distinct xs" by simp
  from each_seen_None_elem [OF each] show "\<forall>x \<in> set xs. validSafeReference x len" by auto
qed

text \<open>No identifier of the key contains the separator, so the joined key is injective.\<close>

lemma tool_id_no_nul: "ParseToolID s = Inr t \<Longrightarrow> CHR 0x00 \<notin> set s"
proof -
  assume "ParseToolID s = Inr t"
  then have "MatchString toolIDPattern s" by (auto simp: ParseToolID_def split: if_splits)
  moreover have "\<not> re_allows toolIDPattern CHR 0x00"
    by (simp add: toolIDPattern_def re_eval)
  ultimately show ?thesis using MatchString_excludes by blast
qed

lemma semver_id_no_nul: "MatchString semverIDPattern s \<Longrightarrow> CHR 0x00 \<notin> set s"
  by (erule MatchString_excludes [rotated]) (simp add: semverIDPattern_def re_eval)

lemma semver_ids_no_nul: "validSemverIdentifiers s b \<Longrightarrow> CHR 0x00 \<notin> set s"
proof -
  assume "validSemverIdentifiers s b"
  then have "\<forall>p \<in> set (Split s CHR ''.''). CHR 0x00 \<notin> set p"
    using semver_id_no_nul by (auto simp: validSemverIdentifiers_def list_all_iff)
  then show ?thesis using set_via_Split [of s "CHR ''.''"] by auto
qed

lemma semver_no_nul: "ParseSemanticVersion s = Inr v \<Longrightarrow> CHR 0x00 \<notin> set s"
proof -
  assume parsed: "ParseSemanticVersion s = Inr v"
  obtain precedence build hasBuild where cut1: "Cut s CHR ''+'' = (precedence, build, hasBuild)"
    by (metis prod_cases3)
  obtain core pre hasPre where cut2: "Cut precedence CHR ''-'' = (core, pre, hasPre)"
    by (metis prod_cases3)
  from parsed cut1 cut2 have ok: "hasBuild \<longrightarrow> validSemverIdentifiers build False"
    "hasPre \<longrightarrow> validSemverIdentifiers pre True" "MatchString semverCorePattern core"
    by (auto simp: ParseSemanticVersion_def Let_def split: if_splits)
  have "CHR 0x00 \<notin> set core"
    using ok(3) by (rule MatchString_excludes [rotated])
      (simp add: semverCorePattern_def semverNumber_def re_eval)
  with cut2 ok(2) have "CHR 0x00 \<notin> set precedence"
    using Cut_found [of precedence] Cut_not_found [of precedence] semver_ids_no_nul
    by (cases hasPre) fastforce+
  with cut1 ok(1) show ?thesis
    using Cut_found [of s] Cut_not_found [of s] semver_ids_no_nul by (cases hasBuild) fastforce+
qed

lemma selector_key_inject:
  assumes "validateSelector xs a = None" "validateSelector ys b = None"
    and "selector_key a = selector_key b"
  shows "cts_ToolID a = cts_ToolID b
    \<and> SemanticVersion_String (cts_Version a) = SemanticVersion_String (cts_Version b)
    \<and> cts_CredentialSelector a = cts_CredentialSelector b"
proof -
  from assms(1) have "CHR 0x00 \<notin> set (cts_ToolID a)"
    "CHR 0x00 \<notin> set (SemanticVersion_String (cts_Version a))"
    using tool_id_no_nul semver_no_nul by (auto simp: validateSelector_def)
  moreover from assms(2) have "CHR 0x00 \<notin> set (cts_ToolID b)"
    "CHR 0x00 \<notin> set (SemanticVersion_String (cts_Version b))"
    using tool_id_no_nul semver_no_nul by (auto simp: validateSelector_def)
  ultimately show ?thesis
    using assms(3) by (simp add: selector_key_def append_sep_inject)
qed

end
