(* ===== verification/Credential_Cache.thy ===== *)
theory Credential_Cache
  imports Credential_Binding "HOL-Library.AList" "HOL-Library.Multiset"
begin

text \<open>
  Credential capabilities (\<open>internal/credentials/capability.go\<close>) and the provider cache
  (\<open>internal/credentials/cache.go\<close>). Capabilities the cache owns live in a store of objects, addressed
  by position, so that a capability released by one goroutine while another is about to clone it is
  visible in the model. \<open>Resolve\<close> is a machine whose steps are the critical sections of the source and
  the calls between them; any number of calls interleave with the eviction operations. Clock readings
  and the provider's answers are inputs of each step. Go's map iteration order is the order of the
  association list.
\<close>

section \<open>Capabilities\<close>

record CredentialCapabilityMetadata =
  cm_Kind :: CredentialCapabilityKind
  cm_ProviderRef :: string
  cm_Issuer :: string
  cm_Audiences :: "string list"
  cm_Resources :: "string list"
  cm_Scopes :: "string list"
  cm_IssuedAt :: instant
  cm_ExpiresAt :: instant
  cm_LeaseID :: string
  cm_RefreshID :: string
  cm_RevocationEpoch :: string

record Capability =
  cap_metadata :: CredentialCapabilityMetadata
  cap_secret :: bytes
  cap_released :: bool

definition safe :: "string \<Rightarrow> nat \<Rightarrow> bool" where
  "safe text maximum = bounded_text maximum [CHR 0x00, CHR 0x0D, CHR 0x0A] text"

definition optionalSafe :: "string \<Rightarrow> nat \<Rightarrow> bool" where
  "optionalSafe text maximum \<longleftrightarrow> text = [] \<or> safe text maximum"

definition validateSet :: "string list \<Rightarrow> nat \<Rightarrow> nat \<Rightarrow> goerror option" where
  "validateSet values maximumCount maximumLength = first_err
     [fail_if (length values > maximumCount) (ErrNew ''credential capability target metadata exceeds bounds''),
      each_seen (\<lambda>seen item. first_err
        [fail_if (\<not> safe item maximumLength) (ErrNew ''credential capability target metadata is invalid''),
         fail_if (item \<in> set seen) (ErrNew ''credential capability target metadata contains duplicates'')])
        [] values]"

definition validateMetadata :: "CredentialCapabilityMetadata \<Rightarrow> instant \<Rightarrow> goerror option" where
  "validateMetadata m now = first_err
     [fail_if (cm_Kind m \<noteq> CapabilityOAuthAccessToken \<and> cm_Kind m \<noteq> CapabilityAPIToken
          \<and> cm_Kind m \<noteq> CapabilityMTLS \<and> cm_Kind m \<noteq> CapabilitySignedRequest)
        (ErrNew ''credential capability kind is invalid''),
      fail_if (\<not> safe (cm_ProviderRef m) 512 \<or> \<not> optionalSafe (cm_Issuer m) 512 \<or> IsZero (cm_IssuedAt m)
          \<or> IsZero (cm_ExpiresAt m) \<or> \<not> cm_ExpiresAt m > cm_IssuedAt m \<or> \<not> now < cm_ExpiresAt m)
        (ErrNew ''credential capability lifetime or provider metadata is invalid''),
      validateSet (cm_Audiences m) 32 512,
      validateSet (cm_Resources m) 32 512,
      validateSet (cm_Scopes m) 64 256,
      fail_if (cm_Kind m = CapabilityOAuthAccessToken \<and> cm_Audiences m = [] \<and> cm_Resources m = [])
        (ErrNew ''OAuth capability requires an audience or resource''),
      fail_if (\<not> list_all (\<lambda>reference. optionalSafe reference 512)
          [cm_LeaseID m, cm_RefreshID m, cm_RevocationEpoch m])
        (ErrNew ''credential capability lifecycle metadata is invalid'')]"

definition NewCapability :: "CredentialCapabilityMetadata \<Rightarrow> bytes \<Rightarrow> instant \<Rightarrow> Capability result" where
  "NewCapability m secret now =
     ensure (first_err
       [fail_if (secret = [] \<or> length secret > 65536) (ErrNew ''credential capability material is invalid''),
        validateMetadata m now])
       (Inr \<lparr>cap_metadata = m, cap_secret = secret, cap_released = False\<rparr>)"

definition UseSecret :: "Capability \<Rightarrow> instant \<Rightarrow> (bytes \<Rightarrow> 'a result) \<Rightarrow> 'a result" where
  "UseSecret c now callback =
     ensure (first_err
       [fail_if (cap_released c) (ErrNew ''credential capability is released''),
        fail_if (\<not> now < cm_ExpiresAt (cap_metadata c)) (ErrNew ''credential capability is expired'')])
       (callback (cap_secret c))"

definition Release :: "Capability \<Rightarrow> Capability" where
  "Release c = c\<lparr>cap_secret := [], cap_released := True,
     cap_metadata := (cap_metadata c)\<lparr>cm_LeaseID := [], cm_RefreshID := []\<rparr>\<rparr>"

text \<open>Every formatting and serialization method answers the same text.\<close>

definition redacted :: string where "redacted = ''[REDACTED]''"

definition Capability_String :: "Capability \<Rightarrow> string" where
  "Capability_String c = redacted"

section \<open>The cache key\<close>

record CredentialProviderContext =
  cpc_Subject :: string
  cpc_RunID :: string

definition writeCachePart :: "string list \<Rightarrow> bytes" where
  "writeCachePart values = concat (map (\<lambda>v. be_bytes 8 (length v) @ bytes_of_string v) values)"

definition FormatBool :: "bool \<Rightarrow> string" where
  "FormatBool b = (if b then ''true'' else ''false'')"

definition cache_key_context :: "CredentialBindingDefinition \<Rightarrow> CredentialProviderContext \<Rightarrow> string \<Rightarrow> string list" where
  "cache_key_context d g providerEpoch =
     [UUID_String (cbd_ID d), UUID_String (cbd_TenantID d), UUID_String (cbd_ConnectorInstanceID d),
      cpb_ProviderType (cbd_Provider d), cpb_ProviderRef (cbd_Provider d), cpb_Capability (cbd_Provider d),
      sdp_Mode (cbd_Delegation d), sdp_TrustedIssuer (cbd_Delegation d),
      cbd_RevocationEpoch d, FormatBool (cbd_Enabled d), Itoa (ccp_MaximumTTL (cbd_Cache d)),
      Itoa (ccp_ExpirySkew (cbd_Cache d)),
      cpc_Subject g, cpc_RunID g, providerEpoch]"

definition selector_parts :: "CredentialToolSelector \<Rightarrow> string list" where
  "selector_parts s = [cts_ToolID s, SemanticVersion_String (cts_Version s), cts_CredentialSelector s]"

definition cache_key_targets :: "CredentialBindingDefinition \<Rightarrow> string list" where
  "cache_key_targets d = concat (map selector_parts (cbd_ToolSelectors d)) @ cpb_Audiences (cbd_Provider d)
     @ cpb_Resources (cbd_Provider d) @ cpb_Scopes (cbd_Provider d) @ cbd_PolicyTags d"

definition cache_preimage :: "CredentialBindingDefinition \<Rightarrow> CredentialProviderContext \<Rightarrow> string \<Rightarrow> bytes" where
  "cache_preimage d g providerEpoch =
     writeCachePart (cache_key_context d g providerEpoch)
     @ concat (map (\<lambda>s. writeCachePart (selector_parts s)) (cbd_ToolSelectors d))
     @ writeCachePart (cpb_Audiences (cbd_Provider d)) @ writeCachePart (cpb_Resources (cbd_Provider d))
     @ writeCachePart (cpb_Scopes (cbd_Provider d)) @ writeCachePart (cbd_PolicyTags d)"

definition credentialCacheKey :: "CredentialBindingDefinition \<Rightarrow> CredentialProviderContext \<Rightarrow> string \<Rightarrow> bytes" where
  "credentialCacheKey d g providerEpoch = Sum256 (cache_preimage d g providerEpoch)"

definition validCacheText :: "string \<Rightarrow> bool" where
  "validCacheText text = bounded_text 512 [CHR 0x00, CHR 0x0D, CHR 0x0A] text"

definition optionalCacheText :: "string \<Rightarrow> bool" where
  "optionalCacheText text \<longleftrightarrow> text = [] \<or> validCacheText text"

definition validCacheContext :: "CredentialProviderContext \<Rightarrow> bool" where
  "validCacheContext g \<longleftrightarrow> validCacheText (cpc_Subject g) \<and> validCacheText (cpc_RunID g)"

section \<open>Cache state\<close>

record CacheConfig =
  cch_MaxEntries :: int
  cch_MaximumTTL :: duration
  cch_ExpirySkew :: duration

record cachedCapability =
  cc_source :: nat
  cc_expiresAt :: instant
  cc_tenantID :: UUID
  cc_bindingID :: UUID
  cc_runID :: string
  cc_providerType :: string
  cc_revocationEpoch :: string
  cc_lastUsed :: "64 word"

record ProviderCache =
  pc_store :: "Capability list"
  pc_entries :: "(bytes \<times> cachedCapability) list"
  pc_inflight :: "(bytes \<times> nat) list"
  pc_channels :: nat
  pc_providerEpochs :: "(string \<times> string) list"
  pc_sequence :: "64 word"
  pc_closed :: bool

definition empty_cache :: ProviderCache where
  "empty_cache = \<lparr>pc_store = [], pc_entries = [], pc_inflight = [], pc_channels = 0,
     pc_providerEpochs = [], pc_sequence = 0, pc_closed = False\<rparr>"

definition NewProviderCache ::
  "'p option \<Rightarrow> 'c option \<Rightarrow> CacheConfig \<Rightarrow> ProviderCache result" where
  "NewProviderCache provider clock cfg =
     ensure (fail_if (provider = None \<or> clock = None \<or> cch_MaxEntries cfg < 1 \<or> cch_MaxEntries cfg > 10000
         \<or> cch_MaximumTTL cfg \<le> 0 \<or> cch_MaximumTTL cfg > 24 * Hour \<or> cch_ExpirySkew cfg < 0
         \<or> cch_ExpirySkew cfg \<ge> cch_MaximumTTL cfg)
       (ErrNew ''credential cache configuration is invalid''))
       (Inr empty_cache)"

text \<open>A missing key of a Go map of strings reads as the empty string.\<close>

definition ProviderEpoch :: "ProviderCache \<Rightarrow> string \<Rightarrow> string" where
  "ProviderEpoch s providerType =
     (case map_of (pc_providerEpochs s) providerType of None \<Rightarrow> [] | Some e \<Rightarrow> e)"

section \<open>Removing entries\<close>

definition release_at :: "nat \<Rightarrow> Capability list \<Rightarrow> Capability list" where
  "release_at a store = (if a < length store then store[a := Release (store ! a)] else store)"

text \<open>The loop shared by every eviction: release the source of each matching entry and delete it.\<close>

definition remove_where :: "(bytes \<times> cachedCapability \<Rightarrow> bool) \<Rightarrow> ProviderCache \<Rightarrow> ProviderCache" where
  "remove_where P s =
     s\<lparr>pc_store := foldl (\<lambda>store x. release_at (cc_source (snd x)) store) (pc_store s) (filter P (pc_entries s)),
       pc_entries := filter (\<lambda>x. \<not> P x) (pc_entries s)\<rparr>"

definition EvictBinding :: "UUID \<Rightarrow> UUID \<Rightarrow> ProviderCache \<Rightarrow> ProviderCache" where
  "EvictBinding tenantID bindingID =
     remove_where (\<lambda>(_, e). cc_tenantID e = tenantID \<and> cc_bindingID e = bindingID)"

definition EvictRun :: "UUID \<Rightarrow> string \<Rightarrow> ProviderCache \<Rightarrow> ProviderCache" where
  "EvictRun tenantID runID = remove_where (\<lambda>(_, e). cc_tenantID e = tenantID \<and> cc_runID e = runID)"

definition SetProviderEpoch :: "string \<Rightarrow> string \<Rightarrow> ProviderCache \<Rightarrow> goerror option \<times> ProviderCache" where
  "SetProviderEpoch providerType epoch s =
     (if \<not> validCacheText providerType \<or> \<not> optionalCacheText epoch
      then (Some (ErrNew ''credential provider epoch is invalid''), s)
      else if pc_closed s then (Some (ErrNew ''credential cache is closed''), s)
      else if ProviderEpoch s providerType = epoch then (None, s)
      else (None, remove_where (\<lambda>(_, e). cc_providerType e = providerType)
        (s\<lparr>pc_providerEpochs := AList.update providerType epoch (pc_providerEpochs s)\<rparr>)))"

definition Cache_Close :: "ProviderCache \<Rightarrow> ProviderCache" where
  "Cache_Close s = remove_where (\<lambda>_. True) (s\<lparr>pc_closed := True\<rparr>)"

definition removeExpiredLocked :: "instant \<Rightarrow> ProviderCache \<Rightarrow> ProviderCache" where
  "removeExpiredLocked now = remove_where (\<lambda>(_, e). \<not> now < cc_expiresAt e)"

definition removeRevokedLocked :: "CredentialBindingDefinition \<Rightarrow> ProviderCache \<Rightarrow> ProviderCache" where
  "removeRevokedLocked d = remove_where (\<lambda>(_, e). cc_tenantID e = cbd_TenantID d
     \<and> cc_bindingID e = cbd_ID d \<and> cc_revocationEpoch e \<noteq> cbd_RevocationEpoch d)"

text \<open>The entry is recognised by its source: no two entries share one.\<close>

definition removeEntry :: "bytes \<Rightarrow> nat \<Rightarrow> ProviderCache \<Rightarrow> ProviderCache" where
  "removeEntry key a = remove_where (\<lambda>(k, e). k = key \<and> cc_source e = a)"

definition oldest_key :: "(bytes \<times> cachedCapability) list \<Rightarrow> bytes" where
  "oldest_key es =
     fst (foldl (\<lambda>best x. if cc_lastUsed (snd x) < cc_lastUsed (snd best) then x else best) (hd es) (tl es))"

fun evict_loop :: "nat \<Rightarrow> int \<Rightarrow> ProviderCache \<Rightarrow> ProviderCache" where
  "evict_loop 0 maximum s = s"
| "evict_loop (Suc n) maximum s =
     (if int (length (pc_entries s)) > maximum
      then evict_loop n maximum (remove_where (\<lambda>(k, _). k = oldest_key (pc_entries s)) s)
      else s)"

text \<open>Each round removes an entry, so as many rounds as there are entries suffice.\<close>

definition evictLRULocked :: "CacheConfig \<Rightarrow> ProviderCache \<Rightarrow> ProviderCache" where
  "evictLRULocked cfg s = evict_loop (length (pc_entries s)) (cch_MaxEntries cfg) s"

section \<open>Resolve\<close>

definition metadata_matches :: "CredentialBindingDefinition \<Rightarrow> CredentialCapabilityMetadata \<Rightarrow> bool" where
  "metadata_matches d m \<longleftrightarrow>
     cm_Kind m = cpb_Capability (cbd_Provider d) \<and> cm_ProviderRef m = cpb_ProviderRef (cbd_Provider d)
     \<and> cm_RevocationEpoch m = cbd_RevocationEpoch d \<and> cm_Audiences m = cpb_Audiences (cbd_Provider d)
     \<and> cm_Resources m = cpb_Resources (cbd_Provider d) \<and> cm_Scopes m = cpb_Scopes (cbd_Provider d)"

definition cache_expiry :: "CacheConfig \<Rightarrow> CredentialBindingDefinition \<Rightarrow> CredentialCapabilityMetadata \<Rightarrow> instant \<Rightarrow> instant" where
  "cache_expiry cfg d m now =
     (let policy = cbd_Cache d;
          ttl = (if ccp_MaximumTTL policy > 0 \<and> ccp_MaximumTTL policy < cch_MaximumTTL cfg
                 then ccp_MaximumTTL policy else cch_MaximumTTL cfg);
          skew = (if ccp_ExpirySkew policy > cch_ExpirySkew cfg then ccp_ExpirySkew policy else cch_ExpirySkew cfg);
          expiresAt = cm_ExpiresAt m - skew in
      if now + ttl < expiresAt then now + ttl else expiresAt)"

definition prepareEntry ::
  "CacheConfig \<Rightarrow> (nat \<times> Capability) option result \<Rightarrow> CredentialBindingDefinition \<Rightarrow> CredentialProviderContext
     \<Rightarrow> instant \<Rightarrow> cachedCapability result" where
  "prepareEntry cfg source d g now =
     (case source of
        Inl _ \<Rightarrow> Inl (ErrNew ''credential provider resolution failed'')
      | Inr None \<Rightarrow> Inl (ErrNew ''credential provider returned no capability'')
      | Inr (Some (a, c)) \<Rightarrow>
          if \<not> metadata_matches d (cap_metadata c)
          then Inl (ErrNew ''credential provider returned mismatched capability metadata'')
          else if \<not> now < cache_expiry cfg d (cap_metadata c) now
          then Inl (ErrNew ''credential provider capability cannot be cached safely'')
          else Inr \<lparr>cc_source = a, cc_expiresAt = cache_expiry cfg d (cap_metadata c) now,
            cc_tenantID = cbd_TenantID d, cc_bindingID = cbd_ID d, cc_runID = cpc_RunID g,
            cc_providerType = cpb_ProviderType (cbd_Provider d),
            cc_revocationEpoch = cbd_RevocationEpoch d, cc_lastUsed = 0\<rparr>)"

definition cloneCapability :: "Capability \<Rightarrow> instant \<Rightarrow> instant \<Rightarrow> Capability result" where
  "cloneCapability source now now' =
     map_error (\<lambda>_. ErrNew ''credential cache source is unusable'')
       (UseSecret source now (\<lambda>secret. NewCapability (cap_metadata source) secret now'))"

text \<open>
  Where a call of \<open>Resolve\<close> stands: about to validate, at the head of the loop, cloning a cached source,
  waiting for another loader's channel, calling the provider, about to store what it answered, cloning
  the stored source, removing an entry that could not be cloned (before another turn of the loop or an
  error), or finished.
\<close>

datatype phase =
    Entering
  | Looking
  | Cloning bytes nat
  | Waiting nat
  | Loading bytes nat string
  | Loaded bytes nat string "nat option" "cachedCapability result"
  | Finishing bytes nat
  | Dropping bytes nat "goerror option"
  | Returned "Capability result"

record inputs =
  in_now :: instant
  in_now' :: instant
  in_cancelled :: bool
  in_answer :: "Capability option result"

definition resolve_enter :: "CredentialBindingDefinition \<Rightarrow> CredentialProviderContext \<Rightarrow> phase" where
  "resolve_enter d g =
     (if \<not> validCacheContext g then Returned (Inl (ErrNew ''credential cache resolution context is invalid''))
      else if ValidateCredentialBindingDefinition d \<noteq> None \<or> \<not> cbd_Enabled d
      then Returned (Inl (ErrNew ''credential cache binding is invalid''))
      else Looking)"

definition resolve_miss :: "bytes \<Rightarrow> string \<Rightarrow> ProviderCache \<Rightarrow> phase \<times> ProviderCache" where
  "resolve_miss key epoch s =
     (case map_of (pc_inflight s) key of
        Some ready \<Rightarrow> (Waiting ready, s)
      | None \<Rightarrow>
          (Loading key (pc_channels s) epoch,
           s\<lparr>pc_inflight := (key, pc_channels s) # pc_inflight s, pc_channels := pc_channels s + 1\<rparr>))"

definition resolve_hit :: "bytes \<Rightarrow> cachedCapability \<Rightarrow> ProviderCache \<Rightarrow> phase \<times> ProviderCache" where
  "resolve_hit key e s =
     (Cloning key (cc_source e),
      s\<lparr>pc_sequence := pc_sequence s + 1,
        pc_entries := AList.update key (e\<lparr>cc_lastUsed := pc_sequence s + 1\<rparr>) (pc_entries s)\<rparr>)"

definition resolve_lookup ::
  "CredentialBindingDefinition \<Rightarrow> CredentialProviderContext \<Rightarrow> instant \<Rightarrow> ProviderCache \<Rightarrow> phase \<times> ProviderCache" where
  "resolve_lookup d g now s0 =
     (if pc_closed s0 then (Returned (Inl (ErrNew ''credential cache is closed'')), s0)
      else
        (let epoch = ProviderEpoch s0 (cpb_ProviderType (cbd_Provider d));
             key = credentialCacheKey d g epoch;
             s = removeExpiredLocked now (removeRevokedLocked d s0) in
         case map_of (pc_entries s) key of
           Some e \<Rightarrow> if now < cc_expiresAt e then resolve_hit key e s else resolve_miss key epoch s
         | None \<Rightarrow> resolve_miss key epoch s))"

definition resolve_load ::
  "CacheConfig \<Rightarrow> CredentialBindingDefinition \<Rightarrow> CredentialProviderContext \<Rightarrow> instant
     \<Rightarrow> Capability option result \<Rightarrow> bytes \<Rightarrow> nat \<Rightarrow> string \<Rightarrow> ProviderCache \<Rightarrow> phase \<times> ProviderCache" where
  "resolve_load cfg d g now answer key ready epoch s =
     (let a = length (pc_store s);
          source = (case answer of Inr (Some c) \<Rightarrow> Inr (Some (a, c)) | Inr None \<Rightarrow> Inr None | Inl e \<Rightarrow> Inl e) in
      (Loaded key ready epoch (case answer of Inr (Some c) \<Rightarrow> Some a | _ \<Rightarrow> None)
         (prepareEntry cfg source d g now),
       (case answer of Inr (Some c) \<Rightarrow> s\<lparr>pc_store := pc_store s @ [c]\<rparr> | _ \<Rightarrow> s)))"

definition release_source :: "nat option \<Rightarrow> ProviderCache \<Rightarrow> ProviderCache" where
  "release_source source s =
     (case source of None \<Rightarrow> s | Some a \<Rightarrow> s\<lparr>pc_store := release_at a (pc_store s)\<rparr>)"

definition resolve_store ::
  "CacheConfig \<Rightarrow> CredentialBindingDefinition \<Rightarrow> bytes \<Rightarrow> string \<Rightarrow> nat option \<Rightarrow> cachedCapability result
     \<Rightarrow> ProviderCache \<Rightarrow> phase \<times> ProviderCache" where
  "resolve_store cfg d key epoch source prepared s0 =
     (let s = s0\<lparr>pc_inflight := filter (\<lambda>(k, _). k \<noteq> key) (pc_inflight s0)\<rparr> in
      case prepared of
        Inl err \<Rightarrow> (Returned (Inl err), release_source source s)
      | Inr e \<Rightarrow>
          if \<not> pc_closed s \<and> ProviderEpoch s (cpb_ProviderType (cbd_Provider d)) = epoch
          then (Finishing key (cc_source e),
                evictLRULocked cfg (s\<lparr>pc_sequence := pc_sequence s + 1,
                  pc_entries := AList.update key (e\<lparr>cc_lastUsed := pc_sequence s + 1\<rparr>) (pc_entries s)\<rparr>))
          else (Returned (Inl (ErrNew ''credential cache changed during resolution'')), release_source source s))"

fun resolve_step ::
  "CacheConfig \<Rightarrow> CredentialBindingDefinition \<Rightarrow> CredentialProviderContext \<Rightarrow> inputs \<Rightarrow> phase
     \<Rightarrow> ProviderCache \<Rightarrow> (phase \<times> ProviderCache) option" where
  "resolve_step cfg d g i Entering s = Some (resolve_enter d g, s)"
| "resolve_step cfg d g i Looking s = Some (resolve_lookup d g (in_now i) s)"
| "resolve_step cfg d g i (Cloning key a) s =
     (case cloneCapability (pc_store s ! a) (in_now i) (in_now' i) of
        Inr c \<Rightarrow> Some (Returned (Inr c), s)
      | Inl _ \<Rightarrow> Some (Dropping key a None, s))"
| "resolve_step cfg d g i (Waiting ready) s =
     (if in_cancelled i
      then Some (Returned (Inl (ErrNew ''credential cache resolution was cancelled'')), s)
      else if ready \<notin> snd ` set (pc_inflight s) then Some (Looking, s)
      else None)"
| "resolve_step cfg d g i (Loading key ready epoch) s =
     Some (resolve_load cfg d g (in_now i) (in_answer i) key ready epoch s)"
| "resolve_step cfg d g i (Loaded key ready epoch source prepared) s =
     Some (resolve_store cfg d key epoch source prepared s)"
| "resolve_step cfg d g i (Finishing key a) s =
     (case cloneCapability (pc_store s ! a) (in_now i) (in_now' i) of
        Inr c \<Rightarrow> Some (Returned (Inr c), s)
      | Inl _ \<Rightarrow> Some (Dropping key a (Some (ErrNew ''credential cache could not clone capability'')), s))"
| "resolve_step cfg d g i (Dropping key a failure) s =
     Some (case failure of None \<Rightarrow> Looking | Some err \<Rightarrow> Returned (Inl err), removeEntry key a s)"
| "resolve_step cfg d g i (Returned r) s = None"

section \<open>Interleavings\<close>

text \<open>
  The provider is a relation: which capabilities it may answer for a binding and a context. What it
  answers is handed over to the caller, unreleased.
\<close>

type_synonym provider = "CredentialBindingDefinition \<Rightarrow> CredentialProviderContext \<Rightarrow> Capability \<Rightarrow> bool"

type_synonym resolve_call = "CredentialBindingDefinition \<times> CredentialProviderContext \<times> phase"

inductive cache_step ::
  "CacheConfig \<Rightarrow> provider \<Rightarrow> resolve_call list \<times> ProviderCache \<Rightarrow> resolve_call list \<times> ProviderCache \<Rightarrow> bool"
  for cfg :: CacheConfig and provider :: provider where
  arrives: "cache_step cfg provider (ts, s) (ts @ [(d, g, Entering)], s)"
| runs: "n < length ts \<Longrightarrow> ts ! n = (d, g, p) \<Longrightarrow>
    (\<And>c. in_answer i = Inr (Some c) \<Longrightarrow> provider d g c \<and> \<not> cap_released c) \<Longrightarrow>
    resolve_step cfg d g i p s = Some (p', s') \<Longrightarrow> cache_step cfg provider (ts, s) (ts[n := (d, g, p')], s')"
| evicts_binding: "cache_step cfg provider (ts, s) (ts, EvictBinding tenant binding s)"
| evicts_run: "cache_step cfg provider (ts, s) (ts, EvictRun tenant run s)"
| sets_epoch: "cache_step cfg provider (ts, s) (ts, snd (SetProviderEpoch providerType epoch s))"
| closes: "cache_step cfg provider (ts, s) (ts, Cache_Close s)"

section \<open>Ownership of capabilities\<close>

definition live :: "Capability list \<Rightarrow> nat set" where
  "live store = {a. a < length store \<and> \<not> cap_released (store ! a)}"

abbreviation sources :: "(bytes \<times> cachedCapability) list \<Rightarrow> nat multiset" where
  "sources es \<equiv> mset (map (\<lambda>x. cc_source (snd x)) es)"

fun held :: "resolve_call \<Rightarrow> nat multiset" where
  "held (d, g, Loaded key ready epoch (Some a) prepared) = {#a#}"
| "held (d, g, p) = {#}"

fun flight :: "resolve_call \<Rightarrow> (bytes \<times> nat) multiset" where
  "flight (d, g, Loading key ready epoch) = {#(key, ready)#}"
| "flight (d, g, Loaded key ready epoch source prepared) = {#(key, ready)#}"
| "flight (d, g, p) = {#}"

abbreviation all_of :: "(resolve_call \<Rightarrow> 'a multiset) \<Rightarrow> resolve_call list \<Rightarrow> 'a multiset" where
  "all_of f ts \<equiv> sum_list (map f ts)"

lemma all_of_split:
  assumes "n < length ts"
  shows "all_of f ts = f (ts ! n) + all_of f (take n ts @ drop (Suc n) ts)"
    and "all_of f (ts[n := x]) = f x + all_of f (take n ts @ drop (Suc n) ts)"
proof -
  show "all_of f ts = f (ts ! n) + all_of f (take n ts @ drop (Suc n) ts)"
    by (subst id_take_nth_drop [OF assms]) (simp add: ac_simps)
  show "all_of f (ts[n := x]) = f x + all_of f (take n ts @ drop (Suc n) ts)"
    by (simp add: upd_conv_take_nth_drop [OF assms] ac_simps)
qed

lemma finite_live [simp]: "finite (live store)"
  by (simp add: live_def)

lemma length_release_at [simp]: "length (release_at a store) = length store"
  by (simp add: release_at_def)

lemma live_release_at [simp]: "live (release_at a store) = live store - {a}"
  by (auto simp: live_def release_at_def Release_def nth_list_update split: if_splits)

lemma live_append: "\<not> cap_released c \<Longrightarrow> live (store @ [c]) = insert (length store) (live store)"
  by (auto simp: live_def nth_append)

lemma live_release_all:
  "live (foldl (\<lambda>store x. release_at (cc_source (snd x)) store) store xs)
     = live store - set_mset (sources xs)"
  by (induction xs arbitrary: store) auto

lemma mset_set_part:
  assumes "X + Y = mset_set A"
  shows "mset_set (A - set_mset X) = Y"
proof (cases "finite A")
  case True
  have le: "count X a + count Y a = (if a \<in> A then 1 else 0)" for a
    using arg_cong [OF assms, of "\<lambda>m. count m a"] True by (simp add: count_mset_set')
  show ?thesis
  proof (rule multiset_eqI)
    fix a
    show "count (mset_set (A - set_mset X)) a = count Y a"
    proof (cases "a \<in># X")
      case True
      then have pos: "0 < count X a" by simp
      have "count X a + count Y a \<le> 1" unfolding le by simp
      with pos have "count Y a = 0" by linarith
      with True \<open>finite A\<close> show ?thesis by (simp add: count_mset_set')
    next
      case False
      with le [of a] \<open>finite A\<close> show ?thesis by (simp add: count_mset_set' not_in_iff)
    qed
  qed
next
  case False
  with assms show ?thesis by simp
qed

definition owned :: "nat multiset \<Rightarrow> ProviderCache \<Rightarrow> bool" where
  "owned H s \<longleftrightarrow> sources (pc_entries s) + H = mset_set (live (pc_store s))"

lemma sources_partition: "sources (filter P es) + sources (filter (\<lambda>x. \<not> P x) es) = sources es"
  by (induction es) simp_all

lemma owned_remove_where [simp]:
  assumes "owned H s"
  shows "owned H (remove_where P s)"
proof -
  have "sources (filter P (pc_entries s)) + (sources (filter (\<lambda>x. \<not> P x) (pc_entries s)) + H)
      = mset_set (live (pc_store s))"
    using assms unfolding owned_def by (simp only: add.assoc [symmetric] sources_partition)
  from mset_set_part [OF this] show ?thesis
    by (simp add: owned_def remove_where_def live_release_all)
qed

section \<open>The cache invariant\<close>

definition table_ok :: "CacheConfig \<Rightarrow> ProviderCache \<Rightarrow> bool" where
  "table_ok cfg s \<longleftrightarrow>
     distinct (map fst (pc_inflight s)) \<and> distinct (map fst (pc_entries s))
     \<and> fst ` set (pc_inflight s) \<inter> fst ` set (pc_entries s) = {}
     \<and> int (length (pc_entries s)) \<le> cch_MaxEntries cfg \<and> (pc_closed s \<longrightarrow> pc_entries s = [])"

definition cache_ok :: "CacheConfig \<Rightarrow> nat multiset \<Rightarrow> (bytes \<times> nat) multiset \<Rightarrow> ProviderCache \<Rightarrow> bool" where
  "cache_ok cfg H F s \<longleftrightarrow> owned H s \<and> mset (pc_inflight s) = F \<and> table_ok cfg s"

lemma remove_where_simps [simp]:
  "pc_entries (remove_where P s) = filter (\<lambda>x. \<not> P x) (pc_entries s)"
  "pc_inflight (remove_where P s) = pc_inflight s" "pc_closed (remove_where P s) = pc_closed s"
  "pc_channels (remove_where P s) = pc_channels s" "pc_sequence (remove_where P s) = pc_sequence s"
  "pc_providerEpochs (remove_where P s) = pc_providerEpochs s"
  by (simp_all add: remove_where_def)

lemma distinct_map_filter_fst: "distinct (map fst xs) \<Longrightarrow> distinct (map fst (filter P xs))"
  by (induction xs) auto

lemma table_ok_remove_where [simp]:
  assumes "table_ok cfg s"
  shows "table_ok cfg (remove_where P s)"
proof -
  have "int (length (filter (\<lambda>x. \<not> P x) (pc_entries s))) \<le> cch_MaxEntries cfg"
    using length_filter_le [of "\<lambda>x. \<not> P x" "pc_entries s"] assms unfolding table_ok_def by linarith
  with assms show ?thesis by (auto simp: table_ok_def distinct_map_filter_fst)
qed

lemma cache_ok_remove_where [simp]: "cache_ok cfg H F s \<Longrightarrow> cache_ok cfg H F (remove_where P s)"
  by (simp add: cache_ok_def)

lemmas eviction_defs =
  EvictBinding_def EvictRun_def removeExpiredLocked_def removeRevokedLocked_def removeEntry_def

lemma owned_cong: "pc_entries s' = pc_entries s \<Longrightarrow> pc_store s' = pc_store s \<Longrightarrow> owned H s' = owned H s"
  by (simp add: owned_def)

lemma cache_ok_SetProviderEpoch:
  "cache_ok cfg H F s \<Longrightarrow> cache_ok cfg H F (snd (SetProviderEpoch providerType epoch s))"
  by (simp add: SetProviderEpoch_def)
    (intro impI cache_ok_remove_where, simp add: cache_ok_def table_ok_def owned_def)

lemma cache_ok_Close:
  assumes "cache_ok cfg H F s"
  shows "cache_ok cfg H F (Cache_Close s)"
proof -
  have "owned H (s\<lparr>pc_closed := True\<rparr>)" using assms by (simp add: cache_ok_def owned_def)
  from owned_remove_where [OF this] assms show ?thesis
    by (simp add: Cache_Close_def cache_ok_def table_ok_def)
qed

subsection \<open>Eviction of the least recently used entries\<close>

lemma oldest_key_mem:
  assumes "es \<noteq> []"
  shows "oldest_key es \<in> fst ` set es"
proof -
  have "foldl (\<lambda>best x. if cc_lastUsed (snd x) < cc_lastUsed (snd best) then x else best) b xs \<in> insert b (set xs)"
    for b and xs :: "(bytes \<times> cachedCapability) list"
    by (induction xs arbitrary: b) auto
  from this [of "hd es" "tl es"] have
    "foldl (\<lambda>best x. if cc_lastUsed (snd x) < cc_lastUsed (snd best) then x else best) (hd es) (tl es) \<in> set es"
    using assms by (cases es) simp_all
  then show ?thesis unfolding oldest_key_def by (rule imageI)
qed

lemma evict_round:
  assumes "pc_entries s \<noteq> []"
  shows "length (pc_entries (remove_where (\<lambda>(k, _). k = oldest_key (pc_entries s)) s)) < length (pc_entries s)"
proof -
  from oldest_key_mem [OF assms] obtain e where "(oldest_key (pc_entries s), e) \<in> set (pc_entries s)" by auto
  then show ?thesis by (simp add: length_filter_less)
qed

lemma evict_loop_length:
  "int (length (pc_entries s)) \<le> int n + maximum \<Longrightarrow> 0 \<le> maximum
     \<Longrightarrow> int (length (pc_entries (evict_loop n maximum s))) \<le> maximum"
proof (induction n maximum s rule: evict_loop.induct)
  case (2 n maximum s)
  show ?case
  proof (cases "int (length (pc_entries s)) > maximum")
    case True
    with 2(3) have "pc_entries s \<noteq> []" by auto
    from evict_round [OF this] 2 True show ?thesis by simp
  qed simp
qed simp

lemma evict_loop_keeps:
  "owned H s \<Longrightarrow> owned H (evict_loop n maximum s)"
  "pc_inflight (evict_loop n maximum s) = pc_inflight s"
  "pc_closed (evict_loop n maximum s) = pc_closed s"
  "set (pc_entries (evict_loop n maximum s)) \<subseteq> set (pc_entries s)"
  "distinct (map fst (pc_entries s)) \<Longrightarrow> distinct (map fst (pc_entries (evict_loop n maximum s)))"
  by (induction n maximum s rule: evict_loop.induct)
    (auto simp: distinct_map_filter_fst)

lemma cache_ok_evict:
  assumes "owned H s" "mset (pc_inflight s) = F" "distinct (map fst (pc_inflight s))"
    "distinct (map fst (pc_entries s))" "fst ` set (pc_inflight s) \<inter> fst ` set (pc_entries s) = {}"
    "\<not> pc_closed s" "0 \<le> cch_MaxEntries cfg"
  shows "cache_ok cfg H F (evictLRULocked cfg s)"
proof -
  have "fst ` set (pc_inflight s) \<inter> fst ` set (pc_entries (evictLRULocked cfg s)) = {}"
    using assms(5) image_mono [OF evict_loop_keeps(4), of fst] unfolding evictLRULocked_def by blast
  moreover have "int (length (pc_entries (evictLRULocked cfg s))) \<le> cch_MaxEntries cfg"
    unfolding evictLRULocked_def using assms(7) by (intro evict_loop_length) simp_all
  moreover note evict_loop_keeps(1) [OF assms(1)] evict_loop_keeps(5) [OF assms(4)]
  ultimately show ?thesis
    unfolding cache_ok_def table_ok_def using assms(2, 3, 6)
    by (simp add: evictLRULocked_def evict_loop_keeps(2, 3))
qed

subsection \<open>Steps of a call\<close>

lemma update_existing:
  assumes "map_of es k = Some e" "cc_source e' = cc_source e"
  shows "sources (AList.update k e' es) = sources es" "map fst (AList.update k e' es) = map fst es"
    "length (AList.update k e' es) = length es"
  using assms by (induction es) auto

lemma AList_update_cases: "x \<in> set (AList.update k v xs) \<Longrightarrow> x = (k, v) \<or> x \<in> set xs"
  by (induction xs) (auto split: if_splits)

lemma update_fresh: "k \<notin> fst ` set es \<Longrightarrow> AList.update k e es = es @ [(k, e)]"
  by (induction es) auto

text \<open>What the step that prepared an entry guarantees to the step that stores it.\<close>

fun call_ok :: "resolve_call \<Rightarrow> bool" where
  "call_ok (d, g, Loaded key ready epoch source (Inr e)) \<longleftrightarrow> source = Some (cc_source e)"
| "call_ok (d, g, p) \<longleftrightarrow> True"

lemma lookup_cases:
  assumes "resolve_lookup d g now s0 = (p, s)"
  defines "s1 \<equiv> removeExpiredLocked now (removeRevokedLocked d s0)"
    and "epoch \<equiv> ProviderEpoch s0 (cpb_ProviderType (cbd_Provider d))"
  defines "key \<equiv> credentialCacheKey d g epoch"
  obtains (closed) err where "p = Returned (Inl err)" "s = s0"
  | (hit) e where "map_of (pc_entries s1) key = Some e" "(p, s) = resolve_hit key e s1" "\<not> pc_closed s0"
  | (wait) ready where "p = Waiting ready" "s = s1"
  | (miss) "map_of (pc_entries s1) key = None" "map_of (pc_inflight s1) key = None"
      "p = Loading key (pc_channels s1) epoch"
      "s = s1\<lparr>pc_inflight := (key, pc_channels s1) # pc_inflight s1, pc_channels := pc_channels s1 + 1\<rparr>"
proof (cases "pc_closed s0")
  case True
  with assms(1) show thesis by (intro closed) (auto simp: resolve_lookup_def)
next
  case False
  have fresh: "now < cc_expiresAt e" if "map_of (pc_entries s1) key = Some e" for e
    using map_of_SomeD [OF that] by (auto simp: s1_def removeExpiredLocked_def)
  show thesis
  proof (cases "map_of (pc_entries s1) key")
    case (Some e)
    with False assms(1) fresh [OF Some] show thesis
      by (intro hit [of e]) (auto simp: resolve_lookup_def Let_def s1_def key_def epoch_def)
  next
    case None
    with False assms(1) have m: "(p, s) = resolve_miss key epoch s1"
      by (auto simp: resolve_lookup_def Let_def s1_def key_def epoch_def)
    show thesis
    proof (cases "map_of (pc_inflight s1) key")
      case (Some ready)
      with m show thesis by (intro wait [of ready]) (simp_all add: resolve_miss_def)
    next
      case unclaimed: None
      with m show thesis by (intro miss [OF None unclaimed]) (simp_all add: resolve_miss_def)
    qed
  qed
qed

lemma table_ok_cong:
  assumes "pc_inflight s' = pc_inflight s" "map fst (pc_entries s') = map fst (pc_entries s)"
    "pc_closed s' = pc_closed s"
  shows "table_ok cfg s' = table_ok cfg s"
proof -
  have "length (pc_entries s') = length (pc_entries s)" "fst ` set (pc_entries s') = fst ` set (pc_entries s)"
    using arg_cong [OF assms(2), of length] arg_cong [OF assms(2), of set] by simp_all
  moreover from this(1) have "pc_entries s' = [] \<longleftrightarrow> pc_entries s = []" by (metis length_0_conv)
  ultimately show ?thesis using assms by (simp add: table_ok_def)
qed

lemma cache_ok_lookup:
  assumes "resolve_lookup d g now s0 = (p, s)" "cache_ok cfg H F s0"
  shows "cache_ok cfg (held (d, g, p) + H) (flight (d, g, p) + F) s"
proof -
  have ok: "cache_ok cfg H F (removeExpiredLocked now (removeRevokedLocked d s0))"
    using assms(2) by (simp add: eviction_defs)
  from assms(1) show ?thesis
  proof (cases rule: lookup_cases)
    case (closed err)
    with assms(2) show ?thesis by simp
  next
    case (hit e)
    define s1 where "s1 = removeExpiredLocked now (removeRevokedLocked d s0)"
    note h = hit(1, 2) [folded s1_def] and ok1 = ok [folded s1_def]
    from h(2) have p: "p = Cloning (credentialCacheKey d g (ProviderEpoch s0 (cpb_ProviderType (cbd_Provider d)))) (cc_source e)"
      by (simp add: resolve_hit_def)
    let ?key = "credentialCacheKey d g (ProviderEpoch s0 (cpb_ProviderType (cbd_Provider d)))"
    from h(2) have s: "s = s1\<lparr>pc_sequence := pc_sequence s1 + 1,
        pc_entries := AList.update ?key (e\<lparr>cc_lastUsed := pc_sequence s1 + 1\<rparr>) (pc_entries s1)\<rparr>"
      by (simp add: resolve_hit_def)
    have upd: "sources (pc_entries s) = sources (pc_entries s1)" "map fst (pc_entries s) = map fst (pc_entries s1)"
      "pc_inflight s = pc_inflight s1" "pc_closed s = pc_closed s1" "pc_store s = pc_store s1"
      using update_existing [OF h(1)] by (simp_all add: s)
    from ok1 show ?thesis
      unfolding cache_ok_def owned_def table_ok_cong [OF upd(3, 2, 4)] upd by (simp add: p)
  next
    case (wait ready)
    with ok show ?thesis by simp
  next
    case miss
    with ok show ?thesis
      by (auto simp: cache_ok_def owned_def table_ok_def map_of_eq_None_iff)
  qed
qed

lemma cache_ok_load:
  assumes "resolve_load cfg d g now answer key ready epoch s = (p, s')" "cache_ok cfg H F s"
    "\<And>c. answer = Inr (Some c) \<Longrightarrow> \<not> cap_released c"
  shows "cache_ok cfg (held (d, g, p) + H) F s' \<and> flight (d, g, p) = {#(key, ready)#} \<and> call_ok (d, g, p)"
proof (cases "\<exists>c. answer = Inr (Some c)")
  case True
  then obtain c where c: "answer = Inr (Some c)" by blast
  have "length (pc_store s) \<notin> live (pc_store s)" by (simp add: live_def)
  moreover have s': "s' = s\<lparr>pc_store := pc_store s @ [c]\<rparr>" and p: "\<exists>prepared. p =
      Loaded key ready epoch (Some (length (pc_store s))) prepared \<and> (\<forall>e. prepared = Inr e \<longrightarrow> cc_source e = length (pc_store s))"
    using assms(1) c by (auto simp: resolve_load_def Let_def prepareEntry_def split: if_splits)
  moreover have "table_ok cfg s' = table_ok cfg s" using s' by (intro table_ok_cong) simp_all
  moreover from p have "call_ok (d, g, p)" "held (d, g, p) = {#length (pc_store s)#}" "flight (d, g, p) = {#(key, ready)#}"
    by (auto, case_tac prepared, auto)
  ultimately show ?thesis
    using assms(2, 3) c by (simp add: cache_ok_def owned_def live_append)
next
  case False
  with assms show ?thesis
    by (cases answer; cases "projr answer") (auto simp: resolve_load_def Let_def cache_ok_def prepareEntry_def)
qed

lemma owned_release:
  assumes "owned (add_mset a H) s"
  shows "owned H (s\<lparr>pc_store := release_at a (pc_store s)\<rparr>)"
proof -
  from assms have "{#a#} + (sources (pc_entries s) + H) = mset_set (live (pc_store s))"
    by (simp add: owned_def)
  from mset_set_part [OF this] show ?thesis by (simp add: owned_def)
qed

lemma remove_flight:
  assumes "mset xs = add_mset (k, r) F" "distinct (map fst xs)"
  shows "mset (filter (\<lambda>(k', _). k' \<noteq> k) xs) = F"
proof -
  from assms(1) have "(k, r) \<in> set xs" by (metis in_multiset_in_set union_single_eq_member)
  from split_list [OF this] obtain ys zs where xs: "xs = ys @ (k, r) # zs" by blast
  with assms(2) have none: "k \<notin> fst ` set (ys @ zs)" by auto
  from xs have "filter (\<lambda>(k', _). k' \<noteq> k) xs = filter (\<lambda>(k', _). k' \<noteq> k) (ys @ zs)" by simp
  also have "\<dots> = ys @ zs" using none by (intro filter_True) force
  finally show ?thesis using assms(1) xs by simp
qed

lemma cache_ok_store:
  assumes "resolve_store cfg d key epoch source prepared s0 = (p, s)"
    and ok: "cache_ok cfg (held (d, g, Loaded key ready epoch source prepared) + H) (add_mset (key, ready) F) s0"
    and call: "call_ok (d, g, Loaded key ready epoch source prepared)" and pos: "0 \<le> cch_MaxEntries cfg"
  shows "cache_ok cfg H F s \<and> held (d, g, p) = {#} \<and> flight (d, g, p) = {#}"
proof -
  define s1 where "s1 = s0\<lparr>pc_inflight := filter (\<lambda>(k, _). k \<noteq> key) (pc_inflight s0)\<rparr>"
  let ?H = "held (d, g, Loaded key ready epoch source prepared) + H"
  have tab: "table_ok cfg s0" "mset (pc_inflight s0) = add_mset (key, ready) F" "owned ?H s0"
    using ok by (simp_all add: cache_ok_def)
  then have F: "mset (pc_inflight s1) = F"
    using remove_flight [OF tab(2)] by (simp add: s1_def table_ok_def del: mset_filter)
  have inkey: "key \<in> fst ` set (pc_inflight s0)"
    using tab(2) by (metis fst_conv image_eqI in_multiset_in_set union_single_eq_member)
  have s1: "table_ok cfg s1" "owned ?H s1" "key \<notin> fst ` set (pc_inflight s1)"
    "key \<notin> fst ` set (pc_entries s1)" "pc_closed s1 = pc_closed s0"
    using tab inkey by (auto simp: s1_def table_ok_def owned_def distinct_map_filter_fst)
  have released: "cache_ok cfg H F (release_source source s1)"
    using s1 F owned_release [of _ H s1]
    by (cases source) (auto simp: release_source_def cache_ok_def table_ok_def)
  show ?thesis
  proof (cases "\<exists>e. prepared = Inr e \<and> \<not> pc_closed s1 \<and> ProviderEpoch s1 (cpb_ProviderType (cbd_Provider d)) = epoch")
    case True
    then obtain e where e: "prepared = Inr e" "\<not> pc_closed s1"
      "ProviderEpoch s1 (cpb_ProviderType (cbd_Provider d)) = epoch" by blast
    define s2 where "s2 = s1\<lparr>pc_sequence := pc_sequence s1 + 1,
      pc_entries := AList.update key (e\<lparr>cc_lastUsed := pc_sequence s1 + 1\<rparr>) (pc_entries s1)\<rparr>"
    have "owned H s2" using s1(2) e(1) call by (simp add: owned_def s2_def update_fresh [OF s1(4)])
    moreover have "distinct (map fst (pc_entries s2))"
      "fst ` set (pc_inflight s2) \<inter> fst ` set (pc_entries s2) = {}"
      "distinct (map fst (pc_inflight s2))" "mset (pc_inflight s2) = F" "\<not> pc_closed s2"
      using s1 F e(2) by (auto simp: table_ok_def s2_def update_fresh [OF s1(4)])
    ultimately have "cache_ok cfg H F (evictLRULocked cfg s2)" using pos by (intro cache_ok_evict) simp_all
    with assms(1) e show ?thesis by (auto simp: resolve_store_def Let_def s1_def s2_def)
  next
    case False
    with assms(1) released show ?thesis
      by (cases prepared) (auto simp: resolve_store_def Let_def s1_def split: if_splits)
  qed
qed

lemma cache_ok_step:
  assumes "resolve_step cfg d g i p s = Some (p', s')" "call_ok (d, g, p)" "0 \<le> cch_MaxEntries cfg"
    "cache_ok cfg (held (d, g, p) + H) (flight (d, g, p) + F) s"
    "\<And>c. in_answer i = Inr (Some c) \<Longrightarrow> \<not> cap_released c"
  shows "cache_ok cfg (held (d, g, p') + H) (flight (d, g, p') + F) s' \<and> call_ok (d, g, p')"
proof (cases p)
  case Entering
  with assms show ?thesis by (auto simp: resolve_enter_def)
next
  case Looking
  with assms have "resolve_lookup d g (in_now i) s = (p', s')" "cache_ok cfg H F s" by simp_all
  then show ?thesis
    by (auto simp: cache_ok_lookup elim!: lookup_cases simp: resolve_hit_def)
next
  case (Loading key ready epoch)
  with assms cache_ok_load [of cfg d g "in_now i" "in_answer i" key ready epoch s p' s' H "add_mset (key, ready) F"]
  show ?thesis by simp
next
  case (Loaded key ready epoch source prepared)
  with assms cache_ok_store [of cfg d key epoch source prepared s p' s' g ready H F] show ?thesis
    by (cases p') auto
next
  case (Dropping key a failure)
  with assms show ?thesis by (auto simp: eviction_defs split: option.splits)
qed (use assms in \<open>auto split: sum.splits if_splits\<close>)

lemma cache_ok_cong_ts:
  assumes "n < length ts" "ts ! n = (d, g, p)"
  shows "cache_ok cfg (all_of held ts) (all_of flight ts) s =
      cache_ok cfg (held (d, g, p) + all_of held (take n ts @ drop (Suc n) ts))
        (flight (d, g, p) + all_of flight (take n ts @ drop (Suc n) ts)) s"
    and "cache_ok cfg (all_of held (ts[n := x])) (all_of flight (ts[n := x])) s =
      cache_ok cfg (held x + all_of held (take n ts @ drop (Suc n) ts))
        (flight x + all_of flight (take n ts @ drop (Suc n) ts)) s"
  using assms(2) by (simp_all only: all_of_split [OF assms(1)])

definition cache_inv :: "CacheConfig \<Rightarrow> resolve_call list \<times> ProviderCache \<Rightarrow> bool" where
  "cache_inv cfg = (\<lambda>(ts, s). cache_ok cfg (all_of held ts) (all_of flight ts) s \<and> list_all call_ok ts)"

lemma list_all_update: "list_all P xs \<Longrightarrow> P x \<Longrightarrow> list_all P (xs[n := x])"
  using set_update_subset_insert [of xs n x] by (auto simp: list_all_iff)

lemma cache_inv_step:
  assumes "cache_step cfg provider x y" "cache_inv cfg x" "0 \<le> cch_MaxEntries cfg"
  shows "cache_inv cfg y"
  using assms(1)
proof (cases rule: cache_step.cases)
  case (runs n ts d g p i s p' s')
  from assms(2) runs have ok: "cache_ok cfg (all_of held ts) (all_of flight ts) s" and calls: "list_all call_ok ts"
    by (simp_all add: cache_inv_def)
  have "call_ok (d, g, p)" using calls runs(3, 4) by (metis list_all_length)
  from cache_ok_step [OF runs(6) this assms(3) ok [unfolded cache_ok_cong_ts(1) [OF runs(3, 4)]]] runs(5)
  have "cache_ok cfg (all_of held (ts[n := (d, g, p')])) (all_of flight (ts[n := (d, g, p')])) s'"
    and "call_ok (d, g, p')"
    unfolding cache_ok_cong_ts(2) [OF runs(3, 4)] by blast+
  then show ?thesis
    using calls runs(2) by (simp add: cache_inv_def list_all_update)
qed (use assms(2) in \<open>auto simp: cache_inv_def cache_ok_SetProviderEpoch cache_ok_Close eviction_defs\<close>)

lemma cache_inv_reach:
  assumes "(cache_step cfg provider)\<^sup>*\<^sup>* ([], empty_cache) y" "0 \<le> cch_MaxEntries cfg"
  shows "cache_inv cfg y"
  using assms(1)
proof (induction rule: rtranclp_induct)
  case base
  show ?case
    using assms(2) by (simp add: cache_inv_def cache_ok_def owned_def table_ok_def empty_cache_def live_def)
qed (blast intro: cache_inv_step assms(2))

lemma Release_erases: "cap_secret (Release c) = []" "cap_released (Release c)"
  by (simp_all add: Release_def)

end
