(* ===== verification/Credential_Cache_Props.thy ===== *)
theory Credential_Cache_Props
  imports Credential_Cache
begin

text \<open>
  What the credential cache promises: where the capabilities it hands out come from, what its keys
  determine, and that it erases every secret it owned.
\<close>

section \<open>Where a returned capability comes from\<close>

definition origin :: "provider \<Rightarrow> bytes \<Rightarrow> Capability \<Rightarrow> bool" where
  "origin provider key c \<longleftrightarrow> (\<exists>d g epoch. key = credentialCacheKey d g epoch \<and> provider d g c
     \<and> metadata_matches d (cap_metadata c))"

definition keyed :: "CredentialBindingDefinition \<Rightarrow> CredentialProviderContext \<Rightarrow> bytes \<Rightarrow> bool" where
  "keyed d g key \<longleftrightarrow> (\<exists>epoch. key = credentialCacheKey d g epoch)"

lemma originI: "keyed d g key \<Longrightarrow> provider d g c \<Longrightarrow> metadata_matches d (cap_metadata c) \<Longrightarrow> origin provider key c"
  by (auto simp: origin_def keyed_def)

definition sound_at :: "provider \<Rightarrow> Capability list \<Rightarrow> bytes \<Rightarrow> nat \<Rightarrow> bool" where
  "sound_at provider store key a \<longleftrightarrow>
     a < length store \<and> (cap_released (store ! a) \<or> origin provider key (store ! a))"

fun traced :: "provider \<Rightarrow> Capability list \<Rightarrow> resolve_call \<Rightarrow> bool" where
  "traced provider store (d, g, Cloning key a) \<longleftrightarrow> keyed d g key \<and> sound_at provider store key a"
| "traced provider store (d, g, Loading key ready epoch) \<longleftrightarrow> keyed d g key"
| "traced provider store (d, g, Loaded key ready epoch source (Inr e)) \<longleftrightarrow>
     keyed d g key \<and> sound_at provider store key (cc_source e)"
| "traced provider store (d, g, Finishing key a) \<longleftrightarrow> keyed d g key \<and> sound_at provider store key a"
| "traced provider store (d, g, p) \<longleftrightarrow> True"

definition entries_sound :: "provider \<Rightarrow> ProviderCache \<Rightarrow> bool" where
  "entries_sound provider s \<longleftrightarrow>
     (\<forall>(k, e) \<in> set (pc_entries s). sound_at provider (pc_store s) k (cc_source e))"

text \<open>The store only grows, and a capability in it never changes except by being released.\<close>

definition store_le :: "Capability list \<Rightarrow> Capability list \<Rightarrow> bool" where
  "store_le st st' \<longleftrightarrow> length st \<le> length st'
     \<and> (\<forall>a < length st. st' ! a = st ! a \<or> cap_released (st' ! a))"

lemma store_le_refl [simp]: "store_le st st"
  by (simp add: store_le_def)

lemma store_le_trans: "store_le a b \<Longrightarrow> store_le b c \<Longrightarrow> store_le a c"
  unfolding store_le_def by (metis order.strict_trans2 order.trans)

lemma store_le_release [simp]: "store_le st (release_at a st)"
  by (auto simp: store_le_def release_at_def nth_list_update Release_def)

lemma store_le_append [simp]: "store_le st (st @ cs)"
  by (simp add: store_le_def nth_append)

lemma store_le_remove_where [simp]: "store_le (pc_store s) (pc_store (remove_where P s))"
proof -
  have "store_le st (foldl (\<lambda>store x. release_at (cc_source (snd x)) store) st xs)"
    for st and xs :: "(bytes \<times> cachedCapability) list"
    by (induction xs arbitrary: st) (auto intro: store_le_trans [OF store_le_release])
  then show ?thesis by (simp add: remove_where_def)
qed

lemma sound_at_mono: "store_le st st' \<Longrightarrow> sound_at provider st k a \<Longrightarrow> sound_at provider st' k a"
  by (auto simp: store_le_def sound_at_def)

lemma traced_mono: "store_le st st' \<Longrightarrow> traced provider st t \<Longrightarrow> traced provider st' t"
  by (induction provider st t rule: traced.induct) (auto intro: sound_at_mono)

lemma entries_sound_mono:
  assumes "entries_sound provider s" "store_le (pc_store s) (pc_store s')"
    "\<And>k e. (k, e) \<in> set (pc_entries s') \<Longrightarrow> \<exists>e'. (k, e') \<in> set (pc_entries s) \<and> cc_source e' = cc_source e"
  shows "entries_sound provider s'"
  using assms unfolding entries_sound_def by (fastforce intro: sound_at_mono)

lemma entries_sound_remove_where [simp]:
  "entries_sound provider s \<Longrightarrow> entries_sound provider (remove_where P s)"
  by (rule entries_sound_mono) auto

lemma entries_sound_evict:
  "entries_sound provider s \<Longrightarrow>
     entries_sound provider (evict_loop n m s) \<and> store_le (pc_store s) (pc_store (evict_loop n m s))"
proof (induction n m s rule: evict_loop.induct)
  case (2 n m s)
  then show ?case by (auto intro: store_le_trans [OF store_le_remove_where])
qed simp

definition sound :: "provider \<Rightarrow> resolve_call list \<times> ProviderCache \<Rightarrow> bool" where
  "sound provider = (\<lambda>(ts, s). list_all (traced provider (pc_store s)) ts \<and> entries_sound provider s)"

lemma cloneCapability_Inr:
  assumes "cloneCapability source now now' = Inr c"
  shows "c = source" "\<not> cap_released source" "cap_secret source \<noteq> []"
    "now < cm_ExpiresAt (cap_metadata source)" "now' < cm_ExpiresAt (cap_metadata source)"
  using assms
  by (auto simp: cloneCapability_def UseSecret_def NewCapability_def validateMetadata_def
      split: sum.splits if_splits)

lemma sound_lookup:
  assumes "resolve_lookup d g now s0 = (p, s)" "entries_sound provider s0"
  shows "traced provider (pc_store s) (d, g, p) \<and> entries_sound provider s \<and> store_le (pc_store s0) (pc_store s)"
proof -
  define s1 where "s1 = removeExpiredLocked now (removeRevokedLocked d s0)"
  have s1: "entries_sound provider s1" "store_le (pc_store s0) (pc_store s1)"
    using assms(2) store_le_trans [OF store_le_remove_where store_le_remove_where]
    by (simp_all add: s1_def eviction_defs)
  from assms(1) show ?thesis
  proof (cases rule: lookup_cases)
    case (closed err)
    with assms(2) show ?thesis by simp
  next
    case (hit e)
    note h = hit(1, 2) [folded s1_def]
    from map_of_SomeD [OF h(1)] s1(1) h(2) have "traced provider (pc_store s) (d, g, p)"
      by (auto simp: resolve_hit_def keyed_def entries_sound_def)
    moreover have "entries_sound provider s"
      using s1(1) by (rule entries_sound_mono)
        (use h(2) map_of_SomeD [OF h(1)] in \<open>auto simp: resolve_hit_def dest!: AList_update_cases\<close>)
    ultimately show ?thesis using h(2) s1(2) by (auto simp: resolve_hit_def)
  next
    case (wait ready)
    with s1 show ?thesis by (simp add: s1_def)
  next
    case miss
    with s1 show ?thesis by (auto simp: s1_def keyed_def entries_sound_def)
  qed
qed

lemma sound_load:
  assumes "resolve_load cfg d g now answer key ready epoch s = (p, s')" "entries_sound provider s"
    "keyed d g key" "\<And>c. answer = Inr (Some c) \<Longrightarrow> provider d g c"
  shows "traced provider (pc_store s') (d, g, p) \<and> entries_sound provider s' \<and> store_le (pc_store s) (pc_store s')"
proof -
  have le: "store_le (pc_store s) (pc_store s')" "pc_entries s' = pc_entries s"
    using assms(1) by (auto simp: resolve_load_def Let_def split: sum.splits option.splits)
  have "entries_sound provider s'"
    by (rule entries_sound_mono [OF assms(2) le(1)]) (auto simp: le(2))
  moreover have "traced provider (pc_store s') (d, g, p)"
    using assms(1, 3, 4)
    by (auto simp: resolve_load_def Let_def prepareEntry_def sound_at_def intro: originI
        split: sum.splits option.splits if_splits)
  ultimately show ?thesis using le(1) by blast
qed

lemma sound_store:
  assumes "resolve_store cfg d key epoch source prepared s0 = (p, s)" "entries_sound provider s0"
    "traced provider (pc_store s0) (d, g, Loaded key ready epoch source prepared)"
  shows "traced provider (pc_store s) (d, g, p) \<and> entries_sound provider s \<and> store_le (pc_store s0) (pc_store s)"
proof (cases "\<exists>e. prepared = Inr e \<and> p = Finishing key (cc_source e)")
  case True
  then obtain e where e: "prepared = Inr e" "p = Finishing key (cc_source e)" by blast
  define s2 where "s2 = s0\<lparr>pc_inflight := filter (\<lambda>(k, _). k \<noteq> key) (pc_inflight s0),
    pc_sequence := pc_sequence s0 + 1,
    pc_entries := AList.update key (e\<lparr>cc_lastUsed := pc_sequence s0 + 1\<rparr>) (pc_entries s0)\<rparr>"
  from assms(1) e have s: "s = evictLRULocked cfg s2"
    by (auto simp: resolve_store_def Let_def s2_def split: if_splits)
  have "entries_sound provider s2"
    using assms(2, 3) e(1)
    by (auto simp: entries_sound_def s2_def dest!: AList_update_cases)
  from entries_sound_evict [OF this, of "length (pc_entries s2)" "cch_MaxEntries cfg"]
  have evicted: "entries_sound provider s" "store_le (pc_store s0) (pc_store s)"
    by (simp_all add: s evictLRULocked_def) (simp_all add: s2_def)
  moreover have "traced provider (pc_store s) (d, g, p)"
    using assms(3) e sound_at_mono [OF evicted(2)] by simp
  ultimately show ?thesis by blast
next
  case False
  with assms(1) obtain err where p: "p = Returned (Inl err)"
    and s: "pc_entries s = pc_entries s0" "store_le (pc_store s0) (pc_store s)"
    by (auto simp: resolve_store_def Let_def release_source_def split: sum.splits if_splits option.splits)
  have "entries_sound provider s"
    by (rule entries_sound_mono [OF assms(2) s(2)]) (auto simp: s(1))
  with p s(2) show ?thesis by simp
qed

lemma sound_step:
  assumes "resolve_step cfg d g i p s = Some (p', s')" "traced provider (pc_store s) (d, g, p)"
    "entries_sound provider s" "\<And>c. in_answer i = Inr (Some c) \<Longrightarrow> provider d g c"
  shows "traced provider (pc_store s') (d, g, p') \<and> entries_sound provider s' \<and> store_le (pc_store s) (pc_store s')"
proof (cases p)
  case Looking
  with assms show ?thesis by (auto intro!: sound_lookup)
next
  case (Loading key ready epoch)
  with assms sound_load [of cfg d g "in_now i" "in_answer i" key ready epoch s p' s' provider]
  show ?thesis by simp
next
  case (Loaded key ready epoch source prepared)
  with assms sound_store [of cfg d key epoch source prepared s p' s' provider g ready] show ?thesis by simp
next
  case (Dropping key a failure)
  with assms show ?thesis by (auto simp: eviction_defs split: option.splits)
qed (use assms in \<open>auto simp: resolve_enter_def split: sum.splits if_splits\<close>)

lemma sound_cache_step:
  assumes "cache_step cfg provider x y" "sound provider x"
  shows "sound provider y"
  using assms(1)
proof (cases rule: cache_step.cases)
  case (runs n ts d g p i s p' s')
  from assms(2) runs have ts: "list_all (traced provider (pc_store s)) ts" and es: "entries_sound provider s"
    by (simp_all add: sound_def)
  then have "traced provider (pc_store s) (d, g, p)" using runs(3, 4) by (metis list_all_length)
  from sound_step [OF runs(6) this es] runs(5)
  have step: "traced provider (pc_store s') (d, g, p')" "entries_sound provider s'"
    "store_le (pc_store s) (pc_store s')" by blast+
  from ts step(3) have "list_all (traced provider (pc_store s')) ts"
    by (auto simp: list_all_iff intro: traced_mono)
  with step runs(2) show ?thesis by (simp add: sound_def list_all_update)
next
  case (sets_epoch ts s providerType epoch)
  have "entries_sound provider (snd (SetProviderEpoch providerType epoch s))
      \<and> store_le (pc_store s) (pc_store (snd (SetProviderEpoch providerType epoch s)))"
    using assms(2) sets_epoch(1)
      store_le_remove_where [of "s\<lparr>pc_providerEpochs := AList.update providerType epoch (pc_providerEpochs s)\<rparr>"]
      entries_sound_remove_where [of provider "s\<lparr>pc_providerEpochs := AList.update providerType epoch (pc_providerEpochs s)\<rparr>"]
    by (auto simp: SetProviderEpoch_def sound_def entries_sound_def [of provider "_\<lparr>pc_providerEpochs := _\<rparr>"]
        entries_sound_def [of provider s])
  with assms(2) sets_epoch show ?thesis by (auto simp: sound_def list_all_iff intro: traced_mono)
next
  case (closes ts s)
  have "entries_sound provider (Cache_Close s) \<and> store_le (pc_store s) (pc_store (Cache_Close s))"
    using store_le_remove_where [of "s\<lparr>pc_closed := True\<rparr>"] by (simp add: Cache_Close_def entries_sound_def)
  with assms(2) closes show ?thesis by (auto simp: sound_def list_all_iff intro: traced_mono)
qed (use assms(2) in \<open>auto simp: sound_def eviction_defs list_all_iff intro: traced_mono [OF store_le_remove_where]\<close>)

lemma sound_reach:
  assumes "(cache_step cfg provider)\<^sup>*\<^sup>* ([], empty_cache) y"
  shows "sound provider y"
  using assms
proof (induction rule: rtranclp_induct)
  case base
  show ?case by (simp add: sound_def entries_sound_def empty_cache_def)
qed (blast intro: sound_cache_step)

lemma no_return:
  "resolve_enter d g \<noteq> Returned (Inr c)"
  "resolve_lookup d g now s \<noteq> (Returned (Inr c), s')"
  "resolve_load cfg d g now answer key ready epoch s \<noteq> (Returned (Inr c), s')"
  "resolve_store cfg d key epoch source prepared s \<noteq> (Returned (Inr c), s')"
  by (simp add: resolve_enter_def)
    (rule notI, erule lookup_cases, simp_all add: resolve_hit_def resolve_load_def resolve_store_def Let_def
      split: sum.splits)

lemma returned_by_clone:
  assumes "resolve_step cfg d g i p s = Some (Returned (Inr c), s')"
  obtains key a where "p = Cloning key a \<or> p = Finishing key a"
    "cloneCapability (pc_store s ! a) (in_now i) (in_now' i) = Inr c"
proof (cases p)
  case (Cloning key a)
  with assms show thesis by (intro that [of key a]) (simp_all split: sum.splits)
next
  case (Finishing key a)
  with assms show thesis by (intro that [of key a]) (simp_all split: sum.splits)
qed (use assms no_return in \<open>simp_all split: if_splits option.splits\<close>)

section \<open>What the key determines\<close>

lemma writeCachePart_simps [simp]:
  "writeCachePart [] = []"
  "writeCachePart (v # vs) = be_bytes 8 (length v) @ bytes_of_string v @ writeCachePart vs"
  "writeCachePart (us @ vs) = writeCachePart us @ writeCachePart vs"
  by (simp_all add: writeCachePart_def)

lemma cache_preimage_parts:
  "cache_preimage d g epoch = writeCachePart (cache_key_context d g epoch @ cache_key_targets d)"
proof -
  have "concat (map (\<lambda>s. writeCachePart (selector_parts s)) ss) = writeCachePart (concat (map selector_parts ss))" for ss
    by (induction ss) simp_all
  then show ?thesis by (simp add: cache_preimage_def cache_key_targets_def)
qed

lemma writeCachePart_inject:
  assumes "\<forall>v \<in> set us \<union> set vs. length v < 2 ^ 64"
  shows "writeCachePart us = writeCachePart vs \<longleftrightarrow> us = vs"
  using assms
proof (induction us arbitrary: vs)
  case Nil
  have "be_bytes 8 n \<noteq> []" for n by (metis length_be_bytes length_0_conv zero_neq_numeral)
  then show ?case by (cases vs) auto
next
  case (Cons u us)
  show ?case
  proof (cases vs)
    case Nil
    have "be_bytes 8 n \<noteq> []" for n by (metis length_be_bytes length_0_conv zero_neq_numeral)
    with Nil show ?thesis by simp
  next
    case (Cons v ws)
    with Cons.prems have bound: "length u < 256 ^ 8" "length v < 256 ^ 8" by auto
    have "writeCachePart (u # us) = writeCachePart (v # ws) \<longleftrightarrow>
        length u = length v \<and> bytes_of_string u @ writeCachePart us = bytes_of_string v @ writeCachePart ws"
      using be_bytes_inject [OF bound] by simp
    also have "\<dots> \<longleftrightarrow> u = v \<and> writeCachePart us = writeCachePart ws" by auto
    finally show ?thesis using Cons Cons.IH [of ws] Cons.prems by auto
  qed
qed

lemma FormatBool_inject [simp]: "FormatBool a = FormatBool b \<longleftrightarrow> a = b"
  by (simp add: FormatBool_def)

definition key_wf :: "CredentialBindingDefinition \<Rightarrow> CredentialProviderContext \<Rightarrow> string \<Rightarrow> bool" where
  "key_wf d g epoch \<longleftrightarrow> length (cbd_ID d) = 16 \<and> length (cbd_TenantID d) = 16 \<and> length (cbd_ConnectorInstanceID d) = 16
     \<and> (\<forall>v \<in> set (cache_key_context d g epoch @ cache_key_targets d). length v < 2 ^ 64)"

lemma cache_key_context_inject:
  assumes "key_wf d g epoch" "key_wf d' g' epoch'"
  shows "cache_key_context d g epoch = cache_key_context d' g' epoch' \<longleftrightarrow>
      cbd_ID d = cbd_ID d' \<and> cbd_TenantID d = cbd_TenantID d' \<and> cbd_ConnectorInstanceID d = cbd_ConnectorInstanceID d'
      \<and> cpb_ProviderType (cbd_Provider d) = cpb_ProviderType (cbd_Provider d')
      \<and> cpb_ProviderRef (cbd_Provider d) = cpb_ProviderRef (cbd_Provider d')
      \<and> cpb_Capability (cbd_Provider d) = cpb_Capability (cbd_Provider d')
      \<and> cbd_Delegation d = cbd_Delegation d' \<and> cbd_RevocationEpoch d = cbd_RevocationEpoch d'
      \<and> cbd_Enabled d = cbd_Enabled d' \<and> cbd_Cache d = cbd_Cache d' \<and> g = g' \<and> epoch = epoch'"
proof -
  have delegation: "cbd_Delegation d = cbd_Delegation d' \<longleftrightarrow> sdp_Mode (cbd_Delegation d) = sdp_Mode (cbd_Delegation d')
      \<and> sdp_TrustedIssuer (cbd_Delegation d) = sdp_TrustedIssuer (cbd_Delegation d')"
    by (metis SubjectDelegationPolicy.equality old.unit.exhaust)
  have policy: "cbd_Cache d = cbd_Cache d' \<longleftrightarrow> ccp_MaximumTTL (cbd_Cache d) = ccp_MaximumTTL (cbd_Cache d')
      \<and> ccp_ExpirySkew (cbd_Cache d) = ccp_ExpirySkew (cbd_Cache d')"
    by (metis CredentialCachePolicy.equality old.unit.exhaust)
  have subject: "g = g' \<longleftrightarrow> cpc_Subject g = cpc_Subject g' \<and> cpc_RunID g = cpc_RunID g'"
    by (metis CredentialProviderContext.equality old.unit.exhaust)
  show ?thesis
    unfolding cache_key_context_def list.inject delegation policy subject Itoa_inject FormatBool_inject
    using assms unfolding key_wf_def by (simp only: UUID_String_inject conj_assoc simp_thms)
qed

section \<open>Properties\<close>


text \<open>
  C32. The bytes hashed into a cache key determine the binding, tenant, connector instance, provider,
  capability kind, delegation, revocation epoch, cache policy, subject, run and provider epoch, and
  nothing more than the concatenation of tool selectors, audiences, resources, scopes and policy tags:
  two keys have the same bytes exactly when these agree. Where one of these lists ends and the next
  begins is not part of the key.
\<close>

theorem cache_key_binds_context:
  assumes "key_wf d g epoch" and "key_wf d' g' epoch'"
  shows "cache_preimage d g epoch = cache_preimage d' g' epoch' \<longleftrightarrow>
    cbd_ID d = cbd_ID d' \<and> cbd_TenantID d = cbd_TenantID d' \<and> cbd_ConnectorInstanceID d = cbd_ConnectorInstanceID d'
    \<and> cpb_ProviderType (cbd_Provider d) = cpb_ProviderType (cbd_Provider d')
    \<and> cpb_ProviderRef (cbd_Provider d) = cpb_ProviderRef (cbd_Provider d')
    \<and> cpb_Capability (cbd_Provider d) = cpb_Capability (cbd_Provider d')
    \<and> cbd_Delegation d = cbd_Delegation d' \<and> cbd_RevocationEpoch d = cbd_RevocationEpoch d'
    \<and> cbd_Enabled d = cbd_Enabled d' \<and> cbd_Cache d = cbd_Cache d' \<and> g = g' \<and> epoch = epoch'
    \<and> cache_key_targets d = cache_key_targets d'"
proof -
  have "cache_preimage d g epoch = cache_preimage d' g' epoch' \<longleftrightarrow>
      cache_key_context d g epoch @ cache_key_targets d = cache_key_context d' g' epoch' @ cache_key_targets d'"
    unfolding cache_preimage_parts using assms by (intro writeCachePart_inject) (auto simp: key_wf_def)
  also have "\<dots> \<longleftrightarrow> cache_key_context d g epoch = cache_key_context d' g' epoch' \<and> cache_key_targets d = cache_key_targets d'"
    by (intro append_eq_append_conv) (simp add: cache_key_context_def)
  also have "cache_key_context d g epoch = cache_key_context d' g' epoch' \<longleftrightarrow>
      cbd_ID d = cbd_ID d' \<and> cbd_TenantID d = cbd_TenantID d' \<and> cbd_ConnectorInstanceID d = cbd_ConnectorInstanceID d'
      \<and> cpb_ProviderType (cbd_Provider d) = cpb_ProviderType (cbd_Provider d')
      \<and> cpb_ProviderRef (cbd_Provider d) = cpb_ProviderRef (cbd_Provider d')
      \<and> cpb_Capability (cbd_Provider d) = cpb_Capability (cbd_Provider d')
      \<and> cbd_Delegation d = cbd_Delegation d' \<and> cbd_RevocationEpoch d = cbd_RevocationEpoch d'
      \<and> cbd_Enabled d = cbd_Enabled d' \<and> cbd_Cache d = cbd_Cache d' \<and> g = g' \<and> epoch = epoch'"
    using assms by (rule cache_key_context_inject)
  finally show ?thesis by (simp only: conj_assoc)
qed


section \<open>Witnesses\<close>

definition sample_binding :: CredentialBindingDefinition where
  "sample_binding = \<lparr>cbd_ID = replicate 16 1, cbd_TenantID = replicate 16 2, cbd_ConnectorInstanceID = replicate 16 3,
     cbd_ToolSelectors = [\<lparr>cts_ToolID = ''a.b'', cts_Version = sample_version, cts_CredentialSelector = ''c''\<rparr>],
     cbd_Provider = \<lparr>cpb_ProviderType = ''k'', cpb_ProviderRef = ''r'', cpb_Capability = ''api_token'',
       cpb_Audiences = [''x''], cpb_Resources = [''y''], cpb_Scopes = []\<rparr>,
     cbd_Delegation = \<lparr>sdp_Mode = ''none'', sdp_TrustedIssuer = []\<rparr>,
     cbd_Cache = \<lparr>ccp_MaximumTTL = 0, ccp_ExpirySkew = 0\<rparr>,
     cbd_RevocationEpoch = [], cbd_PolicyTags = [], cbd_Enabled = True\<rparr>"

definition sample_context :: CredentialProviderContext where
  "sample_context = \<lparr>cpc_Subject = ''s'', cpc_RunID = ''run''\<rparr>"

definition sample_capability :: Capability where
  "sample_capability = \<lparr>cap_metadata = \<lparr>cm_Kind = ''api_token'', cm_ProviderRef = ''r'', cm_Issuer = [],
       cm_Audiences = [''x''], cm_Resources = [''y''], cm_Scopes = [], cm_IssuedAt = 1, cm_ExpiresAt = 100,
       cm_LeaseID = [], cm_RefreshID = [], cm_RevocationEpoch = []\<rparr>,
     cap_secret = [7], cap_released = False\<rparr>"

definition sample_config :: CacheConfig where
  "sample_config = \<lparr>cch_MaxEntries = 2, cch_MaximumTTL = 50, cch_ExpirySkew = 5\<rparr>"

definition sample_inputs :: inputs where
  "sample_inputs = \<lparr>in_now = 10, in_now' = 11, in_cancelled = False, in_answer = Inr (Some sample_capability)\<rparr>"

abbreviation sample_cache_key :: bytes where
  "sample_cache_key \<equiv> credentialCacheKey sample_binding sample_context []"

definition sample_entry :: cachedCapability where
  "sample_entry = \<lparr>cc_source = 0, cc_expiresAt = 60, cc_tenantID = replicate 16 2, cc_bindingID = replicate 16 1,
     cc_runID = ''run'', cc_providerType = ''k'', cc_revocationEpoch = [], cc_lastUsed = 1\<rparr>"

definition sample_cached :: ProviderCache where
  "sample_cached = \<lparr>pc_store = [sample_capability], pc_entries = [(sample_cache_key, sample_entry)],
     pc_inflight = [], pc_channels = 1, pc_providerEpochs = [], pc_sequence = 1, pc_closed = False\<rparr>"

definition sample_provider :: provider where
  "sample_provider d g c \<longleftrightarrow> d = sample_binding \<and> g = sample_context \<and> c = sample_capability"

lemma sample_runs:
  assumes "resolve_step sample_config sample_binding sample_context sample_inputs p s = Some (p', s')"
  shows "cache_step sample_config sample_provider ([(sample_binding, sample_context, p)], s)
    ([(sample_binding, sample_context, p')], s')"
  using cache_step.runs [of 0 "[(sample_binding, sample_context, p)]" sample_binding sample_context p
      sample_inputs sample_provider sample_config s p' s'] assms
  by (simp add: sample_inputs_def sample_provider_def sample_capability_def)

lemma sample_enter: "resolve_enter sample_binding sample_context = Looking"
  by (simp add: resolve_enter_def validCacheContext_def validCacheText_def sample_context_def sample_binding_def
      ValidateCredentialBindingDefinition_def validateSelector_def validSafeReference_def validCapabilityKind_def
      validateStringSet_def optionalSafeReference_def capability_defs zero_UUID_def bounded_text_eval tool_eval
      re_eval semver_eval SemanticVersion_String_def sample_version_def duration_defs Let_def)

lemma sample_loading:
  "resolve_lookup sample_binding sample_context 10 empty_cache
     = (Loading sample_cache_key 0 [], empty_cache\<lparr>pc_inflight := [(sample_cache_key, 0)], pc_channels := Suc 0\<rparr>)"
  by (simp add: resolve_lookup_def resolve_miss_def empty_cache_def ProviderEpoch_def Let_def eviction_defs
      remove_where_def)

lemma sample_loaded:
  "resolve_load sample_config sample_binding sample_context 10 (Inr (Some sample_capability)) sample_cache_key 0 []
     (empty_cache\<lparr>pc_inflight := [(sample_cache_key, 0)], pc_channels := Suc 0\<rparr>)
   = (Loaded sample_cache_key 0 [] (Some 0) (Inr (sample_entry\<lparr>cc_lastUsed := 0\<rparr>)),
      empty_cache\<lparr>pc_store := [sample_capability], pc_inflight := [(sample_cache_key, 0)], pc_channels := Suc 0\<rparr>)"
  by (simp add: resolve_load_def prepareEntry_def metadata_matches_def cache_expiry_def Let_def empty_cache_def)
    (simp add: sample_binding_def sample_capability_def sample_config_def sample_entry_def sample_context_def)

lemma sample_stored:
  "resolve_store sample_config sample_binding sample_cache_key [] (Some 0) (Inr (sample_entry\<lparr>cc_lastUsed := 0\<rparr>))
     (empty_cache\<lparr>pc_store := [sample_capability], pc_inflight := [(sample_cache_key, 0)], pc_channels := Suc 0\<rparr>)
   = (Finishing sample_cache_key 0, sample_cached)"
  by (simp add: resolve_store_def Let_def empty_cache_def ProviderEpoch_def evictLRULocked_def sample_cached_def
      sample_entry_def sample_config_def)

lemma sample_reach:
  "(cache_step sample_config sample_provider)\<^sup>*\<^sup>* ([], empty_cache)
     ([(sample_binding, sample_context, Finishing sample_cache_key 0)], sample_cached)"
proof -
  let ?step = "cache_step sample_config sample_provider"
  have "?step ([], empty_cache) ([(sample_binding, sample_context, Entering)], empty_cache)"
    using cache_step.arrives [of sample_config sample_provider "[]"] by simp
  also have "?step\<^sup>*\<^sup>* \<dots> ([(sample_binding, sample_context, Looking)], empty_cache)"
    by (intro r_into_rtranclp sample_runs) (simp add: sample_enter)
  also have "?step\<^sup>*\<^sup>* \<dots> ([(sample_binding, sample_context, Loading sample_cache_key 0 [])],
      empty_cache\<lparr>pc_inflight := [(sample_cache_key, 0)], pc_channels := Suc 0\<rparr>)"
    by (intro r_into_rtranclp sample_runs) (simp add: sample_loading sample_inputs_def)
  also have "?step\<^sup>*\<^sup>* \<dots> ([(sample_binding, sample_context,
        Loaded sample_cache_key 0 [] (Some 0) (Inr (sample_entry\<lparr>cc_lastUsed := 0\<rparr>)))],
      empty_cache\<lparr>pc_store := [sample_capability], pc_inflight := [(sample_cache_key, 0)], pc_channels := Suc 0\<rparr>)"
    by (intro r_into_rtranclp sample_runs) (simp add: sample_loaded sample_inputs_def)
  also have "?step\<^sup>*\<^sup>* \<dots> ([(sample_binding, sample_context, Finishing sample_cache_key 0)], sample_cached)"
    by (intro r_into_rtranclp sample_runs) (simp add: sample_stored)
  finally show ?thesis .
qed

lemma sample_finish:
  "resolve_step sample_config sample_binding sample_context sample_inputs (Finishing sample_cache_key 0) sample_cached
     = Some (Returned (Inr sample_capability), sample_cached)"
  by (simp add: cloneCapability_def UseSecret_def NewCapability_def validateMetadata_def validateSet_def safe_def
      optionalSafe_def sample_cached_def sample_capability_def sample_inputs_def capability_defs
      bounded_text_eval IsZero_def)


theorem cache_key_binds_context_witness:
  "let provider = cbd_Provider sample_binding;
       moved = sample_binding\<lparr>cbd_Provider := provider\<lparr>cpb_Audiences := [''x'', ''y''], cpb_Resources := []\<rparr>\<rparr> in
   moved \<noteq> sample_binding
   \<and> cache_preimage moved sample_context [] = cache_preimage sample_binding sample_context []"
proof -
  let ?moved = "sample_binding\<lparr>cbd_Provider := (cbd_Provider sample_binding)\<lparr>cpb_Audiences := [''x'', ''y''], cpb_Resources := []\<rparr>\<rparr>"
  have "key_wf sample_binding sample_context []" "key_wf ?moved sample_context []"
    by (simp_all add: key_wf_def cache_key_context_def cache_key_targets_def selector_parts_def sample_binding_def
        sample_context_def sample_version_def UUID_String_def FormatBool_def Itoa_def decimal.simps SemanticVersion_String_def)
  from cache_key_binds_context [OF this(2, 1)] show ?thesis
    by (simp add: Let_def cache_key_targets_def) (simp add: sample_binding_def)
qed


end
