(* ===== verification/Connector_Routing.thy ===== *)
theory Connector_Routing
  imports Credential_Binding "HOL-Library.AList"
begin

text \<open>
  From a published tool version to the connector and the credential that serve it: connector instances
  (\<open>internal/domain/connector_instance.go\<close>), the registry of compiled connector operations
  (\<open>internal/connectors/registry.go\<close>) and the selection of a credential binding
  (\<open>internal/app/credential_selection.go\<close>). Executors are opaque values; Go maps keyed by strings are
  association lists.
\<close>

section \<open>Connector instances\<close>

definition maximumDestinationConfigBytes :: nat where
  "maximumDestinationConfigBytes = 16384"

record ConnectorInstanceDefinition =
  cid_ID :: UUID
  cid_TenantID :: UUID
  cid_Selector :: string
  cid_ConnectorType :: string
  cid_DestinationConfig :: string
  cid_ConfigDigest :: Digest
  cid_Enabled :: bool

datatype ConnectorInstance = ConnectorInstance ConnectorInstanceDefinition

fun instance_Definition :: "ConnectorInstance \<Rightarrow> ConnectorInstanceDefinition" where
  "instance_Definition (ConnectorInstance d) = d"

definition credential_names :: "string list" where
  "credential_names = [''authorization'', ''cookie'', ''setcookie'', ''token'', ''accesstoken'',
     ''refreshtoken'', ''clientsecret'', ''privatekey'', ''password'', ''apikey'', ''credential'', ''secret'']"

definition normalized_name :: "string \<Rightarrow> string" where
  "normalized_name key = filter (\<lambda>c. c \<notin> set ''-_. '') (ToLower key)"

fun containsCredentialField :: "json \<Rightarrow> bool" where
  "containsCredentialField (JObject ms) =
     list_ex (\<lambda>(key, child). normalized_name key \<in> set credential_names \<or> containsCredentialField child) ms"
| "containsCredentialField (JArray vs) = list_ex containsCredentialField vs"
| "containsCredentialField _ = False"

definition ValidateConnectorInstanceDefinition :: "ConnectorInstanceDefinition \<Rightarrow> goerror option" where
  "ValidateConnectorInstanceDefinition d =
     (let config = cid_DestinationConfig d in first_err
     [fail_if (cid_ID d = zero_UUID \<or> cid_TenantID d = zero_UUID)
        (ErrNew ''connector instance and tenant IDs are required''),
      fail_if (\<not> validRegistryKey (cid_Selector d) \<or> \<not> validRegistryKey (cid_ConnectorType d))
        (ErrNew ''connector instance selector or type is invalid''),
      fail_if (length config < 2 \<or> length config > maximumDestinationConfigBytes \<or> \<not> json_Valid config)
        (ErrNew ''connector destination configuration is invalid''),
      (case map_option (\<lambda>(v, rest). normalize v) (Decode_value config) of
         Some (JObject ms) \<Rightarrow>
           fail_if (containsCredentialField (JObject ms))
             (ErrNew ''connector destination configuration cannot contain credential material'')
       | _ \<Rightarrow> Some (ErrNew ''connector destination configuration must be an object'')),
      fail_if (DigestBytes config \<noteq> cid_ConfigDigest d)
        (ErrNew ''connector destination configuration digest does not match'')])"

definition NewConnectorInstance :: "ConnectorInstanceDefinition \<Rightarrow> ConnectorInstance result" where
  "NewConnectorInstance d = ensure (ValidateConnectorInstanceDefinition d) (Inr (ConnectorInstance d))"

section \<open>The registry\<close>

record 'x Registration =
  reg_ConnectorType :: string
  reg_Operations :: "(string \<times> 'x option) list"

record 'x RegistryConfig =
  rc_Instances :: "ConnectorInstance list"
  rc_Registrations :: "'x Registration list"

record 'x Registry =
  rg_instances :: "((UUID \<times> string) \<times> ConnectorInstance) list"
  rg_operations :: "((string \<times> string) \<times> 'x) list"

definition register_operations ::
  "string \<Rightarrow> (string \<times> 'x option) list \<Rightarrow> ((string \<times> string) \<times> 'x) list result" where
  "register_operations connectorType ops =
     (if list_ex (\<lambda>(operation, executor). \<not> validRegistryKey operation \<or> executor = None) ops
      then Inl (ErrNew ''connector operation registration is invalid'')
      else Inr (map (\<lambda>(operation, executor). ((connectorType, operation), the executor)) ops))"

fun register_all ::
  "string list \<Rightarrow> ((string \<times> string) \<times> 'x) list \<Rightarrow> 'x Registration list
     \<Rightarrow> (string list \<times> ((string \<times> string) \<times> 'x) list) result" where
  "register_all types operations [] = Inr (types, operations)"
| "register_all types operations (r # rs) =
     (if \<not> validRegistryKey (reg_ConnectorType r) \<or> reg_Operations r = []
      then Inl (ErrNew ''connector registration is invalid'')
      else if reg_ConnectorType r \<in> set types
      then Inl (ErrNew ''connector type is registered more than once'')
      else bind_result (register_operations (reg_ConnectorType r) (reg_Operations r))
        (\<lambda>ops. register_all (reg_ConnectorType r # types) (operations @ ops) rs))"

fun add_instances ::
  "string list \<Rightarrow> (string \<times> string) list \<Rightarrow> ((UUID \<times> string) \<times> ConnectorInstance) list
     \<Rightarrow> ConnectorInstance list \<Rightarrow> ((UUID \<times> string) \<times> ConnectorInstance) list result" where
  "add_instances types identities instances [] = Inr instances"
| "add_instances types identities instances (i # is) =
     (let d = instance_Definition i;
          identity = (UUID_String (cid_TenantID d), UUID_String (cid_ID d));
          key = (cid_TenantID d, cid_Selector d) in
      if ValidateConnectorInstanceDefinition d \<noteq> None
      then Inl (ErrNew ''connector registry contains an invalid instance'')
      else if identity \<in> set identities then Inl (ErrNew ''connector instance identity is duplicated'')
      else if map_of instances key \<noteq> None then Inl (ErrNew ''connector instance selector is ambiguous'')
      else if cid_ConnectorType d \<notin> set types then Inl (ErrNew ''connector instance type is not compiled'')
      else add_instances types (identity # identities) (instances @ [(key, i)]) is)"

definition NewRegistry :: "'x RegistryConfig \<Rightarrow> 'x Registry result" where
  "NewRegistry config =
     (if rc_Instances config = [] \<or> rc_Registrations config = []
      then Inl (ErrNew ''connector registry configuration is incomplete'')
      else bind_result (register_all [] [] (rc_Registrations config)) (\<lambda>(types, operations).
        bind_result (add_instances types [] [] (rc_Instances config)) (\<lambda>instances.
          Inr \<lparr>rg_instances = instances, rg_operations = operations\<rparr>)))"

record 'x Resolved =
  rs_Instance :: ConnectorInstance
  rs_Executor :: 'x

definition Registry_Resolve :: "'x Registry option \<Rightarrow> UUID \<Rightarrow> ToolVersionDefinition \<Rightarrow> 'x Resolved result" where
  "Registry_Resolve registry tenantID tool =
     (case registry of
        None \<Rightarrow> Inl (ErrNew ''connector resolution context is invalid'')
      | Some r \<Rightarrow>
          if tenantID = zero_UUID \<or> ValidateToolVersionDefinition tool \<noteq> None
          then Inl (ErrNew ''connector resolution context is invalid'')
          else (case map_of (rg_instances r) (tenantID, cb_InstanceSelector (tvd_Connector tool)) of
            None \<Rightarrow> Inl (ErrNew ''connector instance is unavailable'')
          | Some i \<Rightarrow>
              let d = instance_Definition i in
              if \<not> cid_Enabled d \<or> cid_ConnectorType d \<noteq> cb_ConnectorType (tvd_Connector tool)
              then Inl (ErrNew ''connector instance does not match trusted tool metadata'')
              else (case map_of (rg_operations r) (cid_ConnectorType d, cb_Operation (tvd_Connector tool)) of
                None \<Rightarrow> Inl (ErrNew ''connector operation is not compiled'')
              | Some executor \<Rightarrow> Inr \<lparr>rs_Instance = i, rs_Executor = executor\<rparr>)))"

section \<open>Selecting a credential binding\<close>

record CredentialSelectionContext =
  csc_TenantID :: UUID
  csc_ConnectorInstanceID :: UUID
  csc_Tool :: ToolVersionDefinition

definition bindingSelectsTool :: "CredentialToolSelector list \<Rightarrow> ToolVersionDefinition \<Rightarrow> bool" where
  "bindingSelectsTool selectors tool =
     list_ex (\<lambda>s. cts_ToolID s = tvd_ToolID tool
       \<and> SemanticVersion_String (cts_Version s) = SemanticVersion_String (tvd_Version tool)
       \<and> cts_CredentialSelector s = tvd_CredentialSelector tool) selectors"

definition binding_matches :: "CredentialSelectionContext \<Rightarrow> CredentialBinding \<Rightarrow> bool" where
  "binding_matches ctx candidate =
     (let d = binding_Definition candidate in
      cbd_Enabled d \<and> cbd_TenantID d = csc_TenantID ctx
      \<and> cbd_ConnectorInstanceID d = csc_ConnectorInstanceID ctx
      \<and> bindingSelectsTool (cbd_ToolSelectors d) (csc_Tool ctx))"

text \<open>The loop keeps the last match and counts them.\<close>

definition scan_bindings ::
  "CredentialSelectionContext \<Rightarrow> CredentialBinding list \<Rightarrow> CredentialBinding option \<times> nat" where
  "scan_bindings ctx candidates =
     foldl (\<lambda>(selected, matches) candidate.
       if binding_matches ctx candidate then (Some candidate, matches + 1) else (selected, matches))
       (None, 0) candidates"

definition SelectCredentialBinding ::
  "CredentialSelectionContext \<Rightarrow> CredentialBinding list \<Rightarrow> CredentialBinding result" where
  "SelectCredentialBinding ctx candidates =
     (if csc_TenantID ctx = zero_UUID \<or> csc_ConnectorInstanceID ctx = zero_UUID
      then Inl (ErrNew ''trusted credential selection context is incomplete'')
      else if ValidateToolVersionDefinition (csc_Tool ctx) \<noteq> None
      then Inl (ErrNew ''trusted credential selection tool is invalid'')
      else (case scan_bindings ctx candidates of
          (Some selected, matches) \<Rightarrow>
            if matches \<noteq> 1 then Inl (ErrNew ''credential binding selection is ambiguous'') else Inr selected
        | (None, _) \<Rightarrow> Inl (ErrNew ''no enabled credential binding matches trusted context'')))"

section \<open>What the registry holds\<close>

abbreviation instance_key :: "ConnectorInstance \<Rightarrow> UUID \<times> string" where
  "instance_key i \<equiv> (cid_TenantID (instance_Definition i), cid_Selector (instance_Definition i))"

lemma add_instances_Inr:
  assumes "add_instances types identities instances is = Inr r"
  shows "r = instances @ map (\<lambda>i. (instance_key i, i)) is"
    and "i \<in> set is \<Longrightarrow> ValidateConnectorInstanceDefinition (instance_Definition i) = None"
    and "i \<in> set is \<Longrightarrow> cid_ConnectorType (instance_Definition i) \<in> set types"
    and "distinct (map fst instances) \<Longrightarrow> distinct (map fst r)"
  using assms
  by (induction types identities instances "is" rule: add_instances.induct)
    (auto simp: Let_def map_of_eq_None_iff split: if_splits)

lemma register_operations_Inr:
  assumes "register_operations t ops = Inr r" "(k, x) \<in> set r"
  shows "\<exists>operation. k = (t, operation) \<and> (operation, Some x) \<in> set ops"
proof -
  from assms(1) have ok: "\<forall>(operation, executor) \<in> set ops. executor \<noteq> None"
    and r: "r = map (\<lambda>(operation, executor). ((t, operation), the executor)) ops"
    by (auto simp: register_operations_def list_ex_iff split: if_splits)
  from assms(2) r obtain operation executor where "(operation, executor) \<in> set ops" "k = (t, operation)" "x = the executor"
    by auto
  with ok show ?thesis by (cases executor) auto
qed

lemma register_all_Inr:
  assumes "register_all types operations rs = Inr (types', operations')"
    "((t, operation), x) \<in> set operations'" "((t, operation), x) \<notin> set operations"
  shows "\<exists>reg \<in> set rs. reg_ConnectorType reg = t \<and> (operation, Some x) \<in> set (reg_Operations reg)"
  using assms
proof (induction types operations rs rule: register_all.induct)
  case (2 types operations reg rs)
  then obtain ops where ops: "register_operations (reg_ConnectorType reg) (reg_Operations reg) = Inr ops"
    and rest: "register_all (reg_ConnectorType reg # types) (operations @ ops) rs = Inr (types', operations')"
    by (auto split: if_splits)
  show ?case
  proof (cases "((t, operation), x) \<in> set ops")
    case True
    from register_operations_Inr [OF ops this] show ?thesis by auto
  next
    case False
    from "2.prems"(1) have "validRegistryKey (reg_ConnectorType reg) \<and> reg_Operations reg \<noteq> []"
      "reg_ConnectorType reg \<notin> set types" by (auto split: if_splits)
    with "2.IH" [OF _ _ rest] False "2.prems" show ?thesis by auto
  qed
qed simp

lemma distinct_key_filter:
  assumes "distinct (map f xs)" "x \<in> set xs"
  shows "filter (\<lambda>y. f y = f x) xs = [x]"
  using assms by (induction xs) (auto simp: filter_empty_conv image_iff)

lemma scan_bindings_filter:
  "scan_bindings ctx cs =
     (if filter (binding_matches ctx) cs = [] then None else Some (last (filter (binding_matches ctx) cs)),
      length (filter (binding_matches ctx) cs))"
  by (induction cs rule: rev_induct) (auto simp: scan_bindings_def)

lemma SelectCredentialBinding_Inr:
  "SelectCredentialBinding ctx cs = Inr b \<Longrightarrow> filter (binding_matches ctx) cs = [b]"
  by (auto simp: SelectCredentialBinding_def scan_bindings_filter length_Suc_conv split: if_splits)

section \<open>Properties\<close>

text \<open>
  C33. Routing follows configuration alone. The connector instance a tool version resolves to is one the
  administrator configured for that very tenant and selector, the only one, enabled, of the connector
  type the tool names and with a destination free of credential fields; the executor is one registered
  for that type and operation; and a credential binding selected for the instance is the only enabled
  candidate of that tenant, instance and exact tool version.
\<close>

theorem routing_is_unique_and_tenant_bound:
  assumes "NewRegistry config = Inr registry" and "Registry_Resolve (Some registry) tenant tool = Inr resolved"
    and "SelectCredentialBinding \<lparr>csc_TenantID = tenant,
      csc_ConnectorInstanceID = cid_ID (instance_Definition (rs_Instance resolved)), csc_Tool = tool\<rparr> candidates = Inr b"
  shows "(let d = instance_Definition (rs_Instance resolved); c = tvd_Connector tool in
      filter (\<lambda>i. instance_key i = (tenant, cb_InstanceSelector c)) (rc_Instances config) = [rs_Instance resolved]
      \<and> cid_Enabled d \<and> cid_ConnectorType d = cb_ConnectorType c \<and> ValidateConnectorInstanceDefinition d = None
      \<and> (\<exists>reg \<in> set (rc_Registrations config). reg_ConnectorType reg = cb_ConnectorType c
           \<and> (cb_Operation c, Some (rs_Executor resolved)) \<in> set (reg_Operations reg))
      \<and> filter (\<lambda>x. cbd_Enabled (binding_Definition x) \<and> cbd_TenantID (binding_Definition x) = tenant
           \<and> cbd_ConnectorInstanceID (binding_Definition x) = cid_ID d
           \<and> bindingSelectsTool (cbd_ToolSelectors (binding_Definition x)) tool) candidates = [b])"
proof -
  let ?i = "rs_Instance resolved" and ?c = "tvd_Connector tool"
  from assms(1) obtain types operations instances where
    reg: "register_all [] [] (rc_Registrations config) = Inr (types, operations)"
    and add: "add_instances types [] [] (rc_Instances config) = Inr instances"
    and r: "registry = \<lparr>rg_instances = instances, rg_operations = operations\<rparr>"
    by (auto simp: NewRegistry_def split: if_splits)
  from assms(2) r have found: "map_of instances (tenant, cb_InstanceSelector ?c) = Some ?i"
    and enabled: "cid_Enabled (instance_Definition ?i)"
    and ty: "cid_ConnectorType (instance_Definition ?i) = cb_ConnectorType ?c"
    and op: "map_of operations (cb_ConnectorType ?c, cb_Operation ?c) = Some (rs_Executor resolved)"
    by (auto simp: Registry_Resolve_def Let_def split: if_splits option.splits)
  note inst = add_instances_Inr [OF add]
  have keys: "distinct (map instance_key (rc_Instances config))" using inst(1, 4) by (simp add: o_def)
  from map_of_SomeD [OF found] inst(1) have mem: "?i \<in> set (rc_Instances config)"
    and key: "instance_key ?i = (tenant, cb_InstanceSelector ?c)" by auto
  have "filter (\<lambda>i. instance_key i = instance_key ?i) (rc_Instances config) = [?i]"
    using distinct_key_filter [OF keys mem] .
  moreover have "\<exists>reg \<in> set (rc_Registrations config). reg_ConnectorType reg = cb_ConnectorType ?c
      \<and> (cb_Operation ?c, Some (rs_Executor resolved)) \<in> set (reg_Operations reg)"
    using register_all_Inr [OF reg map_of_SomeD [OF op]] by simp
  moreover have "binding_matches \<lparr>csc_TenantID = tenant, csc_ConnectorInstanceID = cid_ID (instance_Definition ?i), csc_Tool = tool\<rparr>
      = (\<lambda>x. cbd_Enabled (binding_Definition x) \<and> cbd_TenantID (binding_Definition x) = tenant
           \<and> cbd_ConnectorInstanceID (binding_Definition x) = cid_ID (instance_Definition ?i)
           \<and> bindingSelectsTool (cbd_ToolSelectors (binding_Definition x)) tool)"
    by (simp add: fun_eq_iff binding_matches_def Let_def)
  ultimately show ?thesis
    using enabled ty inst(2) [OF mem] SelectCredentialBinding_Inr [OF assms(3)] key by (simp add: Let_def)
qed

section \<open>Witness\<close>

definition sample_instance :: ConnectorInstance where
  "sample_instance = ConnectorInstance \<lparr>cid_ID = replicate 16 4, cid_TenantID = replicate 16 2,
     cid_Selector = ''main'', cid_ConnectorType = ''github'', cid_DestinationConfig = ''{}'',
     cid_ConfigDigest = DigestBytes ''{}'', cid_Enabled = True\<rparr>"

definition sample_registry_config :: "nat RegistryConfig" where
  "sample_registry_config = \<lparr>rc_Instances = [sample_instance],
     rc_Registrations = [\<lparr>reg_ConnectorType = ''github'', reg_Operations = [(''read'', Some 7)]\<rparr>]\<rparr>"

definition sample_registry :: "nat Registry" where
  "sample_registry = \<lparr>rg_instances = [((replicate 16 2, ''main''), sample_instance)],
     rg_operations = [((''github'', ''read''), 7)]\<rparr>"

definition sample_candidate :: CredentialBinding where
  "sample_candidate = CredentialBinding \<lparr>cbd_ID = replicate 16 1, cbd_TenantID = replicate 16 2,
     cbd_ConnectorInstanceID = replicate 16 4,
     cbd_ToolSelectors = [\<lparr>cts_ToolID = ''github.pulls'', cts_Version = sample_version, cts_CredentialSelector = ''reader''\<rparr>],
     cbd_Provider = \<lparr>cpb_ProviderType = ''k'', cpb_ProviderRef = ''r'', cpb_Capability = ''api_token'',
       cpb_Audiences = [], cpb_Resources = [], cpb_Scopes = []\<rparr>,
     cbd_Delegation = \<lparr>sdp_Mode = ''none'', sdp_TrustedIssuer = []\<rparr>,
     cbd_Cache = \<lparr>ccp_MaximumTTL = 0, ccp_ExpirySkew = 0\<rparr>,
     cbd_RevocationEpoch = [], cbd_PolicyTags = [], cbd_Enabled = True\<rparr>"

lemma sample_instance_valid: "ValidateConnectorInstanceDefinition (instance_Definition sample_instance) = None"
  by (simp add: ValidateConnectorInstanceDefinition_def sample_instance_def Let_def zero_UUID_def tool_eval re_eval
      maximumDestinationConfigBytes_def json_Valid_def Unmarshal_value_def Decode_value_def expect_def skip_ws_def
      is_ws_def max_depth_def)

lemma sample_registry_built: "NewRegistry sample_registry_config = Inr sample_registry"
  using sample_instance_valid
  by (simp add: NewRegistry_def sample_registry_config_def register_operations_def Let_def tool_eval re_eval)
    (simp add: sample_instance_def sample_registry_def)

lemma sample_resolution:
  "Registry_Resolve (Some sample_registry) (replicate 16 2) sample_tool
     = Inr \<lparr>rs_Instance = sample_instance, rs_Executor = 7\<rparr>"
  by (simp add: Registry_Resolve_def sample_tool_valid zero_UUID_def sample_registry_def)
    (simp add: sample_tool_def sample_instance_def)

theorem routing_is_unique_and_tenant_bound_witness:
  "filter (\<lambda>i. instance_key i = (replicate 16 2, ''main'')) (rc_Instances sample_registry_config) = [sample_instance]
   \<and> ValidateConnectorInstanceDefinition (instance_Definition sample_instance) = None"
proof -
  have "SelectCredentialBinding \<lparr>csc_TenantID = replicate 16 2,
      csc_ConnectorInstanceID = cid_ID (instance_Definition (rs_Instance \<lparr>rs_Instance = sample_instance, rs_Executor = 7 :: nat\<rparr>)),
      csc_Tool = sample_tool\<rparr> [sample_candidate] = Inr sample_candidate"
    by (simp add: SelectCredentialBinding_def sample_tool_valid zero_UUID_def scan_bindings_def binding_matches_def
        bindingSelectsTool_def Let_def sample_candidate_def sample_instance_def) (simp add: sample_tool_def)
  from routing_is_unique_and_tenant_bound [OF sample_registry_built sample_resolution this] show ?thesis
    by (simp add: Let_def) (simp add: sample_tool_def)
qed

end
