(* ===== verification/Go_Net.thy ===== *)
theory Go_Net
  imports Go_Bytes Domain_Errors
begin

text \<open>
  What the gateway uses of Go's \<open>net\<close>, \<open>net/netip\<close>, \<open>net/url\<close> and \<open>net/http\<close>: IP addresses with
  their parser and classes, \<open>host:port\<close> splitting, URLs, canonical header names and header maps.
\<close>

unbundle bit_operations_syntax

section \<open>Addresses\<close>

text \<open>A valid address: four bytes, or sixteen with a zone.\<close>

datatype netip_Addr = Addr4 bytes | Addr6 bytes string

definition AddrFromSlice :: "bytes \<Rightarrow> netip_Addr option" where
  "AddrFromSlice bs =
     (if length bs = 4 then Some (Addr4 bs) else if length bs = 16 then Some (Addr6 bs []) else None)"

fun Unmap :: "netip_Addr \<Rightarrow> netip_Addr" where
  "Unmap (Addr4 b) = Addr4 b"
| "Unmap (Addr6 b z) = (if take 12 b = replicate 10 0 @ [0xFF, 0xFF] then Addr4 (drop 12 b) else Addr6 b z)"

definition v6_loopback :: bytes where
  "v6_loopback = replicate 15 0 @ [1]"

fun IsUnspecified :: "netip_Addr \<Rightarrow> bool" where
  "IsUnspecified (Addr4 b) \<longleftrightarrow> b = replicate 4 0"
| "IsUnspecified (Addr6 b z) \<longleftrightarrow> b = replicate 16 0 \<and> z = []"

fun IsLoopback :: "netip_Addr \<Rightarrow> bool" where
  "IsLoopback (Addr4 b) \<longleftrightarrow> b ! 0 = 127"
| "IsLoopback (Addr6 b z) \<longleftrightarrow> b = v6_loopback"

fun IsPrivate :: "netip_Addr \<Rightarrow> bool" where
  "IsPrivate (Addr4 b) \<longleftrightarrow> b ! 0 = 10 \<or> (b ! 0 = 172 \<and> b ! 1 AND 0xF0 = 16) \<or> (b ! 0 = 192 \<and> b ! 1 = 168)"
| "IsPrivate (Addr6 b z) \<longleftrightarrow> b ! 0 AND 0xFE = 0xFC"

fun IsLinkLocalUnicast :: "netip_Addr \<Rightarrow> bool" where
  "IsLinkLocalUnicast (Addr4 b) \<longleftrightarrow> b ! 0 = 169 \<and> b ! 1 = 254"
| "IsLinkLocalUnicast (Addr6 b z) \<longleftrightarrow> b ! 0 = 0xFE \<and> b ! 1 AND 0xC0 = 0x80"

fun IsLinkLocalMulticast :: "netip_Addr \<Rightarrow> bool" where
  "IsLinkLocalMulticast (Addr4 b) \<longleftrightarrow> b ! 0 = 224 \<and> b ! 1 = 0 \<and> b ! 2 = 0"
| "IsLinkLocalMulticast (Addr6 b z) \<longleftrightarrow> b ! 0 = 0xFF \<and> b ! 1 AND 0x0F = 0x02"

fun IsMulticast :: "netip_Addr \<Rightarrow> bool" where
  "IsMulticast (Addr4 b) \<longleftrightarrow> b ! 0 AND 0xF0 = 0xE0"
| "IsMulticast (Addr6 b z) \<longleftrightarrow> b ! 0 = 0xFF"

section \<open>Parsing addresses\<close>

definition v4_field :: "string \<Rightarrow> byte option" where
  "v4_field f =
     (if f = [] \<or> \<not> list_all is_digit f \<or> (hd f = CHR ''0'' \<and> tl f \<noteq> []) \<or> parse_decimal f > 255 then None
      else Some (byte_of_nat (parse_decimal f)))"

definition v4_fields :: "string \<Rightarrow> bytes option" where
  "v4_fields s =
     (case map v4_field (Split s CHR ''.'') of
        [Some a, Some b, Some c, Some d] \<Rightarrow> Some [a, b, c, d]
      | _ \<Rightarrow> None)"

text \<open>One to four hexadecimal digits as two bytes.\<close>

definition hex_group :: "string \<Rightarrow> bytes option" where
  "hex_group ds = (if ds = [] \<or> length ds > 4 then None else hex_DecodeString (replicate (4 - length ds) CHR ''0'' @ ds))"

text \<open>
  The groups of an IPv6 address: the bytes read, where the ellipsis stands, and the text left. The
  first argument bounds the groups still to come.
\<close>

fun v6_groups :: "nat \<Rightarrow> bytes \<Rightarrow> nat option \<Rightarrow> string \<Rightarrow> (bytes \<times> nat option \<times> string) option" where
  "v6_groups 0 acc ellipsis s = Some (acc, ellipsis, s)"
| "v6_groups (Suc n) acc ellipsis s =
     (let ds = takeWhile (\<lambda>c. hex_value c \<noteq> None) s; rest = drop (length ds) s in
      case hex_group ds of None \<Rightarrow> None | Some pair \<Rightarrow>
       let acc' = acc @ pair in
        (case rest of
           [] \<Rightarrow> Some (acc', ellipsis, [])
         | c # t \<Rightarrow>
             if c = CHR ''.'' then
               (if (ellipsis = None \<and> length acc \<noteq> 12) \<or> length acc > 12 then None
                else map_option (\<lambda>b. (acc @ b, ellipsis, [])) (v4_fields s))
             else if c \<noteq> CHR '':'' \<or> t = [] then None
             else if hd t = CHR '':'' then
               (if ellipsis \<noteq> None then None
                else if tl t = [] then Some (acc', Some (length acc'), [])
                else v6_groups n acc' (Some (length acc')) (tl t))
             else v6_groups n acc' ellipsis t))"

definition v6_expand :: "bytes \<times> nat option \<times> string \<Rightarrow> bytes option" where
  "v6_expand r =
     (case r of (b, ellipsis, rest) \<Rightarrow>
        if rest \<noteq> [] then None
        else (case ellipsis of
            None \<Rightarrow> if length b = 16 then Some b else None
          | Some k \<Rightarrow>
              if length b < 16 then Some (take k b @ replicate (16 - length b) 0 @ drop k b) else None))"

definition v6_parse :: "string \<Rightarrow> netip_Addr option" where
  "v6_parse text =
     (case Cut text CHR ''%'' of (s, zone, found) \<Rightarrow>
        if found \<and> zone = [] then None
        else map_option (\<lambda>b. Addr6 b zone)
          (if take 2 s = ''::''
           then if drop 2 s = [] then Some (replicate 16 0)
             else Option.bind (v6_groups 8 [] (Some 0) (drop 2 s)) v6_expand
           else Option.bind (v6_groups 8 [] None s) v6_expand))"

definition ParseAddr :: "string \<Rightarrow> netip_Addr option" where
  "ParseAddr s =
     (case List.find (\<lambda>c. c \<in> set ''.:%'') s of
        Some c \<Rightarrow>
          if c = CHR ''.'' then map_option Addr4 (v4_fields s)
          else if c = CHR '':'' then v6_parse s else None
      | None \<Rightarrow> None)"

section \<open>Hosts and ports\<close>

text \<open>The text before and after the last occurrence of a character.\<close>

definition CutLast :: "string \<Rightarrow> char \<Rightarrow> (string \<times> string) option" where
  "CutLast s c =
     (if c \<notin> set s then None
      else let t = rev (takeWhile (\<lambda>x. x \<noteq> c) (rev s)) in Some (take (length s - length t - 1) s, t))"

definition SplitHostPort :: "string \<Rightarrow> (string \<times> string) option" where
  "SplitHostPort hostport =
     (case CutLast hostport CHR '':'' of
        None \<Rightarrow> None
      | Some (host, port) \<Rightarrow>
          if hd hostport = CHR ''['' then
            (case Cut (tl hostport) CHR '']'' of (inner, after, found) \<Rightarrow>
               if \<not> found \<or> after \<noteq> CHR '':'' # port \<or> CHR ''['' \<in> set (tl hostport) \<or> CHR '']'' \<in> set after
               then None else Some (inner, port))
          else if CHR '':'' \<in> set host \<or> CHR ''['' \<in> set hostport \<or> CHR '']'' \<in> set hostport then None
          else Some (host, port))"

section \<open>URLs\<close>

text \<open>The parts of a \<open>url.URL\<close> the gateway reads; schemes are ASCII, as \<open>url.Parse\<close> guarantees.\<close>

record url =
  u_Scheme :: string
  u_User :: bool
  u_Host :: string
  u_Path :: string
  u_RawQuery :: string
  u_Fragment :: string

definition host_parts :: "string \<Rightarrow> string \<times> string" where
  "host_parts hostport =
     (let (host, port) = (case CutLast hostport CHR '':'' of
          Some (h, p) \<Rightarrow> if list_all is_digit p then (h, p) else (hostport, [])
        | None \<Rightarrow> (hostport, [])) in
      (if host \<noteq> [] \<and> hd host = CHR ''['' \<and> last host = CHR '']'' \<and> length host > 1 then butlast (tl host) else host, port))"

definition Hostname :: "url \<Rightarrow> string" where
  "Hostname u = fst (host_parts (u_Host u))"

definition url_Port :: "url \<Rightarrow> string" where
  "url_Port u = snd (host_parts (u_Host u))"

text \<open>
  \<open>url.Parse\<close>: fragment, control bytes, scheme, query, authority and path, with the percent-encoding
  rules of each part. An opaque URL has no host.
\<close>

fun unescape :: "string \<Rightarrow> string option" where
  "unescape [] = Some []"
| "unescape (c # s) =
     (if c = CHR ''%'' then
        (case s of
           a # b # t \<Rightarrow> (case hex_DecodeString [a, b] of
               Some bs \<Rightarrow> map_option (\<lambda>r. string_of_bytes bs @ r) (unescape t)
             | None \<Rightarrow> None)
         | _ \<Rightarrow> None)
      else map_option (\<lambda>r. c # r) (unescape s))"

definition is_letter :: "char \<Rightarrow> bool" where
  "is_letter c \<longleftrightarrow> (CHR ''a'' \<le> c \<and> c \<le> CHR ''z'') \<or> (CHR ''A'' \<le> c \<and> c \<le> CHR ''Z'')"

definition host_char :: "char \<Rightarrow> bool" where
  "host_char c \<longleftrightarrow> CHR 0x80 \<le> c \<or> is_letter c \<or> is_digit c
     \<or> c \<in> set ''!$&()*+,;=:[]<>-_.~'' \<or> c = CHR 0x27 \<or> c = CHR 0x22"

text \<open>In a host, an escape stands for a non-ASCII byte or is \<open>%25\<close>; in a zone it may be any host byte or a blank.\<close>

fun host_escapes :: "bool \<Rightarrow> string \<Rightarrow> bool" where
  "host_escapes zone [] = True"
| "host_escapes zone (c # s) =
     (if c = CHR ''%'' then
        (case s of
           a # b # t \<Rightarrow> (case hex_DecodeString [a, b] of
               Some [v] \<Rightarrow> ([a, b] = ''25'' \<or> 0x80 \<le> v \<or> (zone \<and> (v = 0x20 \<or> host_char (char_of_byte v)))) \<and> host_escapes zone t
             | _ \<Rightarrow> False)
         | _ \<Rightarrow> False)
      else host_char c \<and> host_escapes zone s)"

fun find_substring :: "string \<Rightarrow> string \<Rightarrow> nat option" where
  "find_substring pat [] = (if pat = [] then Some 0 else None)"
| "find_substring pat (c # s) = (if HasPrefix (c # s) pat then Some 0 else map_option Suc (find_substring pat s))"

definition valid_optional_port :: "string \<Rightarrow> bool" where
  "valid_optional_port s \<longleftrightarrow> s = [] \<or> (hd s = CHR '':'' \<and> list_all is_digit (tl s))"

definition parse_host :: "string \<Rightarrow> string option" where
  "parse_host host =
     (if HasPrefix host ''['' then
        (case CutLast host CHR '']'' of
           None \<Rightarrow> None
         | Some (inner, colonPort) \<Rightarrow>
             if \<not> valid_optional_port colonPort then None
             else (case find_substring ''%25'' inner of
                 Some i \<Rightarrow>
                   if host_escapes False (take i host) \<and> host_escapes True (drop i inner)
                      \<and> host_escapes False (CHR '']'' # colonPort)
                   then unescape host else None
               | None \<Rightarrow> if host_escapes False host then unescape host else None))
      else if (case CutLast host CHR '':'' of Some (_, port) \<Rightarrow> \<not> list_all is_digit port | None \<Rightarrow> False) then None
      else if host_escapes False host then unescape host else None)"

definition userinfo_char :: "char \<Rightarrow> bool" where
  "userinfo_char c \<longleftrightarrow> is_letter c \<or> is_digit c \<or> c \<in> set ''-._:~!$&()*+,;=%@'' \<or> c = CHR 0x27"

definition parse_authority :: "string \<Rightarrow> (bool \<times> string) option" where
  "parse_authority authority =
     (case CutLast authority CHR ''@'' of
        None \<Rightarrow> map_option (\<lambda>h. (False, h)) (parse_host authority)
      | Some (userinfo, host) \<Rightarrow>
          (case parse_host host of
             None \<Rightarrow> None
           | Some h \<Rightarrow>
               if list_all userinfo_char userinfo \<and> unescape userinfo \<noteq> None then Some (True, h) else None))"

fun scheme_end :: "string \<Rightarrow> nat \<Rightarrow> nat option" where
  "scheme_end [] i = Some 0"
| "scheme_end (c # s) i =
     (if is_letter c then scheme_end s (Suc i)
      else if is_digit c \<or> c \<in> set ''+-.'' then (if i = 0 then Some 0 else scheme_end s (Suc i))
      else if c = CHR '':'' then (if i = 0 then None else Some i)
      else Some 0)"

definition parse_rest :: "string \<Rightarrow> string \<Rightarrow> url option" where
  "parse_rest scheme text =
     (let (rest, query) =
        (if text \<noteq> [] \<and> last text = CHR ''?'' \<and> CHR ''?'' \<notin> set (butlast text) then (butlast text, [])
         else case Cut text CHR ''?'' of (r, q, _) \<Rightarrow> (r, q));
          blank = \<lparr>u_Scheme = scheme, u_User = False, u_Host = [], u_Path = [], u_RawQuery = query, u_Fragment = []\<rparr> in
      if \<not> HasPrefix rest ''/'' then
        (if scheme \<noteq> [] then Some blank
         else if CHR '':'' \<in> set (takeWhile (\<lambda>c. c \<noteq> CHR ''/'') rest) then None
         else map_option (\<lambda>p. blank\<lparr>u_Path := p\<rparr>) (unescape rest))
      else if HasPrefix rest ''//'' \<and> (scheme \<noteq> [] \<or> \<not> HasPrefix rest ''///'') then
        (let authority = takeWhile (\<lambda>c. c \<noteq> CHR ''/'') (drop 2 rest);
             path = drop (length authority) (drop 2 rest) in
         case (parse_authority authority, unescape path) of
           (Some (user, host), Some p) \<Rightarrow> Some (blank\<lparr>u_User := user, u_Host := host, u_Path := p\<rparr>)
         | _ \<Rightarrow> None)
      else map_option (\<lambda>p. blank\<lparr>u_Path := p\<rparr>) (unescape rest))"

definition url_Parse :: "string \<Rightarrow> url option" where
  "url_Parse raw =
     (case Cut raw CHR ''#'' of (u, frag, _) \<Rightarrow>
        if list_ex (\<lambda>c. c < CHR 0x20 \<or> c = CHR 0x7F) u then None
        else (case scheme_end u 0 of
            None \<Rightarrow> None
          | Some n \<Rightarrow>
              (case (parse_rest (ToLower (take n u)) (if n = 0 then u else drop (Suc n) u), unescape frag) of
                 (Some r, Some f) \<Rightarrow> Some (r\<lparr>u_Fragment := f\<rparr>)
               | _ \<Rightarrow> None)))"

definition EqualFold :: "string \<Rightarrow> string \<Rightarrow> bool" where
  "EqualFold a b \<longleftrightarrow> map lower_char a = map lower_char b"

definition TrimSuffix :: "string \<Rightarrow> string \<Rightarrow> string" where
  "TrimSuffix s x = (if HasPrefix (rev s) (rev x) then take (length s - length x) s else s)"

section \<open>Headers\<close>

type_synonym Header = "(string \<times> string list) list"

definition upper_char :: "char \<Rightarrow> char" where
  "upper_char c = (if 97 \<le> (of_char c :: nat) \<and> (of_char c :: nat) \<le> 122 then char_of ((of_char c :: nat) - 32) else c)"

text \<open>
  \<open>strings.ToUpper\<close>: ASCII letters, and the two non-ASCII letters whose upper case is an ASCII letter
  (U+017F and U+0131). The uses compare the result with ASCII text, for which this is the same.
\<close>

fun ToUpper :: "string \<Rightarrow> string" where
  "ToUpper (a # b # s) =
     (if a = CHR 0xC5 \<and> b = CHR 0xBF then CHR ''S'' # ToUpper s
      else if a = CHR 0xC4 \<and> b = CHR 0xB1 then CHR ''I'' # ToUpper s
      else upper_char a # ToUpper (b # s))"
| "ToUpper [a] = [upper_char a]"
| "ToUpper [] = []"

definition token_char :: "char \<Rightarrow> bool" where
  "token_char c \<longleftrightarrow> is_digit c \<or> lower_char c \<noteq> c \<or> upper_char c \<noteq> c
     \<or> c \<in> set ''!#$%&*+-.^_`|~'' \<or> c = CHR 0x27"

fun canonical_from :: "bool \<Rightarrow> string \<Rightarrow> string" where
  "canonical_from upper [] = []"
| "canonical_from upper (c # s) =
     (if upper then upper_char c else lower_char c) # canonical_from (c = CHR ''-'') s"

text \<open>\<open>http.CanonicalHeaderKey\<close>; a name with a byte that is no token character is left alone.\<close>

definition CanonicalHeaderKey :: "string \<Rightarrow> string" where
  "CanonicalHeaderKey s = (if list_all token_char s then canonical_from True s else s)"

definition header_Del :: "string \<Rightarrow> Header \<Rightarrow> Header" where
  "header_Del name h = filter (\<lambda>(k, _). k \<noteq> CanonicalHeaderKey name) h"

definition header_Values :: "string \<Rightarrow> Header \<Rightarrow> string list" where
  "header_Values name h = (case map_of h (CanonicalHeaderKey name) of None \<Rightarrow> [] | Some vs \<Rightarrow> vs)"

definition header_Get :: "string \<Rightarrow> Header \<Rightarrow> string" where
  "header_Get name h = (case header_Values name h of [] \<Rightarrow> [] | v # _ \<Rightarrow> v)"

end
