(* ===== verification/Downstream_HTTP.thy ===== *)
theory Downstream_HTTP
  imports Go_Net
begin

text \<open>
  The HTTP boundary of networked connectors (\<open>internal/connectors/downstreamhttp/client.go\<close>): the
  compiled destination policy, the checks of URLs and headers, the redirect rule, dialling with checked
  addresses, the bounded response body and the request operation.

  DNS, connections, HTTP exchanges and the clock are parameters that act on an abstract world. Host
  names are ASCII: \<open>ToLower\<close> leaves other letters alone.
\<close>

section \<open>Policy\<close>

definition maximumRedirects :: int where "maximumRedirects = 5"
definition maximumResponseBody :: int where "maximumResponseBody = 16 * 2 ^ 20"

definition ErrDestinationDenied :: goerror where
  "ErrDestinationDenied = ErrVar ''ErrDestinationDenied'' ''downstream HTTP destination denied''"
definition ErrUnsafeHeader :: goerror where
  "ErrUnsafeHeader = ErrVar ''ErrUnsafeHeader'' ''downstream HTTP header denied''"
definition ErrRequestFailed :: goerror where
  "ErrRequestFailed = ErrVar ''ErrRequestFailed'' ''downstream HTTP request failed''"
definition ErrResponseBodyTooLarge :: goerror where
  "ErrResponseBodyTooLarge = ErrVar ''ErrResponseBodyTooLarge'' ''downstream HTTP response body exceeds limit''"

lemmas downstream_errors =
  ErrDestinationDenied_def ErrUnsafeHeader_def ErrRequestFailed_def ErrResponseBodyTooLarge_def

record Policy =
  dp_AllowedSchemes :: "string list"
  dp_AllowedHosts :: "string list"
  dp_AllowedPorts :: "nat list"
  dp_AllowedRequestHeaders :: "string list"
  dp_AllowPrivateAddresses :: bool
  dp_MaxRedirects :: int
  dp_RequestTimeout :: duration
  dp_ConnectTimeout :: duration
  dp_ResponseHeaderTimeout :: duration
  dp_MaxResponseBodyBytes :: int
  dp_MaxConnectionsPerHost :: int

record compiledPolicy =
  cp_schemes :: "string list"
  cp_hosts :: "string list"
  cp_headers :: "string list"
  cp_ports :: "nat list"
  cp_allowPrivate :: bool
  cp_maxRedirects :: int
  cp_maxBody :: int

definition normalizeHost :: "string \<Rightarrow> string" where
  "normalizeHost host = TrimSuffix (ToLower (TrimSpace host)) ''.''"

definition forbiddenHeader :: "string \<Rightarrow> bool" where
  "forbiddenHeader name \<longleftrightarrow> ToLower name \<in> set
     [''connection'', ''proxy-connection'', ''keep-alive'', ''transfer-encoding'', ''te'', ''trailer'',
      ''upgrade'', ''host'', ''proxy-authorization'', ''forwarded'', ''x-forwarded-for'',
      ''x-forwarded-host'', ''x-forwarded-proto'']"

definition compilePolicy :: "Policy \<Rightarrow> compiledPolicy result" where
  "compilePolicy policy =
     (let schemes = map (\<lambda>s. ToLower (TrimSpace s)) (dp_AllowedSchemes policy);
          hosts = map normalizeHost (dp_AllowedHosts policy);
          headers = map (\<lambda>h. CanonicalHeaderKey (TrimSpace h)) (dp_AllowedRequestHeaders policy) in
      ensure (first_err
        [fail_if (dp_RequestTimeout policy \<le> 0 \<or> dp_ConnectTimeout policy \<le> 0 \<or> dp_ResponseHeaderTimeout policy \<le> 0
           \<or> dp_MaxResponseBodyBytes policy \<le> 0 \<or> dp_MaxResponseBodyBytes policy > maximumResponseBody
           \<or> dp_MaxConnectionsPerHost policy \<le> 0)
           (ErrNew ''downstream HTTP limits are invalid''),
         fail_if (dp_MaxRedirects policy < 0 \<or> dp_MaxRedirects policy > maximumRedirects)
           (ErrNew ''downstream HTTP redirect limit is invalid''),
         fail_if (list_ex (\<lambda>s. s \<noteq> ''https'') schemes)
           (ErrNew ''only HTTPS downstream destinations are supported''),
         fail_if (list_ex (\<lambda>h. h = [] \<or> ContainsAny h ''/?#@:%*[]'') hosts)
           (ErrNew ''downstream HTTP host allowlist is invalid''),
         fail_if (list_ex (\<lambda>p. p = 0) (dp_AllowedPorts policy))
           (ErrNew ''downstream HTTP port allowlist is invalid''),
         fail_if (list_ex (\<lambda>h. h = [] \<or> forbiddenHeader h) headers)
           (ErrNew ''downstream HTTP header allowlist is invalid''),
         fail_if (schemes = [] \<or> hosts = [] \<or> dp_AllowedPorts policy = [])
           (ErrNew ''downstream HTTP destination allowlist is required'')])
      (Inr \<lparr>cp_schemes = schemes, cp_hosts = hosts, cp_headers = headers, cp_ports = dp_AllowedPorts policy,
            cp_allowPrivate = dp_AllowPrivateAddresses policy, cp_maxRedirects = dp_MaxRedirects policy,
            cp_maxBody = dp_MaxResponseBodyBytes policy\<rparr>))"

section \<open>Destinations and headers\<close>

definition prohibitedAddress :: "netip_Addr \<Rightarrow> bool" where
  "prohibitedAddress address =
     (let a = Unmap address in IsUnspecified a \<or> IsLoopback a \<or> IsPrivate a \<or> IsLinkLocalUnicast a
        \<or> IsLinkLocalMulticast a \<or> IsMulticast a)"

definition effectivePort :: "url \<Rightarrow> nat result" where
  "effectivePort target =
     (let v = url_Port target in
      if v = [] then (if EqualFold (u_Scheme target) ''https'' then Inr 443 else Inl ErrDestinationDenied)
      else if \<not> list_all is_digit v \<or> int (parse_decimal v) > 65535 \<or> parse_decimal v = 0 then Inl ErrDestinationDenied
      else Inr (parse_decimal v))"

text \<open>The port a caller that drops the error sees.\<close>

definition port_or_zero :: "nat result \<Rightarrow> nat" where
  "port_or_zero r = (case r of Inr p \<Rightarrow> p | Inl _ \<Rightarrow> 0)"

definition sameAuthority :: "url \<Rightarrow> url \<Rightarrow> bool" where
  "sameAuthority left right \<longleftrightarrow>
     EqualFold (u_Scheme left) (u_Scheme right)
     \<and> normalizeHost (Hostname left) = normalizeHost (Hostname right)
     \<and> port_or_zero (effectivePort left) = port_or_zero (effectivePort right)"

definition validateURL :: "compiledPolicy \<Rightarrow> url option \<Rightarrow> goerror option" where
  "validateURL policy url =
     (case url of None \<Rightarrow> Some ErrDestinationDenied | Some target \<Rightarrow>
        let host = normalizeHost (Hostname target) in
        first_err
          [fail_if (u_User target \<or> u_RawQuery target \<noteq> [] \<or> u_Fragment target \<noteq> [] \<or> u_Host target = [])
             ErrDestinationDenied,
           fail_if (ToLower (u_Scheme target) \<notin> set (cp_schemes policy)) ErrDestinationDenied,
           fail_if (host \<notin> set (cp_hosts policy)) ErrDestinationDenied,
           (case effectivePort target of
              Inl _ \<Rightarrow> Some ErrDestinationDenied
            | Inr port \<Rightarrow> fail_if (port \<notin> set (cp_ports policy)) ErrDestinationDenied),
           (case ParseAddr host of
              Some address \<Rightarrow> fail_if (\<not> cp_allowPrivate policy \<and> prohibitedAddress address) ErrDestinationDenied
            | None \<Rightarrow> None)])"

definition header_error :: "compiledPolicy \<Rightarrow> string \<times> string list \<Rightarrow> goerror option" where
  "header_error policy entry =
     (let canonical = CanonicalHeaderKey (fst entry) in
      fail_if (forbiddenHeader canonical \<or> canonical \<notin> set (cp_headers policy)
          \<or> list_ex (\<lambda>v. ContainsAny v [CHR 0x0D, CHR 0x0A]) (snd entry))
        ErrUnsafeHeader)"

definition validateHeaders :: "compiledPolicy \<Rightarrow> Header \<Rightarrow> goerror option" where
  "validateHeaders policy headers = first_err (map (header_error policy) headers)"

section \<open>Dialling\<close>

type_synonym 'w resolver = "string \<Rightarrow> 'w \<Rightarrow> bytes list result \<times> 'w"
type_synonym ('w, 'c) dialer = "netip_Addr \<times> string \<Rightarrow> 'w \<Rightarrow> 'c result \<times> 'w"

fun dial_each :: "('w, 'c) dialer \<Rightarrow> string \<Rightarrow> netip_Addr list \<Rightarrow> goerror \<Rightarrow> 'w \<Rightarrow> 'c result \<times> 'w" where
  "dial_each dialer port [] dialErr w = (Inl (ErrWrap ''connect downstream host'' dialErr), w)"
| "dial_each dialer port (candidate # candidates) dialErr w =
     (case dialer (candidate, port) w of
        (Inr connection, w') \<Rightarrow> (Inr connection, w')
      | (Inl err, w') \<Rightarrow> dial_each dialer port candidates err w')"

text \<open>The candidates, or nothing when one of them is no address or a prohibited one.\<close>

fun validated_candidates :: "compiledPolicy \<Rightarrow> bytes list \<Rightarrow> netip_Addr list option" where
  "validated_candidates policy [] = Some []"
| "validated_candidates policy (ip # ips) =
     (case AddrFromSlice ip of
        None \<Rightarrow> None
      | Some parsed \<Rightarrow>
          if \<not> cp_allowPrivate policy \<and> prohibitedAddress parsed then None
          else map_option (\<lambda>vs. Unmap parsed # vs) (validated_candidates policy ips))"

definition secureDialContext ::
  "'w resolver \<Rightarrow> ('w, 'c) dialer \<Rightarrow> compiledPolicy \<Rightarrow> string \<Rightarrow> 'w \<Rightarrow> 'c result \<times> 'w" where
  "secureDialContext resolver dialer policy address w =
     (case SplitHostPort address of
        None \<Rightarrow> (Inl ErrDestinationDenied, w)
      | Some (host, port) \<Rightarrow>
         (case ParseAddr host of
            Some literal \<Rightarrow>
              if \<not> cp_allowPrivate policy \<and> prohibitedAddress literal then (Inl ErrDestinationDenied, w)
              else dialer (literal, port) w
          | None \<Rightarrow>
             (case resolver host w of
                (Inr (ip # ips), w') \<Rightarrow>
                  (case validated_candidates policy (ip # ips) of
                     None \<Rightarrow> (Inl ErrDestinationDenied, w')
                   | Some candidates \<Rightarrow> dial_each dialer port candidates (ErrNew []) w')
              | (_, w') \<Rightarrow> (Inl (ErrWrap ''resolve downstream host'' ErrDestinationDenied), w'))))"

section \<open>Requests and redirects\<close>

record http_request =
  hr_Method :: string
  hr_URL :: "url option"
  hr_Header :: Header

record http_response =
  rs_StatusCode :: int
  rs_ContentLength :: int
  rs_Body :: bytes

text \<open>The headers a redirect keeps: no referrer, and no credentials for another authority.\<close>

definition redirect_headers :: "http_request list \<Rightarrow> http_request \<Rightarrow> Header" where
  "redirect_headers via request =
     (let kept = header_Del ''Referer'' (hr_Header request);
          crossed = (case via of [] \<Rightarrow> False | first # _ \<Rightarrow> \<not> sameAuthority (the (hr_URL first)) (the (hr_URL request))) in
      if crossed
      then header_Del ''Proxy-Authorization'' (header_Del ''Cookie'' (header_Del ''Authorization'' kept))
      else kept)"

definition checkRedirect :: "compiledPolicy \<Rightarrow> http_request \<Rightarrow> http_request list \<Rightarrow> http_request result" where
  "checkRedirect policy request via =
     ensure (first_err
       [fail_if (int (length via) > cp_maxRedirects policy) ErrDestinationDenied,
        validateURL policy (hr_URL request)])
     (let headers = redirect_headers via request in
      ensure (validateHeaders policy headers) (Inr (request\<lparr>hr_Header := headers\<rparr>)))"

text \<open>
  One exchange: an answer, a redirect with the request \<open>net/http\<close> prepared for it, or a failure.
  \<open>http_Do\<close> is the loop of \<open>http.Client.Do\<close> around \<open>checkRedirect\<close>.
\<close>

datatype hop = Answered http_response | Redirecting http_request | Failed goerror

function http_Do ::
  "(http_request \<Rightarrow> 'w \<Rightarrow> hop \<times> 'w) \<Rightarrow> compiledPolicy \<Rightarrow> http_request list \<Rightarrow> http_request \<Rightarrow> 'w
     \<Rightarrow> http_response result \<times> 'w" where
  "http_Do send policy via request w =
     (case send request w of
        (Answered response, w') \<Rightarrow> (Inr response, w')
      | (Failed err, w') \<Rightarrow> (Inl err, w')
      | (Redirecting nxt, w') \<Rightarrow>
         (case checkRedirect policy nxt (via @ [request]) of
            Inl err \<Rightarrow> (Inl (ErrWrap ''redirect'' err), w')
          | Inr prepared \<Rightarrow> http_Do send policy (via @ [request]) prepared w'))"
  by pat_completeness auto

lemma canonical_names [simp]:
  "CanonicalHeaderKey ''Referer'' = ''Referer''" "CanonicalHeaderKey ''Authorization'' = ''Authorization''"
  "CanonicalHeaderKey ''Cookie'' = ''Cookie''" "CanonicalHeaderKey ''Proxy-Authorization'' = ''Proxy-Authorization''"
  by code_simp+

lemma checkRedirect_Inr:
  assumes "checkRedirect policy request via = Inr prepared"
  shows "int (length via) \<le> cp_maxRedirects policy" "validateURL policy (hr_URL prepared) = None"
    "validateHeaders policy (hr_Header prepared) = None" "hr_URL prepared = hr_URL request"
    "hr_Header prepared = redirect_headers via request"
  using assms by (auto simp: checkRedirect_def Let_def)

lemma redirect_headers_crossed:
  assumes "via \<noteq> []" "\<not> sameAuthority (the (hr_URL (hd via))) (the (hr_URL request))"
    and "(k, vs) \<in> set (redirect_headers via request)"
  shows "k \<noteq> ''Authorization''" "k \<noteq> ''Cookie''"
  using assms by (auto simp: redirect_headers_def header_Del_def Let_def neq_Nil_conv)

termination http_Do
proof (relation "measure (\<lambda>(send, policy, via, request, w). nat (cp_maxRedirects policy + 1 - int (length via)))")
  fix send :: "http_request \<Rightarrow> 'w \<Rightarrow> hop \<times> 'w"
    and policy :: compiledPolicy and via :: "http_request list" and request :: http_request and w :: 'w
    and x :: "hop \<times> 'w" and answer w' nxt prepared
  assume "checkRedirect policy nxt (via @ [request]) = Inr prepared"
  from checkRedirect_Inr(1) [OF this] have "int (length via) + 1 \<le> cp_maxRedirects policy" by simp
  then show "((send, policy, via @ [request], prepared, w'), send, policy, via, request, w)
      \<in> measure (\<lambda>(send, policy, via, request, w). nat (cp_maxRedirects policy + 1 - int (length via)))"
    by simp
qed simp

section \<open>The bounded response body\<close>

text \<open>
  \<open>boundedBody\<close> over \<open>io.LimitReader\<close>: the bytes the peer still sends, the limit reader's count and the
  remaining allowance.
\<close>

record boundedBody =
  bb_source :: bytes
  bb_limit :: int
  bb_remaining :: int

datatype read_end = More | EOF | Broken goerror

text \<open>
  One read of at most \<open>n\<close> bytes; \<open>k\<close> bounds what the connection delivers at once.
\<close>

definition limited_read :: "nat \<Rightarrow> nat \<Rightarrow> boundedBody \<Rightarrow> bytes \<times> read_end \<times> boundedBody" where
  "limited_read n k body =
     (if bb_limit body \<le> 0 \<or> bb_source body = [] then ([], EOF, body)
      else let m = min k (min n (nat (bb_limit body))) in
        (take m (bb_source body), More,
         body\<lparr>bb_source := drop m (bb_source body), bb_limit := bb_limit body - int (length (take m (bb_source body)))\<rparr>))"

definition body_Read :: "nat \<Rightarrow> nat \<Rightarrow> boundedBody \<Rightarrow> bytes \<times> read_end \<times> boundedBody" where
  "body_Read n k body =
     (case limited_read n k body of (data, status, body') \<Rightarrow>
        let remaining = bb_remaining body' - int (length data);
            body'' = body'\<lparr>bb_remaining := remaining\<rparr> in
        (data, if remaining < 0 then Broken ErrResponseBodyTooLarge else status, body''))"

lemma limited_read_decreases:
  "limited_read (Suc n) (Suc k) body = (data, More, body') \<Longrightarrow> length (bb_source body') < length (bb_source body)"
  by (auto simp: limited_read_def Let_def min_def split: if_splits)

lemma body_Read_decreases:
  assumes "body_Read (Suc n) (Suc k) body = (data, More, body')"
  shows "length (bb_source body') < length (bb_source body)"
  using assms limited_read_decreases [of n k body]
  by (auto simp: body_Read_def Let_def split: prod.splits if_splits)

text \<open>\<open>io.ReadAll\<close> with arbitrary positive buffer and delivery sizes.\<close>

function ReadAll :: "(nat \<Rightarrow> nat \<times> nat) \<Rightarrow> nat \<Rightarrow> bytes \<Rightarrow> boundedBody \<Rightarrow> bytes result" where
  "ReadAll sizes i acc body =
     (case body_Read (Suc (fst (sizes i))) (Suc (snd (sizes i))) body of
        (data, More, body') \<Rightarrow> ReadAll sizes (Suc i) (acc @ data) body'
      | (data, EOF, body') \<Rightarrow> Inr (acc @ data)
      | (data, Broken err, body') \<Rightarrow> Inl err)"
  by pat_completeness auto

termination ReadAll
  by (relation "measure (\<lambda>(sizes, i, acc, body). length (bb_source body))")
    (auto intro!: body_Read_decreases [OF sym])

declare http_Do.simps [simp del] ReadAll.simps [simp del]

section \<open>The request operation\<close>

definition stableName :: "string \<Rightarrow> bool" where
  "stableName v \<longleftrightarrow> v \<noteq> [] \<and> length v \<le> 128
     \<and> list_all (\<lambda>c. (CHR ''a'' \<le> c \<and> c \<le> CHR ''z'') \<or> is_digit c \<or> c = CHR ''.'' \<or> c = CHR ''_'') v"

definition stableMethod :: "string \<Rightarrow> string" where
  "stableMethod v = (let m = ToUpper v in
     if m \<in> set [''GET'', ''POST'', ''PUT'', ''PATCH'', ''DELETE'', ''HEAD''] then m else ''OTHER'')"

definition statusClass :: "int \<Rightarrow> string" where
  "statusClass status = (if status < 100 \<or> status > 599 then ''unknown'' else Itoa (quot64 status 100) @ ''xx'')"

record Event =
  ev_Operation :: string
  ev_Method :: string
  ev_Outcome :: string
  ev_StatusClass :: string
  ev_Duration :: duration

definition downstream_error :: "goerror \<Rightarrow> goerror" where
  "downstream_error err =
     (if errors_Is err ErrResponseBodyTooLarge then ErrResponseBodyTooLarge
      else if errors_Is err ErrDestinationDenied then ErrDestinationDenied
      else if errors_Is err ErrUnsafeHeader then ErrUnsafeHeader
      else if errors_Is err context_Canceled then context_Canceled
      else if errors_Is err context_DeadlineExceeded then context_DeadlineExceeded
      else ErrRequestFailed)"

text \<open>
  The response with its bounded body, what the observer sees when a request was sent, and the world. A
  nil request is \<^const>\<open>None\<close>.
\<close>

definition client_Do ::
  "(http_request \<Rightarrow> 'w \<Rightarrow> hop \<times> 'w) \<Rightarrow> ('w \<Rightarrow> instant \<times> 'w) \<Rightarrow> compiledPolicy \<Rightarrow> string \<Rightarrow> http_request option \<Rightarrow> 'w
     \<Rightarrow> (http_response \<times> boundedBody) result \<times> Event option \<times> 'w" where
  "client_Do send now policy operation request w =
     (case request of None \<Rightarrow> (Inl (ErrNew ''downstream HTTP request is invalid''), None, w) | Some req \<Rightarrow>
        (case first_err
           [fail_if (hr_URL req = None) (ErrNew ''downstream HTTP request is invalid''),
            fail_if (\<not> stableName operation) (ErrNew ''downstream HTTP operation is invalid''),
            validateURL policy (hr_URL req),
            validateHeaders policy (hr_Header req)] of
           Some err \<Rightarrow> (Inl err, None, w)
         | None \<Rightarrow>
             (case now w of (started, w1) \<Rightarrow> case http_Do send policy [] req w1 of (result, w2) \<Rightarrow>
              case now w2 of (finished, w3) \<Rightarrow>
              let event = \<lparr>ev_Operation = operation, ev_Method = stableMethod (hr_Method req),
                    ev_Outcome = ''transport_error'', ev_StatusClass = [], ev_Duration = time_Sub finished started\<rparr> in
              case result of
                Inl err \<Rightarrow> (Inl (downstream_error err), Some event, w3)
              | Inr response \<Rightarrow>
                  let event' = event\<lparr>ev_StatusClass := statusClass (rs_StatusCode response)\<rparr> in
                  if rs_ContentLength response > cp_maxBody policy
                  then (Inl ErrResponseBodyTooLarge, Some (event'\<lparr>ev_Outcome := ''response_too_large''\<rparr>), w3)
                  else (Inr (response, \<lparr>bb_source = rs_Body response, bb_limit = cp_maxBody policy + 1,
                                        bb_remaining = cp_maxBody policy\<rparr>),
                        Some (event'\<lparr>ev_Outcome := ''response''\<rparr>), w3))))"

section \<open>What leaves the gateway\<close>

text \<open>A world that also records the arguments of the calls made to one of the parameters.\<close>

definition logged :: "('a \<Rightarrow> 'w \<Rightarrow> 'r \<times> 'w) \<Rightarrow> 'a \<Rightarrow> 'w \<times> 'a list \<Rightarrow> 'r \<times> 'w \<times> 'a list" where
  "logged f a st = (case st of (w, log) \<Rightarrow> case f a w of (r, w') \<Rightarrow> (r, w', log @ [a]))"

definition unlogged :: "('w \<Rightarrow> 'r \<times> 'w) \<Rightarrow> 'w \<times> 'a list \<Rightarrow> 'r \<times> 'w \<times> 'a list" where
  "unlogged f st = (case st of (w, log) \<Rightarrow> case f w of (r, w') \<Rightarrow> (r, w', log))"

lemmas log_simps = logged_def unlogged_def

text \<open>A request within the policy, for a call that started at \<open>first\<close>.\<close>

definition permitted_request :: "compiledPolicy \<Rightarrow> http_request \<Rightarrow> http_request \<Rightarrow> bool" where
  "permitted_request policy first r \<longleftrightarrow>
     validateURL policy (hr_URL r) = None \<and> validateHeaders policy (hr_Header r) = None
     \<and> (\<not> sameAuthority (the (hr_URL first)) (the (hr_URL r)) \<longrightarrow>
          (\<forall>(k, vs) \<in> set (hr_Header r). k \<noteq> ''Authorization'' \<and> k \<noteq> ''Cookie''))"

lemma checkRedirect_permitted:
  assumes "checkRedirect policy r via = Inr prepared" "via \<noteq> []"
  shows "permitted_request policy (hd via) prepared"
  using checkRedirect_Inr [OF assms(1)] redirect_headers_crossed [OF assms(2), of r]
  by (auto simp: permitted_request_def)

lemma http_Do_permitted:
  assumes "http_Do (logged send) policy via request (w, via) = (result, w', sent)"
    and "int (length via) \<le> cp_maxRedirects policy"
    and "\<forall>r \<in> set (via @ [request]). permitted_request policy (hd (via @ [request])) r"
  shows "int (length sent) \<le> cp_maxRedirects policy + 1
    \<and> (\<forall>r \<in> set sent. permitted_request policy (hd (via @ [request])) r)"
  using assms
proof (induction "logged send" policy via request "(w, via)" arbitrary: w rule: http_Do.induct)
  case (1 policy via request w)
  obtain h w1 where sent: "send request w = (h, w1)" by (cases "send request w")
  then have step: "logged send request (w, via) = (h, w1, via @ [request])" by (simp add: log_simps)
  show ?case
  proof (cases h)
    case (Redirecting nxt)
    show ?thesis
    proof (cases "checkRedirect policy nxt (via @ [request])")
      case (Inr prepared)
      have bound: "int (length (via @ [request])) \<le> cp_maxRedirects policy"
        using checkRedirect_Inr(1) [OF Inr] .
      have permitted: "permitted_request policy (hd (via @ [request])) prepared"
        using checkRedirect_permitted [OF Inr] by simp
      have run: "http_Do (logged send) policy (via @ [request]) prepared (w1, via @ [request]) = (result, w', sent)"
        using "1.prems"(1) step Redirecting Inr by (simp add: http_Do.simps [of _ _ via])
      have first: "hd ((via @ [request]) @ [prepared]) = hd (via @ [request])" by (cases via) auto
      have all: "\<forall>r \<in> set ((via @ [request]) @ [prepared]). permitted_request policy (hd ((via @ [request]) @ [prepared])) r"
        unfolding first using "1.prems"(3) permitted by simp
      from "1.hyps" [OF step [symmetric] Redirecting Inr run bound all]
      show ?thesis unfolding first by simp
    qed (use "1.prems" step Redirecting in \<open>auto simp: http_Do.simps [of _ _ via]\<close>)
  qed (use "1.prems" step in \<open>auto simp: http_Do.simps [of _ _ via]\<close>)
qed

lemma compilePolicy_Inr:
  assumes "compilePolicy p = Inr policy"
  shows "set (cp_schemes policy) \<subseteq> {''https''}" "set (cp_hosts policy) = normalizeHost ` set (dp_AllowedHosts p)"
    "cp_ports policy = dp_AllowedPorts p" "0 \<notin> set (cp_ports policy)"
    "cp_maxRedirects policy = dp_MaxRedirects p" "0 \<le> dp_MaxRedirects p" "dp_MaxRedirects p \<le> 5"
    "cp_maxBody policy = dp_MaxResponseBodyBytes p" "0 < dp_MaxResponseBodyBytes p"
    "cp_allowPrivate policy = dp_AllowPrivateAddresses p"
  using assms by (auto simp: compilePolicy_def Let_def list_ex_iff maximumRedirects_def)

lemma validateURL_None:
  assumes "validateURL policy target = None"
  obtains u port where "target = Some u" "\<not> u_User u" "u_RawQuery u = []" "u_Fragment u = []"
    "ToLower (u_Scheme u) \<in> set (cp_schemes policy)" "normalizeHost (Hostname u) \<in> set (cp_hosts policy)"
    "effectivePort u = Inr port" "port \<in> set (cp_ports policy)"
  using assms by (cases target; cases "effectivePort (the target)") (auto simp: validateURL_def Let_def)

lemma validateHeaders_None:
  "validateHeaders policy headers = None \<longleftrightarrow>
     (\<forall>(k, vs) \<in> set headers. \<not> forbiddenHeader (CanonicalHeaderKey k)
        \<and> CanonicalHeaderKey k \<in> set (cp_headers policy)
        \<and> (\<forall>v \<in> set vs. CHR 0x0D \<notin> set v \<and> CHR 0x0A \<notin> set v))"
  by (simp add: validateHeaders_def header_error_def Let_def list_ex_iff ContainsAny_iff case_prod_beta) blast

lemma client_Do_sent:
  assumes "client_Do send now policy operation (Some request) w = (result, event, w3)"
  obtains "event = None" "w3 = w"
  | started w1 r w2 finished where "validateURL policy (hr_URL request) = None"
      "validateHeaders policy (hr_Header request) = None" "now w = (started, w1)"
      "http_Do send policy [] request w1 = (r, w2)" "now w2 = (finished, w3)"
  using assms
  by (simp add: client_Do_def Let_def split: option.splits prod.splits sum.splits if_splits)

lemma sameAuthority_refl [simp]: "sameAuthority u u"
  by (simp add: sameAuthority_def EqualFold_def)


text \<open>A policy with two hosts and one redirect, and a server that redirects from the first to the second.\<close>

definition sample_downstream_policy :: Policy where
  "sample_downstream_policy =
     \<lparr>dp_AllowedSchemes = [''https''], dp_AllowedHosts = [''API.example.com.'', ''cdn.example.com''],
      dp_AllowedPorts = [443], dp_AllowedRequestHeaders = [''authorization'', ''Accept''],
      dp_AllowPrivateAddresses = False, dp_MaxRedirects = 1, dp_RequestTimeout = Second,
      dp_ConnectTimeout = Second, dp_ResponseHeaderTimeout = Second, dp_MaxResponseBodyBytes = 4,
      dp_MaxConnectionsPerHost = 1\<rparr>"

definition sample_compiled :: compiledPolicy where
  "sample_compiled =
     \<lparr>cp_schemes = [''https''], cp_hosts = [''api.example.com'', ''cdn.example.com''],
      cp_headers = [''Authorization'', ''Accept''], cp_ports = [443], cp_allowPrivate = False,
      cp_maxRedirects = 1, cp_maxBody = 4\<rparr>"

definition sample_http_request :: "string \<Rightarrow> Header \<Rightarrow> http_request" where
  "sample_http_request host headers =
     \<lparr>hr_Method = ''GET'',
      hr_URL = Some \<lparr>u_Scheme = ''https'', u_User = False, u_Host = host, u_Path = ''/a'', u_RawQuery = [],
                     u_Fragment = []\<rparr>,
      hr_Header = headers\<rparr>"

definition sample_headers :: Header where
  "sample_headers = [(''Authorization'', [''token'']), (''Accept'', [''text''])]"

definition sample_response :: http_response where
  "sample_response = \<lparr>rs_StatusCode = 200, rs_ContentLength = -1, rs_Body = [1, 2, 3, 4, 5]\<rparr>"

definition sample_exchange :: "http_request \<Rightarrow> unit \<Rightarrow> hop \<times> unit" where
  "sample_exchange r w =
     (if map_option u_Host (hr_URL r) = Some ''api.example.com''
      then (Redirecting (sample_http_request ''cdn.example.com:443'' (sample_headers @ [(''Referer'', [''x''])])), w)
      else (Answered sample_response, w))"

lemma sample_compiles: "compilePolicy sample_downstream_policy = Inr sample_compiled"
  by code_simp

definition sample_bounded :: boundedBody where
  "sample_bounded = \<lparr>bb_source = [1, 2, 3, 4, 5], bb_limit = 5, bb_remaining = 4\<rparr>"

definition sample_event :: Event where
  "sample_event = \<lparr>ev_Operation = ''github.read'', ev_Method = ''GET'', ev_Outcome = ''response'',
     ev_StatusClass = ''2xx'', ev_Duration = 0\<rparr>"

definition sample_first :: http_request where
  "sample_first = sample_http_request ''api.example.com'' sample_headers"

definition sample_second :: http_request where
  "sample_second = sample_http_request ''cdn.example.com:443'' [(''Accept'', [''text''])]"

lemma sample_hops:
  "sample_exchange sample_first w =
     (Redirecting (sample_http_request ''cdn.example.com:443'' (sample_headers @ [(''Referer'', [''x''])])), w)"
  "sample_exchange sample_second w = (Answered sample_response, w)"
  by (simp_all add: sample_exchange_def sample_first_def sample_second_def sample_http_request_def)

lemma sample_checks:
  "checkRedirect sample_compiled
     (sample_http_request ''cdn.example.com:443'' (sample_headers @ [(''Referer'', [''x''])])) [sample_first]
   = Inr sample_second"
  "validateURL sample_compiled (hr_URL sample_first) = None"
  "validateHeaders sample_compiled (hr_Header sample_first) = None"
  "stableName ''github.read''" "stableMethod ''GET'' = ''GET''" "statusClass 200 = ''2xx''"
  by code_simp+

lemma sample_redirected_call:
  "client_Do (logged sample_exchange) (unlogged (\<lambda>w. (0, w))) sample_compiled ''github.read''
     (Some sample_first) ((), [])
   = (Inr (sample_response, sample_bounded), Some sample_event, (), [sample_first, sample_second])"
proof -
  have "http_Do (logged sample_exchange) sample_compiled [] sample_first ((), []) =
      (Inr sample_response, (), [sample_first, sample_second])"
    by (simp add: http_Do.simps logged_def sample_hops sample_checks)
  moreover have "(hr_URL sample_first = None) = False" "hr_Method sample_first = ''GET''" "cp_maxBody sample_compiled = 4"
    by (simp_all add: sample_first_def sample_http_request_def sample_compiled_def)
  ultimately show ?thesis
    by (simp add: client_Do_def Let_def sample_checks unlogged_def sample_response_def sample_bounded_def
        sample_event_def time_Sub_def min_int64_def max_int64_def del: not_None_eq)
qed


section \<open>Bounded bodies\<close>

lemma body_Read_step:
  assumes "bb_limit body = bb_remaining body + 1" "0 \<le> bb_remaining body" "bb_source body \<noteq> []"
  shows "\<exists>m. m \<le> length (bb_source body) \<and> int m \<le> bb_remaining body + 1 \<and> body_Read (Suc n) (Suc k) body =
    (take m (bb_source body), if bb_remaining body < int m then Broken ErrResponseBodyTooLarge else More,
     body\<lparr>bb_source := drop m (bb_source body), bb_limit := bb_limit body - int m,
          bb_remaining := bb_remaining body - int m\<rparr>)"
proof -
  define c where "c = min (Suc k) (min (Suc n) (nat (bb_limit body)))"
  define m where "m = min c (length (bb_source body))"
  have "int c \<le> bb_remaining body + 1" using assms(1,2) by (auto simp: c_def min_def)
  then have bound: "int m \<le> bb_remaining body + 1" by (simp add: m_def)
  have part: "take c (bb_source body) = take m (bb_source body)" "drop c (bb_source body) = drop m (bb_source body)"
    by (auto simp: m_def min_def)
  have len: "length (take m (bb_source body)) = m" by (simp add: m_def)
  have "limited_read (Suc n) (Suc k) body = (take m (bb_source body), More,
      body\<lparr>bb_source := drop m (bb_source body), bb_limit := bb_limit body - int m\<rparr>)"
    using assms unfolding limited_read_def Let_def c_def [symmetric] part len by simp
  then have "body_Read (Suc n) (Suc k) body =
    (take m (bb_source body), if bb_remaining body < int m then Broken ErrResponseBodyTooLarge else More,
     body\<lparr>bb_source := drop m (bb_source body), bb_limit := bb_limit body - int m,
          bb_remaining := bb_remaining body - int m\<rparr>)"
    by (simp add: body_Read_def Let_def len del: length_take)
  moreover have "m \<le> length (bb_source body)" by (simp add: m_def)
  ultimately show ?thesis using bound by blast
qed

lemma ReadAll_bounded:
  assumes "bb_limit body = bb_remaining body + 1" "0 \<le> bb_remaining body"
  shows "ReadAll sizes i acc body =
    (if int (length (bb_source body)) \<le> bb_remaining body then Inr (acc @ bb_source body) else Inl ErrResponseBodyTooLarge)"
  using assms
proof (induction sizes i acc body rule: ReadAll.induct)
  case (1 sizes i acc body)
  show ?case
  proof (cases "bb_source body = []")
    case True
    with "1.prems" show ?thesis
      by (simp add: ReadAll.simps [of _ _ _ body] body_Read_def limited_read_def)
  next
    case False
    obtain m where m: "m \<le> length (bb_source body)" "int m \<le> bb_remaining body + 1"
      and read: "body_Read (Suc (fst (sizes i))) (Suc (snd (sizes i))) body =
        (take m (bb_source body), if bb_remaining body < int m then Broken ErrResponseBodyTooLarge else More,
         body\<lparr>bb_source := drop m (bb_source body), bb_limit := bb_limit body - int m,
              bb_remaining := bb_remaining body - int m\<rparr>)"
      using body_Read_step [OF "1.prems" False] by metis
    show ?thesis
    proof (cases "bb_remaining body < int m")
      case True
      with m(1) have "bb_remaining body < int (length (bb_source body))" by linarith
      with True show ?thesis by (simp add: ReadAll.simps [of _ _ _ body] read)
    next
      case within: False
      let ?body = "body\<lparr>bb_source := drop m (bb_source body), bb_limit := bb_limit body - int m,
        bb_remaining := bb_remaining body - int m\<rparr>"
      have "ReadAll sizes (Suc i) (acc @ take m (bb_source body)) ?body =
        (if int (length (bb_source ?body)) \<le> bb_remaining ?body
         then Inr ((acc @ take m (bb_source body)) @ bb_source ?body) else Inl ErrResponseBodyTooLarge)"
        by (rule "1.IH") (use read within "1.prems" in simp_all)
      with m(1) within show ?thesis
        by (simp add: ReadAll.simps [of _ _ _ body] read of_nat_diff)
    qed
  qed
qed

text \<open>
  C39. A connector that reads a response to its end gets the whole body when it is within the limit of the
  policy and \<open>ErrResponseBodyTooLarge\<close> otherwise, never a truncated body, whatever sizes it reads in and
  however the connection delivers the bytes, with or without a declared length.
\<close>

theorem response_bodies_are_complete_or_refused:
  assumes "compilePolicy p = Inr policy"
    and "client_Do send now policy operation request w = (Inr (response, body), event, w')"
  shows "ReadAll sizes 0 [] body =
    (if int (length (rs_Body response)) \<le> dp_MaxResponseBodyBytes p then Inr (rs_Body response)
     else Inl ErrResponseBodyTooLarge)"
proof -
  have "body = \<lparr>bb_source = rs_Body response, bb_limit = cp_maxBody policy + 1, bb_remaining = cp_maxBody policy\<rparr>"
    using assms(2)
    by (auto simp: client_Do_def Let_def split: option.splits prod.splits sum.splits if_splits)
  with ReadAll_bounded [of body sizes 0 "[]"] compilePolicy_Inr(8,9) [OF assms(1)] show ?thesis by simp
qed

theorem response_bodies_are_complete_or_refused_witness:
  "ReadAll (\<lambda>i. (1, 2)) 0 [] sample_bounded = Inl ErrResponseBodyTooLarge"
  using response_bodies_are_complete_or_refused [OF sample_compiles sample_redirected_call, of "\<lambda>i. (1, 2)"]
  by (simp add: sample_response_def sample_downstream_policy_def)

section \<open>Dialled addresses\<close>

lemma prohibited_Unmap [simp]: "prohibitedAddress (Unmap a) = prohibitedAddress a"
  by (cases a) (simp_all add: prohibitedAddress_def)

lemma validated_candidates_Some:
  assumes "validated_candidates policy ips = Some candidates"
  shows "(\<forall>ip \<in> set ips. \<exists>x. AddrFromSlice ip = Some x \<and> (cp_allowPrivate policy \<or> \<not> prohibitedAddress x))
    \<and> (\<forall>a \<in> set candidates. \<exists>ip \<in> set ips. map_option Unmap (AddrFromSlice ip) = Some a)"
  using assms
  by (induction ips arbitrary: candidates) (fastforce split: option.splits if_splits)+

lemma dial_each_logged:
  assumes "dial_each (logged dialer) port candidates e (w, log) = (r, w', log')"
  shows "set log' \<subseteq> set log \<union> {(a, port) | a. a \<in> set candidates}"
  using assms
  by (induction candidates arbitrary: e w log) (fastforce simp: log_simps split: prod.splits sum.splits)+

text \<open>
  C38. Unless the policy allows private addresses, every address the gateway dials for a destination is not
  an unspecified, loopback, private, link-local or multicast one, mapped forms included. It is the literal
  of the destination, or one of the addresses its name resolves to, and then all of them are permitted: a
  mixed answer dials nothing. The port is the one asked for.
\<close>

theorem dialled_addresses_are_permitted:
  assumes "secureDialContext (\<lambda>h. unlogged (resolver h)) (logged dialer) policy address (w, []) = (result, w', dialled)"
    and "\<not> cp_allowPrivate policy" "(a, port) \<in> set dialled"
  shows "\<not> prohibitedAddress a \<and> (\<exists>host. SplitHostPort address = Some (host, port) \<and>
    (ParseAddr host = Some a \<or>
     (\<exists>ips w1. resolver host w = (Inr ips, w1)
        \<and> (\<forall>ip \<in> set ips. \<exists>x. AddrFromSlice ip = Some x \<and> \<not> prohibitedAddress x)
        \<and> (\<exists>ip \<in> set ips. map_option Unmap (AddrFromSlice ip) = Some a))))"
proof -
  obtain host q where split: "SplitHostPort address = Some (host, q)"
    using assms(1,3) by (auto simp: secureDialContext_def split: option.splits)
  show ?thesis
  proof (cases "ParseAddr host")
    case (Some literal)
    with split assms show ?thesis
      by (auto simp: secureDialContext_def log_simps split: if_splits prod.splits)
  next
    case None
    from split None assms(1,3) obtain ip ips w1 candidates where
      ips: "resolver host w = (Inr (ip # ips), w1)" "validated_candidates policy (ip # ips) = Some candidates"
      and dials: "dial_each (logged dialer) q candidates (ErrNew []) (w1, []) = (result, w', dialled)"
      by (auto simp: secureDialContext_def unlogged_def simp del: validated_candidates.simps
          split: prod.splits sum.splits list.splits option.splits)
    from dial_each_logged [OF dials] assms(3) have a: "a \<in> set candidates" "port = q" by auto
    from validated_candidates_Some [OF ips(2)] assms(2) have
      all: "\<forall>b \<in> set (ip # ips). \<exists>x. AddrFromSlice b = Some x \<and> \<not> prohibitedAddress x" by blast
    from validated_candidates_Some [OF ips(2)] a(1) obtain b where
      b: "b \<in> set (ip # ips)" "map_option Unmap (AddrFromSlice b) = Some a" by blast
    with all have "\<not> prohibitedAddress a" by (metis (no_types, lifting) option.sel option.simps(9) prohibited_Unmap)
    with all b a(2) ips(1) split show ?thesis by blast
  qed
qed

definition sample_resolver :: "unit resolver" where
  "sample_resolver host w = (Inr [[93, 184, 216, 34], [1, 1, 1, 1]], w)"

definition sample_dialer :: "(unit, nat) dialer" where
  "sample_dialer target w = (if fst target = Addr4 [1, 1, 1, 1] then Inr 7 else Inl (ErrNew ''refused''), w)"

lemma sample_dialling:
  "secureDialContext (\<lambda>h. unlogged (sample_resolver h)) (logged sample_dialer) sample_compiled ''api.example.com:443'' ((), [])
   = (Inr 7, (), [(Addr4 [93, 184, 216, 34], ''443''), (Addr4 [1, 1, 1, 1], ''443'')])"
  by code_simp

theorem dialled_addresses_are_permitted_witness:
  "\<not> prohibitedAddress (Addr4 [1, 1, 1, 1]) \<and> (\<exists>host. SplitHostPort ''api.example.com:443'' = Some (host, ''443''))"
  using dialled_addresses_are_permitted [OF sample_dialling, of "Addr4 [1, 1, 1, 1]" "''443''"]
  by (simp add: sample_compiled_def) blast

lemma cloud_metadata_is_prohibited:
  "map_option prohibitedAddress (ParseAddr ''169.254.169.254'') = Some True"
  "map_option prohibitedAddress (ParseAddr ''::ffff:10.1.2.3'') = Some True"
  "map_option prohibitedAddress (ParseAddr ''::1'') = Some True"
  "map_option prohibitedAddress (ParseAddr ''fd00:ec2::254'') = Some True"
  "map_option prohibitedAddress (ParseAddr ''2001:db8::1'') = Some False"
  by code_simp+

end
