(* ===== verification/OIDC_Tokens.thy ===== *)
theory OIDC_Tokens
  imports Go_Net Go_JSON
begin

text \<open>
  Verification of OpenID Connect tokens (\<open>internal/authn/oidc.go\<close>): the configured issuers, their key sets
  with discovery, refresh and the stale window, the compact JWT, its signature and its claims.

  The HTTP client and the clock act on an abstract world; the signature primitives of \<open>crypto\<close> are
  parameters. The whole of \<open>key\<close> runs under the issuer's mutex, so concurrent verifications change the key
  sets one after another.
\<close>

section \<open>Configuration\<close>

definition maxTokenBytes :: int where "maxTokenBytes = 32 * 1024"

definition CodeInvalidToken :: string where "CodeInvalidToken = ''invalid_token''"
definition CodeUnsupportedIssuer :: string where "CodeUnsupportedIssuer = ''unsupported_issuer''"
definition CodeDependencyUnavailable :: string where
  "CodeDependencyUnavailable = ''identity_provider_unavailable''"

definition VerificationError :: "string \<Rightarrow> goerror option \<Rightarrow> goerror" where
  "VerificationError c err = ErrTyped ''*authn.VerificationError'' c c err"

definition invalid :: "goerror \<Rightarrow> goerror" where
  "invalid err = VerificationError CodeInvalidToken (Some err)"

record IssuerConfig =
  ic_Issuer :: string
  ic_Audiences :: "string list"
  ic_Resources :: "string list"
  ic_Algorithms :: "string list"
  ic_RefreshAfter :: duration
  ic_MaxStale :: duration
  ic_ClockSkew :: duration
  ic_MaxKeys :: int

record OIDCConfig =
  oc_Issuers :: "IssuerConfig list"
  oc_Timeout :: "duration option"
  oc_MaxBodyBytes :: int
  oc_AllowInsecure :: bool

record Claims =
  cl_Issuer :: string
  cl_Subject :: string
  cl_Audience :: "string list"
  cl_Resources :: "string list"
  cl_ExpiresAt :: instant
  cl_NotBefore :: instant
  cl_Raw :: "(string \<times> json) list"

datatype PublicKey = RSAKey nat nat | ECKey bytes | Ed25519Key bytes

record issuer =
  is_config :: IssuerConfig
  is_keys :: "(string \<times> PublicKey) list"
  is_loaded :: instant

record Provider =
  pv_maxBody :: int
  pv_issuers :: "(string \<times> issuer) list"

text \<open>The error texts quote the issuer; the model leaves the quoted name out.\<close>

definition issuer_profile :: "bool \<Rightarrow> string list \<Rightarrow> IssuerConfig \<Rightarrow> IssuerConfig result" where
  "issuer_profile allowInsecure seen profile =
     (case url_Parse (ic_Issuer profile) of
        None \<Rightarrow> Inl (ErrNew ''invalid OIDC issuer'')
      | Some parsed \<Rightarrow>
          let trimmed = profile\<lparr>ic_Issuer := TrimSuffix (ic_Issuer profile) ''/''\<rparr> in
          ensure (first_err
            [fail_if (u_RawQuery parsed \<noteq> [] \<or> u_Fragment parsed \<noteq> [] \<or> u_User parsed \<or> u_Host parsed = []
               \<or> \<not> (u_Scheme parsed = ''https'' \<or> (allowInsecure \<and> u_Scheme parsed = ''http'')))
               (ErrNew ''invalid OIDC issuer''),
             fail_if (ic_Issuer trimmed \<in> set seen) (ErrNew ''duplicate OIDC issuer''),
             fail_if (ic_Audiences profile = [] \<or> ic_Algorithms profile = [] \<or> ic_RefreshAfter profile \<le> 0
               \<or> ic_MaxStale profile < 0 \<or> ic_ClockSkew profile < 0 \<or> ic_MaxKeys profile < 1)
               (ErrNew ''OIDC issuer has invalid bounds''),
             fail_if (list_ex (\<lambda>a. a \<notin> {''RS256'', ''ES256'', ''EdDSA''}) (ic_Algorithms profile))
               (ErrNew ''OIDC issuer allows unsupported algorithm'')])
          (Inr trimmed))"

fun add_issuers :: "bool \<Rightarrow> (string \<times> issuer) list \<Rightarrow> IssuerConfig list \<Rightarrow> (string \<times> issuer) list result" where
  "add_issuers allowInsecure known [] = Inr known"
| "add_issuers allowInsecure known (profile # profiles) =
     bind_result (issuer_profile allowInsecure (map fst known) profile)
       (\<lambda>p. add_issuers allowInsecure (known @ [(ic_Issuer p, \<lparr>is_config = p, is_keys = [], is_loaded = 0\<rparr>)]) profiles)"

definition NewOIDCProvider :: "OIDCConfig \<Rightarrow> Provider result" where
  "NewOIDCProvider config =
     ensure (first_err
       [fail_if (oc_Issuers config = []) (ErrNew ''at least one OIDC issuer is required''),
        (case oc_Timeout config of
           None \<Rightarrow> Some (ErrNew ''OIDC HTTP client is required'')
         | Some timeout \<Rightarrow> fail_if (timeout \<le> 0) (ErrNew ''OIDC HTTP client timeout must be positive''))])
     (bind_result (add_issuers (oc_AllowInsecure config) [] (oc_Issuers config))
       (\<lambda>issuers. Inr \<lparr>pv_maxBody = (if oc_MaxBodyBytes config \<le> 0 then 2 ^ 20 else oc_MaxBodyBytes config),
                       pv_issuers = issuers\<rparr>))"

section \<open>Tokens and claims\<close>

definition splitToken :: "string \<Rightarrow> (bytes \<times> bytes \<times> bytes \<times> bytes) result" where
  "splitToken token =
     (if token = [] \<or> int (length token) > maxTokenBytes then Inl (ErrNew ''token size is invalid'')
      else case Split token CHR ''.'' of
          [a, b, c] \<Rightarrow>
            (case (b64_decode a, b64_decode b, b64_decode c) of
               (Some header, Some payload, Some signature) \<Rightarrow>
                 Inr (header, payload, signature, bytes_of_string (a @ CHR ''.'' # b))
             | _ \<Rightarrow> Inl (ErrTyped ''base64.CorruptInputError'' [] ''illegal base64 data'' None))
        | _ \<Rightarrow> Inl (ErrNew ''compact JWT requires three segments''))"

text \<open>\<open>decodeJSON\<close>: exactly one JSON value.\<close>

definition decodeJSON :: "bytes \<Rightarrow> json option" where
  "decodeJSON encoded = Unmarshal_value (string_of_bytes encoded)"

definition claims_map :: "json \<Rightarrow> (string \<times> json) list option" where
  "claims_map v = (case normalize v of JObject ms \<Rightarrow> Some ms | JNull \<Rightarrow> Some [] | _ \<Rightarrow> None)"

definition intersects :: "string list \<Rightarrow> string list \<Rightarrow> bool" where
  "intersects left right \<longleftrightarrow> list_ex (\<lambda>v. v \<in> set right) left"

text \<open>\<open>strconv.ParseInt(s, 10, 64)\<close> and \<open>time.Unix\<close>, whose sum of seconds wraps.\<close>

definition ParseInt64 :: "string \<Rightarrow> int option" where
  "ParseInt64 s =
     (let (sign, digits) = (case s of
          c # t \<Rightarrow> if c = CHR ''-'' then (-1, t) else if c = CHR ''+'' then (1, t) else (1, s)
        | [] \<Rightarrow> (1, []));
          n = sign * int (parse_decimal digits) in
      if digits = [] \<or> \<not> list_all is_digit digits \<or> \<not> is_int64 n then None else Some n)"

definition numericDate :: "json option \<Rightarrow> instant option" where
  "numericDate v =
     (case v of
        Some (JNumber s) \<Rightarrow>
          map_option (\<lambda>seconds. wrap64 (seconds + unix_epoch_seconds) * 1000000000) (ParseInt64 s)
      | _ \<Rightarrow> None)"

text \<open>\<open>Time.Add\<close> of a non-negative duration saturates at the last second.\<close>

definition time_Add :: "instant \<Rightarrow> duration \<Rightarrow> instant" where
  "time_Add t d =
     (if (t + d) div 1000000000 \<le> max_int64 then t + d else max_int64 * 1000000000 + (t + d) mod 1000000000)"

fun text_items :: "json list \<Rightarrow> string list option" where
  "text_items [] = Some []"
| "text_items (v # vs) =
     (case v of
        JString s \<Rightarrow> if s = [] then None else map_option (\<lambda>r. s # r) (text_items vs)
      | _ \<Rightarrow> None)"

definition stringList :: "json option \<Rightarrow> string list result" where
  "stringList v =
     (let shape = Inl (ErrNew ''claim must be a non-empty string or string array'') in
      case v of
        Some (JString s) \<Rightarrow> if s = [] then shape else Inr [s]
      | Some (JArray vs) \<Rightarrow>
          if vs = [] then shape
          else (case text_items vs of
              None \<Rightarrow> Inl (ErrNew ''claim array contains a non-string'')
            | Some r \<Rightarrow> Inr r)
      | _ \<Rightarrow> shape)"

definition validateClaims :: "(string \<times> json) list \<Rightarrow> IssuerConfig \<Rightarrow> instant \<Rightarrow> Claims result" where
  "validateClaims raw config now =
     (let late = (\<lambda>t. time_Add now (ic_ClockSkew config) < t);
          date = (\<lambda>name. case map_of raw name of None \<Rightarrow> Some 0 | Some v \<Rightarrow> numericDate (Some v)) in
      bind_result (map_error (\<lambda>_. invalid (ErrNew ''audience is not allowed'')) (stringList (map_of raw ''aud''))) (\<lambda>audience.
      ensure (fail_if (\<not> intersects audience (ic_Audiences config)) (invalid (ErrNew ''audience is not allowed'')))
      (bind_result
        (case map_of raw ''resource'' of None \<Rightarrow> Inr [] | Some v \<Rightarrow> map_error invalid (stringList (Some v))) (\<lambda>resources.
      ensure (fail_if (ic_Resources config \<noteq> [] \<and> \<not> intersects resources (ic_Resources config))
        (invalid (ErrNew ''resource is not allowed'')))
      (case numericDate (map_of raw ''exp'') of
         None \<Rightarrow> Inl (invalid (ErrNew ''token is expired or exp is missing''))
       | Some expires \<Rightarrow>
           ensure (first_err
             [fail_if (\<not> now < time_Add expires (ic_ClockSkew config))
                (invalid (ErrNew ''token is expired or exp is missing'')),
              fail_if (date ''nbf'' = None \<or> map_of raw ''nbf'' \<noteq> None \<and> late (the (date ''nbf'')))
                (invalid (ErrNew ''token is not yet valid'')),
              fail_if (date ''iat'' = None \<or> map_of raw ''iat'' \<noteq> None \<and> late (the (date ''iat'')))
                (invalid (ErrNew ''token issue time is in the future''))])
           (Inr \<lparr>cl_Issuer = ic_Issuer config,
                 cl_Subject = (case map_of raw ''sub'' of Some (JString s) \<Rightarrow> s | _ \<Rightarrow> []),
                 cl_Audience = audience, cl_Resources = resources, cl_ExpiresAt = expires,
                 cl_NotBefore = the (date ''nbf''), cl_Raw = raw\<rparr>))))))"

section \<open>Keys and signatures\<close>

text \<open>
  The primitives of \<open>crypto/ecdsa\<close>, \<open>crypto/rsa\<close> and \<open>crypto/ed25519\<close>: whether an uncompressed point is on
  P-256, and the three signature checks.
\<close>

record crypto =
  cr_on_curve :: "bytes \<Rightarrow> bool"
  cr_rsa_verify :: "nat \<Rightarrow> nat \<Rightarrow> bytes \<Rightarrow> bytes \<Rightarrow> bool"
  cr_ecdsa_verify :: "bytes \<Rightarrow> bytes \<Rightarrow> nat \<Rightarrow> nat \<Rightarrow> bool"
  cr_ed25519_verify :: "bytes \<Rightarrow> bytes \<Rightarrow> bytes \<Rightarrow> bool"

definition decodeBig :: "string \<Rightarrow> nat result" where
  "decodeBig v =
     (case b64_decode v of
        Some bs \<Rightarrow> if bs = [] then Inl (ErrNew ''invalid JWK integer'') else Inr (be_value bs)
      | None \<Rightarrow> Inl (ErrNew ''invalid JWK integer''))"

definition decodeFixed :: "string \<Rightarrow> nat \<Rightarrow> bytes result" where
  "decodeFixed v width =
     (case b64_decode v of
        Some bs \<Rightarrow> if length bs \<noteq> width then Inl (ErrNew ''invalid JWK coordinate'') else Inr bs
      | None \<Rightarrow> Inl (ErrNew ''invalid JWK coordinate''))"

definition rsa_key :: "(string \<Rightarrow> string) \<Rightarrow> PublicKey result" where
  "rsa_key f =
     ensure (fail_if (f ''alg'' \<noteq> [] \<and> f ''alg'' \<noteq> ''RS256'') (ErrNew ''RSA JWK algorithm is not RS256''))
     (bind_result (decodeBig (f ''n'')) (\<lambda>n.
       case b64_decode (f ''e'') of
         None \<Rightarrow> Inl (ErrNew ''invalid RSA exponent'')
       | Some e \<Rightarrow>
           if e = [] \<or> length e > 4 then Inl (ErrNew ''invalid RSA exponent'')
           else if be_value e < 3 \<or> n < 2 ^ 2047 then Inl (ErrNew ''RSA signing key is too weak'')
           else Inr (RSAKey n (be_value e))))"

definition ec_key :: "crypto \<Rightarrow> (string \<Rightarrow> string) \<Rightarrow> PublicKey result" where
  "ec_key c f =
     ensure (first_err
       [fail_if (f ''alg'' \<noteq> [] \<and> f ''alg'' \<noteq> ''ES256'') (ErrNew ''EC JWK algorithm is not ES256''),
        fail_if (f ''crv'' \<noteq> ''P-256'') (ErrNew ''unsupported EC curve'')])
     (bind_result (decodeFixed (f ''x'') 32) (\<lambda>x.
      bind_result (map_error (\<lambda>_. ErrNew ''invalid EC key'') (decodeFixed (f ''y'') 32)) (\<lambda>y.
        if cr_on_curve c (4 # x @ y) then Inr (ECKey (4 # x @ y)) else Inl (ErrNew ''invalid EC key''))))"

definition okp_key :: "(string \<Rightarrow> string) \<Rightarrow> PublicKey result" where
  "okp_key f =
     ensure (first_err
       [fail_if (f ''alg'' \<noteq> [] \<and> f ''alg'' \<noteq> ''EdDSA'') (ErrNew ''OKP JWK algorithm is not EdDSA''),
        fail_if (f ''crv'' \<noteq> ''Ed25519'') (ErrNew ''unsupported OKP curve'')])
     (case b64_decode (f ''x'') of
        Some bs \<Rightarrow> if length bs \<noteq> 32 then Inl (ErrNew ''invalid Ed25519 key'') else Inr (Ed25519Key bs)
      | None \<Rightarrow> Inl (ErrNew ''invalid Ed25519 key''))"

definition parseJWK :: "crypto \<Rightarrow> json \<Rightarrow> (string \<times> PublicKey) result" where
  "parseJWK c encoded =
     (case decode_struct False [''kty'', ''kid'', ''use'', ''alg'', ''n'', ''e'', ''crv'', ''x'', ''y''] encoded of
        None \<Rightarrow> Inl (ErrNew ''invalid signing JWK'')
      | Some f \<Rightarrow>
          if f ''kid'' = [] \<or> (f ''use'' \<noteq> [] \<and> f ''use'' \<noteq> ''sig'') then Inl (ErrNew ''invalid signing JWK'')
          else bind_result
            (if f ''kty'' = ''RSA'' then rsa_key f
             else if f ''kty'' = ''EC'' then ec_key c f
             else if f ''kty'' = ''OKP'' then okp_key f
             else Inl (ErrNew ''unsupported JWK type''))
            (\<lambda>key. Inr (f ''kid'', key)))"

definition verifySignature :: "crypto \<Rightarrow> string \<Rightarrow> PublicKey \<Rightarrow> bytes \<Rightarrow> bytes \<Rightarrow> goerror option" where
  "verifySignature c algorithm key message signature =
     (let digest = Sum256 message; mismatch = ErrNew ''key type does not match algorithm'';
          wrong = ErrNew ''invalid signature'' in
      if algorithm = ''RS256'' then
        (case key of
           RSAKey n e \<Rightarrow> fail_if (\<not> cr_rsa_verify c n e digest signature)
             (ErrVar ''rsa.ErrVerification'' ''crypto/rsa: verification error'')
         | _ \<Rightarrow> Some mismatch)
      else if algorithm = ''ES256'' then
        (case key of
           ECKey point \<Rightarrow>
             if length signature \<noteq> 64 then Some mismatch
             else fail_if (\<not> cr_ecdsa_verify c point digest (be_value (take 32 signature)) (be_value (drop 32 signature))) wrong
         | _ \<Rightarrow> Some mismatch)
      else if algorithm = ''EdDSA'' then
        (case key of Ed25519Key pub \<Rightarrow> fail_if (\<not> cr_ed25519_verify c pub message signature) wrong | _ \<Rightarrow> Some wrong)
      else Some (ErrNew ''unsupported algorithm''))"

section \<open>Key sets\<close>

text \<open>The world: HTTP exchanges answer a status and what reading the body gives; the clock.\<close>

type_synonym http_answer = "(int \<times> bytes result) result"

record 'w oidc_env =
  oe_get :: "string \<Rightarrow> 'w \<Rightarrow> http_answer \<times> 'w"
  oe_clock :: "'w \<Rightarrow> instant \<times> 'w"
  oe_crypto :: crypto

definition decode_answer :: "int \<Rightarrow> (json \<Rightarrow> 'd option) \<Rightarrow> http_answer \<Rightarrow> 'd result" where
  "decode_answer maxBody destination answer =
     bind_result answer (\<lambda>(status, body).
     ensure (fail_if (status \<noteq> 200) (ErrNew ''identity provider returned HTTP''))
     (bind_result body (\<lambda>bs. let read = take (nat (wrap64 (maxBody + 1))) bs in
     ensure (fail_if (int (length read) > maxBody) (ErrNew ''identity provider response exceeds configured bound''))
     (case Decode_value (string_of_bytes read) of
        None \<Rightarrow> Inl (ErrTyped ''*json.SyntaxError'' [] [] None)
      | Some (v, rest) \<Rightarrow>
          (case destination v of
             None \<Rightarrow> Inl (ErrTyped ''*json.UnmarshalTypeError'' [] [] None)
           | Some d \<Rightarrow>
               if skip_ws rest \<noteq> [] then Inl (ErrNew ''identity provider returned trailing or oversized JSON'')
               else Inr d)))))"

definition fetchJSON ::
  "'w oidc_env \<Rightarrow> int \<Rightarrow> string \<Rightarrow> (json \<Rightarrow> 'd option) \<Rightarrow> 'w \<Rightarrow> 'd result \<times> 'w" where
  "fetchJSON env maxBody endpoint destination w =
     (case oe_get env endpoint w of (answer, w') \<Rightarrow> (decode_answer maxBody destination answer, w'))"

fun keys_member :: "(string \<times> json) list \<Rightarrow> json list \<Rightarrow> json list option" where
  "keys_member [] vs = Some vs"
| "keys_member ((k, v) # ms) vs =
     (if fold_name k \<noteq> ''keys'' then keys_member ms vs
      else case v of JArray xs \<Rightarrow> keys_member ms xs | JNull \<Rightarrow> keys_member ms [] | _ \<Rightarrow> None)"

definition jwks_keys :: "json \<Rightarrow> json list option" where
  "jwks_keys v = (case v of JObject ms \<Rightarrow> keys_member ms [] | JNull \<Rightarrow> Some [] | _ \<Rightarrow> None)"

fun collect_keys :: "crypto \<Rightarrow> (string \<times> PublicKey) list \<Rightarrow> json list \<Rightarrow> (string \<times> PublicKey) list result" where
  "collect_keys c keys [] = Inr keys"
| "collect_keys c keys (encoded # rest) =
     bind_result (parseJWK c encoded) (\<lambda>(kid, key).
       if map_of keys kid \<noteq> None then Inl (ErrNew ''JWKS contains duplicate key IDs'')
       else collect_keys c (keys @ [(kid, key)]) rest)"

definition discoveryURL :: "IssuerConfig \<Rightarrow> string" where
  "discoveryURL config = ic_Issuer config @ ''/.well-known/openid-configuration''"

definition jwks_uri :: "IssuerConfig \<Rightarrow> (string \<Rightarrow> string) \<Rightarrow> string result" where
  "jwks_uri config discovery =
     ensure (first_err
       [fail_if (discovery ''issuer'' \<noteq> ic_Issuer config) (ErrNew ''OIDC discovery issuer mismatch''),
        (case url_Parse (discovery ''jwks_uri'') of
           None \<Rightarrow> Some (ErrNew ''OIDC discovery returned an invalid JWKS URI'')
         | Some u \<Rightarrow> fail_if (u_Scheme u \<noteq> fst (Cut (ic_Issuer config) CHR '':'') \<or> u_Host u = [] \<or> u_User u \<or> u_Fragment u \<noteq> [])
             (ErrNew ''OIDC discovery returned an invalid JWKS URI''))])
     (Inr (discovery ''jwks_uri''))"

definition key_set :: "crypto \<Rightarrow> IssuerConfig \<Rightarrow> json list \<Rightarrow> (string \<times> PublicKey) list result" where
  "key_set c config encoded =
     ensure (fail_if (encoded = [] \<or> int (length encoded) > ic_MaxKeys config)
       (ErrNew ''JWKS key count is outside configured bounds''))
     (collect_keys c [] encoded)"

definition refresh :: "'w oidc_env \<Rightarrow> int \<Rightarrow> issuer \<Rightarrow> instant \<Rightarrow> 'w \<Rightarrow> (goerror option \<times> issuer) \<times> 'w" where
  "refresh env maxBody profile now w =
     (let config = is_config profile in
      case fetchJSON env maxBody (discoveryURL config) (decode_struct False [''issuer'', ''jwks_uri'']) w of
        (Inl err, w1) \<Rightarrow> ((Some err, profile), w1)
      | (Inr discovery, w1) \<Rightarrow>
         (case jwks_uri config discovery of
            Inl err \<Rightarrow> ((Some err, profile), w1)
          | Inr uri \<Rightarrow>
             (case fetchJSON env maxBody uri jwks_keys w1 of
                (Inl err, w2) \<Rightarrow> ((Some err, profile), w2)
              | (Inr encoded, w2) \<Rightarrow>
                 (case key_set (oe_crypto env) config encoded of
                    Inl err \<Rightarrow> ((Some err, profile), w2)
                  | Inr keys \<Rightarrow> ((None, profile\<lparr>is_keys := keys, is_loaded := now\<rparr>), w2)))))"

definition key :: "'w oidc_env \<Rightarrow> int \<Rightarrow> issuer \<Rightarrow> string \<Rightarrow> 'w \<Rightarrow> (PublicKey result \<times> issuer) \<times> 'w" where
  "key env maxBody profile kid w =
     (case oe_clock env w of (now, w1) \<Rightarrow>
      let found = map_of (is_keys profile) kid; config = is_config profile;
          age = time_Sub now (is_loaded profile); loaded = \<not> IsZero (is_loaded profile) in
      if found \<noteq> None \<and> loaded \<and> age \<le> ic_RefreshAfter config then ((Inr (the found), profile), w1)
      else case refresh env maxBody profile now w1 of
          ((None, profile'), w2) \<Rightarrow>
            (((case map_of (is_keys profile') kid of
                Some k \<Rightarrow> Inr k
              | None \<Rightarrow> Inl (invalid (ErrNew ''signing key not found''))), profile'), w2)
        | ((Some err, profile'), w2) \<Rightarrow>
            ((if found \<noteq> None \<and> loaded \<and> age \<le> wrap64 (ic_RefreshAfter config + ic_MaxStale config) then Inr (the found)
              else Inl (VerificationError CodeDependencyUnavailable (Some err)), profile'), w2))"

section \<open>Verification\<close>

definition put_issuer :: "Provider \<Rightarrow> string \<Rightarrow> issuer \<Rightarrow> Provider" where
  "put_issuer p name i = p\<lparr>pv_issuers := map (\<lambda>(n, x). (n, if n = name then i else x)) (pv_issuers p)\<rparr>"

text \<open>The cause of a malformed payload is not told apart: callers see only the code.\<close>

definition token_parts ::
  "string \<Rightarrow> (string \<times> string \<times> (string \<times> json) list \<times> string \<times> bytes \<times> bytes) result" where
  "token_parts token =
     bind_result (map_error invalid (splitToken token)) (\<lambda>(header, payload, signature, message).
       case Option.bind (decodeJSON header) (decode_struct True [''alg'', ''kid'', ''typ'']) of
         None \<Rightarrow> Inl (invalid (ErrNew ''missing or malformed JOSE header''))
       | Some f \<Rightarrow>
           if f ''alg'' = [] \<or> f ''kid'' = [] then Inl (invalid (ErrNew ''missing or malformed JOSE header''))
           else (case Option.bind (decodeJSON payload) claims_map of
               None \<Rightarrow> Inl (invalid (ErrNew ''trailing JSON''))
             | Some raw \<Rightarrow>
                 (case map_of raw ''iss'' of
                    Some (JString issuerName) \<Rightarrow> Inr (f ''alg'', f ''kid'', raw, issuerName, message, signature)
                  | _ \<Rightarrow> Inl (invalid (ErrNew ''issuer claim is required'')))))"

definition Verify :: "'w oidc_env \<Rightarrow> Provider \<Rightarrow> string \<Rightarrow> 'w \<Rightarrow> (Claims result \<times> Provider) \<times> 'w" where
  "Verify env provider token w =
     (case token_parts token of
        Inl err \<Rightarrow> ((Inl err, provider), w)
      | Inr (alg, kid, raw, issuerName, message, signature) \<Rightarrow>
         (case map_of (pv_issuers provider) issuerName of
            None \<Rightarrow> ((Inl (VerificationError CodeUnsupportedIssuer None), provider), w)
          | Some profile \<Rightarrow>
              if alg \<notin> set (ic_Algorithms (is_config profile))
              then ((Inl (invalid (ErrNew ''algorithm is not allowed'')), provider), w)
              else (case key env (pv_maxBody provider) profile kid w of ((result, profile'), w1) \<Rightarrow>
                let provider' = put_issuer provider issuerName profile' in
                case result of
                  Inl err \<Rightarrow> ((Inl err, provider'), w1)
                | Inr k \<Rightarrow>
                   (case verifySignature (oe_crypto env) alg k message signature of
                      Some err \<Rightarrow> ((Inl (invalid err), provider'), w1)
                    | None \<Rightarrow> (case oe_clock env w1 of (now, w2) \<Rightarrow>
                        ((validateClaims raw (is_config profile') now, provider'), w2))))))"

end
