(* ===== verification/OIDC_Props.thy ===== *)
theory OIDC_Props
  imports OIDC_Tokens
begin

text \<open>
  What an accepted token rests on: a key its issuer published, a signature by that key, an allowed
  algorithm and audience, and its times. The statements are over the events of all verifications since
  the provider was built.
\<close>

section \<open>Events\<close>

datatype oidc_event = Fetched string http_answer | ClockRead instant

definition traced_env :: "'w oidc_env \<Rightarrow> ('w \<times> oidc_event list) oidc_env" where
  "traced_env env =
     \<lparr>oe_get = (\<lambda>e (w, log). case oe_get env e w of (r, w') \<Rightarrow> (r, w', log @ [Fetched e r])),
      oe_clock = (\<lambda>(w, log). case oe_clock env w of (t, w') \<Rightarrow> (t, w', log @ [ClockRead t])),
      oe_crypto = oe_crypto env\<rparr>"

definition answered :: "oidc_event list \<Rightarrow> string \<Rightarrow> json \<Rightarrow> bool" where
  "answered log endpoint v \<longleftrightarrow>
     (\<exists>bs. Fetched endpoint (Inr (200, Inr bs)) \<in> set log \<and> decodeJSON bs = Some v)"

text \<open>A key the issuer published: in the key set its discovery document names.\<close>

definition published :: "crypto \<Rightarrow> IssuerConfig \<Rightarrow> oidc_event list \<Rightarrow> string \<Rightarrow> PublicKey \<Rightarrow> bool" where
  "published c config log kid k \<longleftrightarrow>
     (\<exists>d discovery uri jwks encoded jwk. answered log (discoveryURL config) d
        \<and> decode_struct False [''issuer'', ''jwks_uri''] d = Some discovery \<and> jwks_uri config discovery = Inr uri
        \<and> answered log uri jwks \<and> jwks_keys jwks = Some encoded \<and> int (length encoded) \<le> ic_MaxKeys config
        \<and> jwk \<in> set encoded \<and> parseJWK c jwk = Inr (kid, k))"

definition keys_published :: "crypto \<Rightarrow> oidc_event list \<Rightarrow> issuer \<Rightarrow> bool" where
  "keys_published c log i \<longleftrightarrow>
     (\<forall>kid k. map_of (is_keys i) kid = Some k \<longrightarrow>
        published c (is_config i) log kid k \<and> ClockRead (is_loaded i) \<in> set log)"

lemma answered_mono: "answered log e v \<Longrightarrow> answered (log @ new) e v"
  by (auto simp: answered_def)

lemma published_mono: "published c config log kid k \<Longrightarrow> published c config (log @ new) kid k"
  unfolding published_def using answered_mono by meson

lemma keys_published_mono: "keys_published c log i \<Longrightarrow> keys_published c (log @ new) i"
  by (simp add: keys_published_def published_mono)

section \<open>Key sets\<close>

lemma Decode_value_Nil [simp]: "Decode_value [] = None"
  by (simp add: Decode_value_def skip_ws_def)

lemma limited_body_complete:
  assumes "is_int64 m" "0 < m" "int (length (take (nat (wrap64 (m + 1))) bs)) \<le> m"
    and "Decode_value (string_of_bytes (take (nat (wrap64 (m + 1))) bs)) \<noteq> None"
  shows "take (nat (wrap64 (m + 1))) bs = bs"
proof (cases "m = max_int64")
  case True
  then have "wrap64 (m + 1) = - (2 ^ 63)" by (simp add: max_int64_def wrap64_def)
  with assms(4) show ?thesis by (simp add: string_of_bytes_def)
next
  case False
  with assms(1,2) have "wrap64 (m + 1) = m + 1" by (simp add: is_int64_def min_int64_def max_int64_def)
  with assms(2,3) show ?thesis by auto
qed

lemma decode_answer_Inr:
  assumes "decode_answer m destination answer = Inr d" "is_int64 m" "0 < m"
  shows "\<exists>bs v. answer = Inr (200, Inr bs) \<and> decodeJSON bs = Some v \<and> destination v = Some d"
proof -
  from assms(1) obtain bs where bs: "answer = Inr (200, Inr bs)"
    "int (length (take (nat (wrap64 (m + 1))) bs)) \<le> m"
    by (auto simp: decode_answer_def Let_def)
  with assms(1) obtain v rest where v: "Decode_value (string_of_bytes (take (nat (wrap64 (m + 1))) bs)) = Some (v, rest)"
    "destination v = Some d" "skip_ws rest = []"
    by (auto simp: decode_answer_def Let_def split: option.splits if_splits)
  from limited_body_complete [OF assms(2,3) bs(2)] v(1) have "take (nat (wrap64 (m + 1))) bs = bs" by simp
  with v bs(1) show ?thesis by (auto simp: decodeJSON_def Unmarshal_value_def)
qed

lemma fetchJSON_traced:
  assumes "fetchJSON (traced_env env) m e destination (w, log) = (r, w', log')"
  shows "\<exists>answer. log' = log @ [Fetched e answer] \<and> r = decode_answer m destination answer"
  using assms by (auto simp: fetchJSON_def traced_env_def split: prod.splits)

lemma fetchJSON_answered:
  assumes "fetchJSON (traced_env env) m e destination (w, log) = (Inr d, w', log')" "is_int64 m" "0 < m"
  shows "\<exists>v. answered log' e v \<and> destination v = Some d"
proof -
  obtain answer where log': "log' = log @ [Fetched e answer]" and d: "decode_answer m destination answer = Inr d"
    using fetchJSON_traced [OF assms(1)] by metis
  from decode_answer_Inr [OF d assms(2,3)] log' show ?thesis unfolding answered_def by auto
qed

lemma collect_keys_Inr:
  assumes "collect_keys c known encoded = Inr keys" "map_of keys kid = Some k"
  shows "map_of known kid = Some k \<or> (\<exists>jwk \<in> set encoded. parseJWK c jwk = Inr (kid, k))"
  using assms
proof (induction encoded arbitrary: known)
  case (Cons jwk encoded)
  then obtain kid' k' where jwk: "parseJWK c jwk = Inr (kid', k')" "collect_keys c (known @ [(kid', k')]) encoded = Inr keys"
    by (auto split: if_splits)
  from Cons.IH [OF jwk(2) Cons.prems(2)] jwk(1) show ?case by (auto simp: map_add_def split: option.splits if_splits)
qed simp

lemma refresh_traced:
  assumes "refresh (traced_env env) m profile now (w, log) = ((err, profile'), w', log')" "is_int64 m" "0 < m"
    and "ClockRead now \<in> set log"
  shows "\<exists>new. log' = log @ new \<and> is_config profile' = is_config profile
    \<and> (err \<noteq> None \<longrightarrow> profile' = profile)
    \<and> (err = None \<longrightarrow> is_loaded profile' = now \<and> keys_published (oe_crypto env) log' profile')"
proof -
  let ?config = "is_config profile"
  let ?names = "decode_struct False [''issuer'', ''jwks_uri'']"
  obtain r w1 log1 where first: "fetchJSON (traced_env env) m (discoveryURL ?config) ?names (w, log) = (r, w1, log1)"
    by (metis prod_cases3)
  obtain a where log1: "log1 = log @ a" using fetchJSON_traced [OF first] by blast
  show ?thesis
  proof (cases "\<exists>discovery uri. r = Inr discovery \<and> jwks_uri ?config discovery = Inr uri")
    case False
    with assms(1) first log1 show ?thesis
      by (auto simp: refresh_def Let_def split: sum.splits)
  next
    case True
    then obtain discovery uri where r: "r = Inr discovery" "jwks_uri ?config discovery = Inr uri" by blast
    obtain s w2 log2 where second: "fetchJSON (traced_env env) m uri jwks_keys (w1, log1) = (s, w2, log2)"
      by (metis prod_cases3)
    obtain b where log2: "log2 = log1 @ b" using fetchJSON_traced [OF second] by blast
    show ?thesis
    proof (cases "\<exists>encoded keys. s = Inr encoded \<and> key_set (oe_crypto env) ?config encoded = Inr keys")
      case False
      with assms(1) first second log1 log2 r show ?thesis
        by (auto simp: refresh_def Let_def traced_env_def split: sum.splits)
    next
      case True
      then obtain encoded keys where s: "s = Inr encoded" "key_set (oe_crypto env) ?config encoded = Inr keys" by blast
      from fetchJSON_answered [OF first [unfolded r] assms(2,3)] obtain d where
        "answered log1 (discoveryURL ?config) d" "?names d = Some discovery" by blast
      moreover from fetchJSON_answered [OF second [unfolded s] assms(2,3)] obtain j where
        "answered log2 uri j" "jwks_keys j = Some encoded" by blast
      moreover have "collect_keys (oe_crypto env) [] encoded = Inr keys" "int (length encoded) \<le> ic_MaxKeys ?config"
        using s(2) by (simp_all add: key_set_def)
      ultimately have "published (oe_crypto env) ?config log2 kid k" if "map_of keys kid = Some k" for kid k
        unfolding published_def using r(2) collect_keys_Inr [OF _ that] log2 answered_mono by fastforce
      with assms(1,4) first second r s log1 log2 show ?thesis
        by (auto simp: refresh_def Let_def keys_published_def traced_env_def)
    qed
  qed
qed

lemma wrap64_le: "0 \<le> x \<Longrightarrow> wrap64 x \<le> x"
  using zmod_le_nonneg_dividend [of "x + 2 ^ 63" "2 ^ 64"] by (simp add: wrap64_def)

definition bounded_profile :: "IssuerConfig \<Rightarrow> bool" where
  "bounded_profile config \<longleftrightarrow> 0 < ic_RefreshAfter config \<and> 0 \<le> ic_MaxStale config"

lemma key_traced:
  assumes "key (traced_env env) m profile kid (w, log) = ((r, profile'), w', log')" "is_int64 m" "0 < m"
    and "keys_published (oe_crypto env) log profile" "bounded_profile (is_config profile)"
  shows "\<exists>new now. log' = log @ new \<and> ClockRead now \<in> set new \<and> is_config profile' = is_config profile
    \<and> keys_published (oe_crypto env) log' profile'
    \<and> (\<forall>k. r = Inr k \<longrightarrow> map_of (is_keys profile') kid = Some k
         \<and> time_Sub now (is_loaded profile') \<le> ic_RefreshAfter (is_config profile) + ic_MaxStale (is_config profile))"
proof -
  let ?config = "is_config profile" and ?found = "map_of (is_keys profile) kid"
  obtain now w1 where clock: "oe_clock env w = (now, w1)" by (cases "oe_clock env w")
  let ?log1 = "log @ [ClockRead now]" and ?age = "time_Sub now (is_loaded profile)"
  have read: "oe_clock (traced_env env) (w, log) = (now, w1, ?log1)" by (simp add: traced_env_def clock)
  have bound: "0 < ic_RefreshAfter ?config" "0 \<le> ic_MaxStale ?config"
    using assms(5) by (simp_all add: bounded_profile_def)
  show ?thesis
  proof (cases "?found \<noteq> None \<and> \<not> IsZero (is_loaded profile) \<and> ?age \<le> ic_RefreshAfter ?config")
    case True
    with assms(1) read have "r = Inr (the ?found) \<and> profile' = profile \<and> log' = ?log1"
      by (auto simp: key_def Let_def)
    with True bound keys_published_mono [OF assms(4)] show ?thesis
      by (intro exI [of _ "[ClockRead now]"] exI [of _ now]) auto
  next
    case False
    obtain err p2 w2 log2 where refreshed: "refresh (traced_env env) m profile now (w1, ?log1) = ((err, p2), w2, log2)"
      by (metis prod_cases3 surj_pair)
    from refresh_traced [OF this assms(2,3)] have "\<exists>new. log2 = ?log1 @ new \<and> is_config p2 = ?config
      \<and> (err \<noteq> None \<longrightarrow> p2 = profile)
      \<and> (err = None \<longrightarrow> is_loaded p2 = now \<and> keys_published (oe_crypto env) log2 p2)" by simp
    then obtain new where new: "log2 = ?log1 @ new" "is_config p2 = ?config"
      "err \<noteq> None \<longrightarrow> p2 = profile"
      "err = None \<longrightarrow> is_loaded p2 = now \<and> keys_published (oe_crypto env) log2 p2" by blast
    from assms(1) read False refreshed have result: "profile' = p2" "log' = log2" and
      r: "r = (case err of
          None \<Rightarrow> (case map_of (is_keys p2) kid of Some k \<Rightarrow> Inr k | None \<Rightarrow> Inl (invalid (ErrNew ''signing key not found'')))
        | Some e \<Rightarrow>
            if ?found \<noteq> None \<and> \<not> IsZero (is_loaded profile) \<and> ?age \<le> wrap64 (ic_RefreshAfter ?config + ic_MaxStale ?config)
            then Inr (the ?found) else Inl (VerificationError CodeDependencyUnavailable (Some e)))"
      by (auto simp: key_def Let_def split: option.splits)
    have "keys_published (oe_crypto env) log2 p2"
      using new keys_published_mono [OF assms(4), of "[ClockRead now] @ new"] by (cases err) simp_all
    moreover have "map_of (is_keys p2) kid = Some k \<and> time_Sub now (is_loaded p2) \<le> ic_RefreshAfter ?config + ic_MaxStale ?config"
      if "r = Inr k" for k
      using that r new(3,4) bound wrap64_le [of "ic_RefreshAfter ?config + ic_MaxStale ?config"]
      by (auto simp: time_Sub_def min_int64_def max_int64_def split: option.splits if_splits)
    ultimately show ?thesis
      unfolding result using new(1,2) by (intro exI [of _ "[ClockRead now] @ new"] exI [of _ now]) auto
  qed
qed

section \<open>Providers\<close>

text \<open>The profiles of a provider are the configured ones, and their keys are published ones.\<close>

definition configured :: "OIDCConfig \<Rightarrow> string \<Rightarrow> IssuerConfig \<Rightarrow> bool" where
  "configured config name profile \<longleftrightarrow>
     (\<exists>p \<in> set (oc_Issuers config). profile = p\<lparr>ic_Issuer := name\<rparr> \<and> name = TrimSuffix (ic_Issuer p) ''/'')"

definition provider_ok :: "crypto \<Rightarrow> OIDCConfig \<Rightarrow> oidc_event list \<Rightarrow> Provider \<Rightarrow> bool" where
  "provider_ok c config log p \<longleftrightarrow> is_int64 (pv_maxBody p) \<and> 0 < pv_maxBody p
     \<and> (\<forall>(name, i) \<in> set (pv_issuers p). configured config name (is_config i) \<and> bounded_profile (is_config i)
          \<and> keys_published c log i)"

lemma issuer_profile_Inr:
  assumes "issuer_profile insecure seen p = Inr profile"
  shows "profile = p\<lparr>ic_Issuer := TrimSuffix (ic_Issuer p) ''/''\<rparr>" "bounded_profile profile"
  using assms by (auto simp: issuer_profile_def Let_def bounded_profile_def split: option.splits)

lemma add_issuers_Inr:
  assumes "add_issuers insecure known profiles = Inr issuers" "(name, i) \<in> set issuers"
  shows "(name, i) \<in> set known \<or> (is_keys i = [] \<and> bounded_profile (is_config i)
    \<and> (\<exists>p \<in> set profiles. is_config i = p\<lparr>ic_Issuer := name\<rparr> \<and> name = TrimSuffix (ic_Issuer p) ''/''))"
  using assms
proof (induction profiles arbitrary: known)
  case (Cons p profiles)
  then obtain profile where profile: "issuer_profile insecure (map fst known) p = Inr profile"
    "add_issuers insecure (known @ [(ic_Issuer profile, \<lparr>is_config = profile, is_keys = [], is_loaded = 0\<rparr>)]) profiles = Inr issuers"
    by auto
  from Cons.IH [OF profile(2) Cons.prems(2)] issuer_profile_Inr [OF profile(1)] show ?case by auto
qed simp

lemma NewOIDCProvider_ok:
  assumes "NewOIDCProvider config = Inr p" "is_int64 (oc_MaxBodyBytes config)"
  shows "provider_ok c config log p"
proof -
  from assms(1) obtain issuers where issuers: "add_issuers (oc_AllowInsecure config) [] (oc_Issuers config) = Inr issuers"
    "p = \<lparr>pv_maxBody = (if oc_MaxBodyBytes config \<le> 0 then 2 ^ 20 else oc_MaxBodyBytes config), pv_issuers = issuers\<rparr>"
    by (auto simp: NewOIDCProvider_def)
  moreover have "is_int64 (2 ^ 20)" by (simp add: is_int64_def min_int64_def max_int64_def)
  ultimately show ?thesis
    using add_issuers_Inr [OF issuers(1)] assms(2)
    by (auto simp: provider_ok_def keys_published_def configured_def)
qed

lemma provider_ok_mono: "provider_ok c config log p \<Longrightarrow> provider_ok c config (log @ new) p"
  by (auto simp: provider_ok_def keys_published_mono)

lemma provider_ok_put:
  assumes "provider_ok c config log p" "configured config name (is_config i)" "bounded_profile (is_config i)"
    and "keys_published c log i"
  shows "provider_ok c config log (put_issuer p name i)"
  using assms by (auto simp: provider_ok_def put_issuer_def)

lemma map_of_put_issuer:
  assumes "map_of (pv_issuers p) name \<noteq> None"
  shows "map_of (pv_issuers (put_issuer p name i)) name = Some i"
proof -
  have "map_of xs name \<noteq> None \<Longrightarrow> map_of (map (\<lambda>(n, x). (n, if n = name then i else x)) xs) name = Some i" for xs
    by (induction xs) auto
  with assms show ?thesis by (simp add: put_issuer_def)
qed

section \<open>Accepted tokens\<close>

lemma validateClaims_Inr:
  assumes "validateClaims raw config now = Inr claims"
  shows "cl_Issuer claims = ic_Issuer config \<and> cl_Raw claims = raw
    \<and> stringList (map_of raw ''aud'') = Inr (cl_Audience claims)
    \<and> intersects (cl_Audience claims) (ic_Audiences config)
    \<and> (ic_Resources config = [] \<or> intersects (cl_Resources claims) (ic_Resources config))
    \<and> numericDate (map_of raw ''exp'') = Some (cl_ExpiresAt claims)
    \<and> now < time_Add (cl_ExpiresAt claims) (ic_ClockSkew config)
    \<and> (map_of raw ''nbf'' \<noteq> None \<longrightarrow> numericDate (map_of raw ''nbf'') = Some (cl_NotBefore claims)
         \<and> cl_NotBefore claims \<le> time_Add now (ic_ClockSkew config))"
proof -
  let ?date = "\<lambda>name. case map_of raw name of None \<Rightarrow> Some 0 | Some v \<Rightarrow> numericDate (Some v)"
  obtain audience resources where a: "stringList (map_of raw ''aud'') = Inr audience"
    "intersects audience (ic_Audiences config)"
    "ic_Resources config = [] \<or> intersects resources (ic_Resources config)"
    and e: "(case numericDate (map_of raw ''exp'') of
         None \<Rightarrow> Inl (invalid (ErrNew ''token is expired or exp is missing''))
       | Some expires \<Rightarrow>
           ensure (first_err
             [fail_if (\<not> now < time_Add expires (ic_ClockSkew config))
                (invalid (ErrNew ''token is expired or exp is missing'')),
              fail_if (?date ''nbf'' = None \<or> map_of raw ''nbf'' \<noteq> None \<and> time_Add now (ic_ClockSkew config) < the (?date ''nbf''))
                (invalid (ErrNew ''token is not yet valid'')),
              fail_if (?date ''iat'' = None \<or> map_of raw ''iat'' \<noteq> None \<and> time_Add now (ic_ClockSkew config) < the (?date ''iat''))
                (invalid (ErrNew ''token issue time is in the future''))])
           (Inr \<lparr>cl_Issuer = ic_Issuer config,
                 cl_Subject = (case map_of raw ''sub'' of Some (JString s) \<Rightarrow> s | _ \<Rightarrow> []),
                 cl_Audience = audience, cl_Resources = resources, cl_ExpiresAt = expires,
                 cl_NotBefore = the (?date ''nbf''), cl_Raw = raw\<rparr>)) = Inr claims"
    using assms unfolding validateClaims_def Let_def bind_result_Inr ensure_Inr map_error_Inr fail_if_None by blast
  obtain expires where x: "numericDate (map_of raw ''exp'') = Some expires" using e by (cases "numericDate (map_of raw ''exp'')") auto
  have claims: "claims = \<lparr>cl_Issuer = ic_Issuer config,
      cl_Subject = (case map_of raw ''sub'' of Some (JString s) \<Rightarrow> s | _ \<Rightarrow> []),
      cl_Audience = audience, cl_Resources = resources, cl_ExpiresAt = expires,
      cl_NotBefore = the (?date ''nbf''), cl_Raw = raw\<rparr>"
    and "now < time_Add expires (ic_ClockSkew config)"
    and nbf: "?date ''nbf'' \<noteq> None" "map_of raw ''nbf'' = None \<or> \<not> time_Add now (ic_ClockSkew config) < the (?date ''nbf'')"
    using e unfolding x option.case ensure_Inr by (simp_all only: first_err_None) auto
  moreover have "map_of raw ''nbf'' \<noteq> None \<Longrightarrow> numericDate (map_of raw ''nbf'') = Some (the (?date ''nbf''))"
    using nbf(1) by (cases "map_of raw ''nbf''") auto
  ultimately show ?thesis using a x by auto
qed

text \<open>
  What an accepted token shows: its parts, the profile of its issuer, a published key that was loaded
  within the refresh and stale windows, its signature, its audience and resource, and its times.
\<close>

definition accepted_token ::
  "crypto \<Rightarrow> oidc_event list \<Rightarrow> oidc_event list \<Rightarrow> Provider \<Rightarrow> string \<Rightarrow> Claims \<Rightarrow> IssuerConfig \<Rightarrow> bool" where
  "accepted_token c log new p' token claims profile \<longleftrightarrow>
     (\<exists>alg kid message signature k i t now.
        token_parts token = Inr (alg, kid, cl_Raw claims, cl_Issuer claims, message, signature)
      \<and> cl_Issuer claims = TrimSuffix (ic_Issuer profile) ''/'' \<and> alg \<in> set (ic_Algorithms profile)
      \<and> published c (profile\<lparr>ic_Issuer := cl_Issuer claims\<rparr>) (log @ new) kid k
      \<and> verifySignature c alg k message signature = None
      \<and> map_of (pv_issuers p') (cl_Issuer claims) = Some i \<and> map_of (is_keys i) kid = Some k
      \<and> ClockRead (is_loaded i) \<in> set (log @ new) \<and> ClockRead t \<in> set new
      \<and> time_Sub t (is_loaded i) \<le> ic_RefreshAfter profile + ic_MaxStale profile
      \<and> intersects (cl_Audience claims) (ic_Audiences profile)
      \<and> (ic_Resources profile = [] \<or> intersects (cl_Resources claims) (ic_Resources profile))
      \<and> ClockRead now \<in> set new \<and> now < time_Add (cl_ExpiresAt claims) (ic_ClockSkew profile)
      \<and> (map_of (cl_Raw claims) ''nbf'' \<noteq> None \<longrightarrow> cl_NotBefore claims \<le> time_Add now (ic_ClockSkew profile)))"

lemma Verify_traced:
  assumes run: "Verify (traced_env env) p token (w, log) = ((r, p'), w', log')"
    and ok: "provider_ok (oe_crypto env) config log p"
  shows "\<exists>new. log' = log @ new \<and> provider_ok (oe_crypto env) config log' p'
    \<and> (\<forall>claims. r = Inr claims \<longrightarrow>
         (\<exists>profile \<in> set (oc_Issuers config). accepted_token (oe_crypto env) log new p' token claims profile))"
proof (cases "\<exists>alg kid raw name message signature i. token_parts token = Inr (alg, kid, raw, name, message, signature)
    \<and> map_of (pv_issuers p) name = Some i \<and> alg \<in> set (ic_Algorithms (is_config i))")
  case False
  with run ok show ?thesis by (auto simp: Verify_def split: sum.splits option.splits if_splits)
next
  case True
  then obtain alg kid raw name message signature i where
    parts: "token_parts token = Inr (alg, kid, raw, name, message, signature)"
    and i: "map_of (pv_issuers p) name = Some i" "alg \<in> set (ic_Algorithms (is_config i))" by blast
  from ok map_of_SomeD [OF i(1)] have profile: "configured config name (is_config i)" "bounded_profile (is_config i)"
    "keys_published (oe_crypto env) log i" and body: "is_int64 (pv_maxBody p)" "0 < pv_maxBody p"
    by (auto simp: provider_ok_def)
  obtain q i' w1 log1 where key: "key (traced_env env) (pv_maxBody p) i kid (w, log) = ((q, i'), w1, log1)"
    by (metis prod_cases3 surj_pair)
  from key_traced [OF key body profile(3,2)] obtain new t where new: "log1 = log @ new" "ClockRead t \<in> set new"
    "is_config i' = is_config i" "keys_published (oe_crypto env) log1 i'"
    "\<forall>k. q = Inr k \<longrightarrow> map_of (is_keys i') kid = Some k
       \<and> time_Sub t (is_loaded i') \<le> ic_RefreshAfter (is_config i) + ic_MaxStale (is_config i)" by blast
  let ?p = "put_issuer p name i'"
  have ok1: "provider_ok (oe_crypto env) config log1 ?p"
    using provider_ok_put [OF provider_ok_mono [OF ok, of new], of name i'] profile new by simp
  show ?thesis
  proof (cases "\<exists>k. q = Inr k \<and> verifySignature (oe_crypto env) alg k message signature = None")
    case False
    with run parts i key have "p' = ?p" "log' = log1" "\<nexists>claims. r = Inr claims"
      by (auto simp: Verify_def traced_env_def Let_def split: sum.splits option.splits)
    with ok1 new(1) show ?thesis by auto
  next
    case True
    then obtain k where k: "q = Inr k" "verifySignature (oe_crypto env) alg k message signature = None" by blast
    obtain now w2 where clock: "oe_clock env w1 = (now, w2)" by (cases "oe_clock env w1")
    have result: "r = validateClaims raw (is_config i') now" "p' = ?p" "log' = log1 @ [ClockRead now]"
      using run parts i key k clock by (auto simp: Verify_def traced_env_def Let_def)
    obtain profile where c: "profile \<in> set (oc_Issuers config)" "is_config i = profile\<lparr>ic_Issuer := name\<rparr>"
      "name = TrimSuffix (ic_Issuer profile) ''/''" using profile(1) by (auto simp: configured_def)
    have "accepted_token (oe_crypto env) log (new @ [ClockRead now]) p' token claims profile" if "r = Inr claims" for claims
    proof -
      have valid: "validateClaims raw (is_config i) now = Inr claims" using that result(1) new(3) by simp
      have k': "map_of (is_keys i') kid = Some k" using new(5) k(1) by simp
      then have pub: "published (oe_crypto env) (is_config i) (log @ new) kid k" "ClockRead (is_loaded i') \<in> set (log @ new)"
        using new(1,3,4) by (auto simp: keys_published_def)
      have "map_of (pv_issuers p') name = Some i'" using map_of_put_issuer [of p name i'] i(1) result(2) by simp
      moreover have "published (oe_crypto env) (is_config i) (log @ new @ [ClockRead now]) kid k"
        using published_mono [OF pub(1), of "[ClockRead now]"] by simp
      moreover have "time_Sub t (is_loaded i') \<le> ic_RefreshAfter profile + ic_MaxStale profile"
        using new(5) k(1) c(2) by simp
      moreover note validateClaims_Inr [OF valid] parts k(2) k' pub(2) new(2) i(2) c(3)
      ultimately show ?thesis
        unfolding accepted_token_def c(2)
        by (intro exI [of _ alg] exI [of _ kid] exI [of _ message] exI [of _ signature] exI [of _ k] exI [of _ i']
            exI [of _ t] exI [of _ now]) simp
    qed
    with c(1) ok1 result new(1) provider_ok_mono [OF ok1] show ?thesis
      by (intro exI [of _ "new @ [ClockRead now]"]) auto
  qed
qed

fun verify_all :: "'w oidc_env \<Rightarrow> Provider \<Rightarrow> string list \<Rightarrow> 'w \<Rightarrow> Provider \<times> 'w" where
  "verify_all env p [] w = (p, w)"
| "verify_all env p (token # tokens) w = (case Verify env p token w of ((_, p'), w') \<Rightarrow> verify_all env p' tokens w')"

lemma verify_all_traced:
  assumes "verify_all (traced_env env) p tokens (w, log) = (p', w', log')" "provider_ok (oe_crypto env) config log p"
  shows "provider_ok (oe_crypto env) config log' p'"
  using assms
proof (induction tokens arbitrary: p w log)
  case (Cons token tokens)
  obtain r q w1 log1 where step: "Verify (traced_env env) p token (w, log) = ((r, q), w1, log1)"
    by (metis prod_cases3 surj_pair)
  with Verify_traced [OF step Cons.prems(2)] Cons.IH [of q w1 log1] Cons.prems(1) show ?case by auto
qed simp


text \<open>A date near the end of \<open>int64\<close> wraps into the past, so such a token counts as already valid.\<close>

lemma far_not_before_wraps:
  "\<exists>t. numericDate (Some (JNumber ''9223372036854775807'')) = Some t \<and> t < 0"
  by (simp add: numericDate_def ParseInt64_def parse_decimal_def digit_value_def is_digit_def is_int64_def min_int64_def
      max_int64_def wrap64_def unix_epoch_seconds_def)

section \<open>A sample issuer\<close>

definition sample_issuer :: IssuerConfig where
  "sample_issuer = \<lparr>ic_Issuer = ''https://id.example/'', ic_Audiences = [''gateway''], ic_Resources = [],
     ic_Algorithms = [''EdDSA''], ic_RefreshAfter = Minute, ic_MaxStale = 0, ic_ClockSkew = Second, ic_MaxKeys = 2\<rparr>"

definition sample_oidc_config :: OIDCConfig where
  "sample_oidc_config = \<lparr>oc_Issuers = [sample_issuer], oc_Timeout = Some Second, oc_MaxBodyBytes = 200,
     oc_AllowInsecure = False\<rparr>"

definition sample_profile :: IssuerConfig where
  "sample_profile = sample_issuer\<lparr>ic_Issuer := ''https://id.example''\<rparr>"

definition sample_provider :: "(string \<times> PublicKey) list \<Rightarrow> instant \<Rightarrow> Provider" where
  "sample_provider keys loaded = \<lparr>pv_maxBody = 200,
     pv_issuers = [(''https://id.example'', \<lparr>is_config = sample_profile, is_keys = keys, is_loaded = loaded\<rparr>)]\<rparr>"

definition sample_discovery :: json where
  "sample_discovery = JObject [(''issuer'', JString ''https://id.example''), (''jwks_uri'', JString ''https://id.example/keys'')]"

definition sample_jwk :: json where
  "sample_jwk = JObject [(''kty'', JString ''OKP''), (''kid'', JString ''k1''), (''crv'', JString ''Ed25519''),
     (''x'', JString (replicate 43 CHR ''A''))]"

definition sample_jwks :: json where
  "sample_jwks = JObject [(''keys'', JArray [sample_jwk])]"

definition sample_jose :: json where
  "sample_jose = JObject [(''alg'', JString ''EdDSA''), (''kid'', JString ''k1'')]"

definition sample_claims_members :: "(string \<times> json) list" where
  "sample_claims_members = [(''iss'', JString ''https://id.example''), (''aud'', JString ''gateway''),
     (''sub'', JString ''u''), (''exp'', JNumber ''100'')]"

definition json_bytes :: "json \<Rightarrow> bytes" where
  "json_bytes v = bytes_of_string (json_print v)"

definition sample_message :: string where
  "sample_message = b64_encode (json_bytes sample_jose) @ CHR ''.'' # b64_encode (json_bytes (JObject sample_claims_members))"

definition sample_token :: string where
  "sample_token = sample_message @ CHR ''.'' # b64_encode [7]"

definition sample_crypto :: crypto where
  "sample_crypto = \<lparr>cr_on_curve = (\<lambda>_. False), cr_rsa_verify = (\<lambda>_ _ _ _. False), cr_ecdsa_verify = (\<lambda>_ _ _ _. False),
     cr_ed25519_verify = (\<lambda>_ _ s. s = [7])\<rparr>"

definition sample_now :: instant where "sample_now = time_Unix 50"

definition sample_env :: "unit oidc_env" where
  "sample_env = \<lparr>oe_get = (\<lambda>e w. (if e = ''https://id.example/keys'' then Inr (200, Inr (json_bytes sample_jwks))
       else if e = ''https://id.example/.well-known/openid-configuration'' then Inr (200, Inr (json_bytes sample_discovery))
       else Inl (ErrNew ''no route''), w)),
     oe_clock = (\<lambda>w. (sample_now, w)), oe_crypto = sample_crypto\<rparr>"

definition sample_claims :: Claims where
  "sample_claims = \<lparr>cl_Issuer = ''https://id.example'', cl_Subject = ''u'', cl_Audience = [''gateway''], cl_Resources = [],
     cl_ExpiresAt = time_Unix 100, cl_NotBefore = 0, cl_Raw = sample_claims_members\<rparr>"

definition sample_key :: PublicKey where
  "sample_key = Ed25519Key (replicate 32 0)"

lemmas sample_json_defs = sample_discovery_def sample_jwks_def sample_jwk_def sample_jose_def sample_claims_members_def

lemma sample_json_wf:
  "json_wf sample_discovery" "json_wf sample_jwks" "json_wf sample_jose" "json_wf (JObject sample_claims_members)"
  by (simp_all add: sample_json_defs utf8_valid_ascii code_def scan_number_def scan_int_def scan_frac_def scan_exp_def is_digit_def)

lemma sample_json_depth:
  "json_depth sample_discovery \<le> max_depth" "json_depth sample_jwks \<le> max_depth" "json_depth sample_jose \<le> max_depth"
  "json_depth (JObject sample_claims_members) \<le> max_depth"
  by (simp_all add: sample_json_defs max_depth_def)

lemma decodeJSON_bytes: "json_wf v \<Longrightarrow> json_depth v \<le> max_depth \<Longrightarrow> decodeJSON (json_bytes v) = Some v"
  by (simp add: decodeJSON_def json_bytes_def Unmarshal_value_print)

lemma decode_answer_bytes:
  assumes "json_wf v" "json_depth v \<le> max_depth" "int (length (json_print v)) \<le> m" "is_int64 (m + 1)"
  shows "decode_answer m destination (Inr (200, Inr (json_bytes v))) =
    (case destination v of None \<Rightarrow> Inl (ErrTyped ''*json.UnmarshalTypeError'' [] [] None) | Some d \<Rightarrow> Inr d)"
  using assms Decode_value_print [of v "[]"]
  by (simp add: decode_answer_def json_bytes_def Let_def delimited_def skip_ws_def split: option.split)

lemma sample_builds: "NewOIDCProvider sample_oidc_config = Inr (sample_provider [] 0)"
  by code_simp

lemma Split_append: "sep \<notin> set a \<Longrightarrow> Split (a @ sep # b) sep = a # Split b sep"
  by (induction a) (auto split: list.splits)

lemma Split_single: "sep \<notin> set a \<Longrightarrow> Split a sep = [a]"
  by (induction a) auto

lemma Split_three:
  "sep \<notin> set a \<Longrightarrow> sep \<notin> set b \<Longrightarrow> sep \<notin> set c \<Longrightarrow> Split (a @ sep # b @ sep # c) sep = [a, b, c]"
  by (simp add: Split_append Split_single)

lemma sample_lengths:
  "length (json_print sample_discovery) \<le> 200" "length (json_print sample_jwks) \<le> 200"
  "length (json_print sample_jose) \<le> 200" "length (json_print (JObject sample_claims_members)) \<le> 200"
  by (simp_all add: sample_json_defs quote_def quote_body.simps escape_ascii_def code_def eval_nat_numeral)

lemma sample_splits: "splitToken sample_token =
   Inr (json_bytes sample_jose, json_bytes (JObject sample_claims_members), [7], bytes_of_string sample_message)"
proof -
  have "length sample_token \<le> 1000"
    using sample_lengths(3,4) length_b64_encode [of "json_bytes sample_jose"]
      length_b64_encode [of "json_bytes (JObject sample_claims_members)"] length_b64_encode [of "[7]"]
    by (simp add: sample_token_def sample_message_def json_bytes_def)
  moreover have "CHR ''.'' \<notin> set (b64_encode bs)" for bs by (rule b64_encode_no) code_simp
  then have "Split sample_token CHR ''.'' =
      [b64_encode (json_bytes sample_jose), b64_encode (json_bytes (JObject sample_claims_members)), b64_encode [7]]"
    unfolding sample_token_def sample_message_def append_assoc append_Cons by (intro Split_three)
  moreover have "sample_token \<noteq> []" by (simp add: sample_token_def)
  ultimately show ?thesis
    by (simp add: splitToken_def maxTokenBytes_def sample_message_def del: b64_encode.simps)
qed

lemma sample_parts: "token_parts sample_token =
   Inr (''EdDSA'', ''k1'', sample_claims_members, ''https://id.example'', bytes_of_string sample_message, [7])"
proof -
  have "decode_struct True [''alg'', ''kid'', ''typ''] sample_jose = Some ((\<lambda>_. [])(''alg'' := ''EdDSA'', ''kid'' := ''k1''))"
    by (simp add: sample_jose_def decode_struct_def decode_text_def lower_char_def)
  moreover have "claims_map (JObject sample_claims_members) = Some sample_claims_members"
    by (simp add: claims_map_def sample_claims_members_def)
  moreover have "map_of sample_claims_members ''iss'' = Some (JString ''https://id.example'')"
    by (simp add: sample_claims_members_def)
  ultimately show ?thesis
    by (simp add: token_parts_def sample_splits decodeJSON_bytes [OF sample_json_wf(3) sample_json_depth(3)]
        decodeJSON_bytes [OF sample_json_wf(4) sample_json_depth(4)])
qed

lemma sample_fetches:
  "decode_answer 200 (decode_struct False [''issuer'', ''jwks_uri'']) (Inr (200, Inr (json_bytes sample_discovery)))
   = Inr ((\<lambda>_. [])(''issuer'' := ''https://id.example'', ''jwks_uri'' := ''https://id.example/keys''))"
  "decode_answer 200 jwks_keys (Inr (200, Inr (json_bytes sample_jwks))) = Inr [sample_jwk]"
  using sample_lengths
  by (simp_all add: decode_answer_bytes [OF sample_json_wf(1) sample_json_depth(1)]
      decode_answer_bytes [OF sample_json_wf(2) sample_json_depth(2)] is_int64_def min_int64_def max_int64_def)
    (simp_all add: sample_discovery_def sample_jwks_def decode_struct_def decode_text_def lower_char_def jwks_keys_def)

lemma sample_uri:
  "jwks_uri sample_profile ((\<lambda>_. [])(''issuer'' := ''https://id.example'', ''jwks_uri'' := ''https://id.example/keys''))
   = Inr ''https://id.example/keys''"
proof -
  have "url_Parse ''https://id.example/keys'' = Some \<lparr>u_Scheme = ''https'', u_User = False, u_Host = ''id.example'',
      u_Path = ''/keys'', u_RawQuery = [], u_Fragment = []\<rparr>" by code_simp
  then show ?thesis by (simp add: jwks_uri_def sample_profile_def)
qed

lemma b64_encode_zeros: "b64_encode (replicate (2 + n * 3) 0) = replicate (3 + n * 4) CHR ''A''"
proof (induction n)
  case 0
  show ?case by (simp add: Let_def b64_char_def b64_alphabet_def numeral_3_eq_3 numeral_2_eq_2)
next
  case (Suc n)
  have "replicate (2 + Suc n * 3) (0 :: byte) = 0 # 0 # 0 # replicate (2 + n * 3) 0"
    by (simp add: numeral_3_eq_3)
  moreover have "replicate (3 + Suc n * 4) c = c # c # c # c # replicate (3 + n * 4) c" for c :: char
  proof -
    have "3 + Suc n * 4 = Suc (Suc (Suc (Suc (3 + n * 4))))" by simp
    then show ?thesis by (simp only: replicate_Suc)
  qed
  ultimately show ?case using Suc by (simp add: Let_def b64_char_def b64_alphabet_def)
qed

lemma sample_decoded_key: "b64_decode (replicate 43 CHR ''A'') = Some (replicate 32 0)"
  using b64_encode_zeros [of 10] b64_roundtrip [of "replicate 32 0"] by simp

lemma sample_key_set: "key_set sample_crypto sample_profile [sample_jwk] = Inr [(''k1'', sample_key)]"
proof -
  have "parseJWK sample_crypto sample_jwk = Inr (''k1'', sample_key)"
    using sample_decoded_key
    by (simp add: parseJWK_def sample_jwk_def decode_struct_def decode_text_def lower_char_def okp_key_def sample_key_def)
  then show ?thesis by (simp add: key_set_def sample_profile_def sample_issuer_def)
qed

lemma sample_discovery_url: "discoveryURL sample_profile = ''https://id.example/.well-known/openid-configuration''"
  by (simp add: discoveryURL_def sample_profile_def)

lemmas sample_keys = sample_uri sample_key_set sample_discovery_url

lemma sample_claims_valid: "validateClaims sample_claims_members sample_profile sample_now = Inr sample_claims"
  by code_simp

definition sample_log :: "oidc_event list" where
  "sample_log = [ClockRead sample_now,
     Fetched ''https://id.example/.well-known/openid-configuration'' (Inr (200, Inr (json_bytes sample_discovery))),
     Fetched ''https://id.example/keys'' (Inr (200, Inr (json_bytes sample_jwks))), ClockRead sample_now]"

lemma sample_accepts: "Verify (traced_env sample_env) (sample_provider [] 0) sample_token ((), []) =
   ((Inr sample_claims, sample_provider [(''k1'', sample_key)] sample_now), (), sample_log)"
proof -
  let ?i = "\<lparr>is_config = sample_profile, is_keys = [], is_loaded = 0\<rparr>"
  have "refresh (traced_env sample_env) 200 ?i sample_now ((), [ClockRead sample_now]) =
      ((None, ?i\<lparr>is_keys := [(''k1'', sample_key)], is_loaded := sample_now\<rparr>), (), butlast sample_log)"
    by (simp add: refresh_def Let_def fetchJSON_def traced_env_def sample_env_def sample_keys sample_fetches sample_log_def)
  then have key: "key (traced_env sample_env) 200 ?i ''k1'' ((), []) =
      ((Inr sample_key, ?i\<lparr>is_keys := [(''k1'', sample_key)], is_loaded := sample_now\<rparr>), (), butlast sample_log)"
    by (simp add: key_def Let_def) (simp add: traced_env_def sample_env_def)
  have "''EdDSA'' \<in> set (ic_Algorithms sample_profile)" by (simp add: sample_profile_def sample_issuer_def)
  with key show ?thesis
    by (simp add: Verify_def sample_parts sample_provider_def put_issuer_def Let_def)
      (simp add: traced_env_def sample_env_def verifySignature_def sample_key_def sample_crypto_def sample_claims_valid sample_log_def)
qed


end
