(* ===== verification/Pagination_Cursor.thy ===== *)
theory Pagination_Cursor
  imports Domain_Primitives Go_JSON
begin

text \<open>
  Signed pagination cursors (\<open>Cursor\<close>, \<open>EncodeCursor\<close> and \<open>DecodeCursor\<close> of
  \<open>internal/domain/primitives.go\<close>): a JSON payload and its HMAC-SHA-256, both in unpadded URL-safe
  Base64. The decoding of the struct follows \<open>encoding/json\<close>: field names match without regard to
  case, a repeated field overwrites, null leaves a field alone, unknown fields are refused.
\<close>

record Cursor =
  cu_Version :: nat
  cu_After :: string
  cu_Limit :: nat

definition cursor_ok :: "Cursor \<Rightarrow> bool" where
  "cursor_ok c \<longleftrightarrow> cu_Version c = 1 \<and> 1 \<le> cu_Limit c \<and> cu_Limit c \<le> 100 \<and> length (cu_After c) \<le> 256"

definition cursor_json :: "Cursor \<Rightarrow> json" where
  "cursor_json c = JObject [(''v'', JNumber (decimal (cu_Version c))), (''after'', JString (cu_After c)),
     (''limit'', JNumber (decimal (cu_Limit c)))]"

definition EncodeCursor :: "Cursor \<Rightarrow> bytes \<Rightarrow> string result" where
  "EncodeCursor cursor key =
     (if length key < 32 then Inl (ErrNew ''cursor signing key must be at least 32 bytes'')
      else if \<not> cursor_ok cursor then Inl (ErrNew ''invalid cursor'')
      else let payload = bytes_of_string (json_print (cursor_json cursor)) in
        Inr (b64_encode payload @ CHR ''.'' # b64_encode (hmac_sha256 key payload)))"

text \<open>An unsigned field: digits only, in range.\<close>

definition decode_uint :: "nat \<Rightarrow> nat \<Rightarrow> json \<Rightarrow> nat option" where
  "decode_uint bound old v =
     (case v of
        JNull \<Rightarrow> Some old
      | JNumber n \<Rightarrow>
          if n \<noteq> [] \<and> list_all is_digit n \<and> parse_decimal n < bound then Some (parse_decimal n) else None
      | _ \<Rightarrow> None)"

definition decode_field :: "Cursor \<Rightarrow> string \<times> json \<Rightarrow> Cursor option" where
  "decode_field c member =
     (case member of (k, v) \<Rightarrow>
        let name = map lower_char k in
        if name = ''v'' then map_option (\<lambda>n. c\<lparr>cu_Version := n\<rparr>) (decode_uint 256 (cu_Version c) v)
        else if name = ''after'' then map_option (\<lambda>s. c\<lparr>cu_After := s\<rparr>) (decode_text (cu_After c) v)
        else if name = ''limit'' then map_option (\<lambda>n. c\<lparr>cu_Limit := n\<rparr>) (decode_uint 65536 (cu_Limit c) v)
        else None)"

fun decode_fields :: "Cursor \<Rightarrow> (string \<times> json) list \<Rightarrow> Cursor option" where
  "decode_fields c [] = Some c"
| "decode_fields c (m # ms) =
     (case decode_field c m of None \<Rightarrow> None | Some c' \<Rightarrow> decode_fields c' ms)"

definition zero_Cursor :: Cursor where
  "zero_Cursor = \<lparr>cu_Version = 0, cu_After = [], cu_Limit = 0\<rparr>"

definition decode_payload :: "string \<Rightarrow> Cursor option" where
  "decode_payload payload =
     (case Decode_value payload of
        Some (JObject ms, _) \<Rightarrow> decode_fields zero_Cursor ms
      | Some (JNull, _) \<Rightarrow> Some zero_Cursor
      | _ \<Rightarrow> None)"

definition DecodeCursor :: "string \<Rightarrow> bytes \<Rightarrow> Cursor result" where
  "DecodeCursor encoded key =
     (if length key < 32 then Inl (ErrNew ''cursor signing key must be at least 32 bytes'')
      else case Cut encoded CHR ''.'' of (payloadText, signatureText, found) \<Rightarrow>
        if \<not> found \<or> length encoded > 1024 then Inl (ErrNew ''invalid cursor encoding'')
        else (case (b64_decode payloadText, b64_decode signatureText) of
            (Some payload, Some signature) \<Rightarrow>
              if signature \<noteq> hmac_sha256 key payload then Inl (ErrNew ''invalid cursor signature'')
              else (case decode_payload (string_of_bytes payload) of
                  None \<Rightarrow> Inl (ErrNew ''invalid cursor payload'')
                | Some cursor \<Rightarrow>
                    if cursor_ok cursor then Inr cursor else Inl (ErrNew ''invalid cursor''))
          | _ \<Rightarrow> Inl (ErrNew ''invalid cursor encoding'')))"

section \<open>Round trip\<close>

lemma scan_number_decimal [simp]: "scan_number (decimal n) = Some (decimal n, [])"
  using json_wf_Itoa [of "int n"] by (simp add: Itoa_def)

lemma decode_uint_decimal: "n < bound \<Longrightarrow> decode_uint bound old (JNumber (decimal n)) = Some n"
  using decimal_digits [of _ n] by (auto simp: decode_uint_def list_all_iff)

lemma decode_cursor_json:
  assumes "cursor_ok c" "utf8_valid (cu_After c)"
  shows "decode_payload (json_print (cursor_json c)) = Some c"
proof -
  have "json_wf (cursor_json c)" "json_depth (cursor_json c) \<le> max_depth"
    using assms by (simp_all add: cursor_json_def max_depth_def utf8_valid.simps code_def)
  from Decode_value_print [OF this, of "[]"]
  have "Decode_value (json_print (cursor_json c)) = Some (cursor_json c, [])" by (simp add: delimited_def)
  with assms show ?thesis
    by (simp add: decode_payload_def cursor_json_def decode_field_def lower_char_def decode_uint_decimal
        decode_text_def cursor_ok_def zero_Cursor_def)
qed

section \<open>Cursors that cannot be read back\<close>

text \<open>
  Escaping makes six bytes of one: a position of 256 bytes can be signed although its encoding is longer
  than the 1024 characters \<open>DecodeCursor\<close> reads.
\<close>

lemma length_b64_encode_ge: "length bs \<le> length (b64_encode bs)"
  by (induction bs rule: b64_encode.induct) (simp_all add: Let_def)

lemma length_quote_body_lt: "length (quote_body (replicate n CHR ''<'')) = 6 * n"
  by (induction n) (simp_all add: quote_body.simps escape_ascii_def code_def)

lemma escaped_cursor_is_refused:
  assumes "length key \<ge> 32"
  defines "c \<equiv> \<lparr>cu_Version = 1, cu_After = replicate 256 CHR ''<'', cu_Limit = 1\<rparr>"
  shows "\<exists>encoded. EncodeCursor c key = Inr encoded \<and> DecodeCursor encoded key = Inl (ErrNew ''invalid cursor encoding'')"
proof -
  let ?payload = "bytes_of_string (json_print (cursor_json c))"
  let ?encoded = "b64_encode ?payload @ CHR ''.'' # b64_encode (hmac_sha256 key ?payload)"
  have "1536 \<le> length ?payload"
    by (simp add: c_def cursor_json_def quote_def length_quote_body_lt bytes_of_string_def)
  then have "length ?encoded > 1024" using length_b64_encode_ge [of ?payload] by simp
  then have "DecodeCursor ?encoded key = Inl (ErrNew ''invalid cursor encoding'')"
    using assms(1) by (simp add: DecodeCursor_def split: prod.splits)
  moreover have "EncodeCursor c key = Inr ?encoded"
    using assms(1) by (simp add: EncodeCursor_def Let_def cursor_ok_def c_def)
  ultimately show ?thesis by blast
qed

section \<open>Properties\<close>

text \<open>
  C10. A cursor whose position is UTF-8 and whose encoding fits in 1024 characters decodes to itself under
  the key that signed it. Whatever text decodes under a key carries the HMAC of its payload under that key
  and yields a cursor of version 1 with a limit between 1 and 100 and a position of at most 256 bytes.
\<close>

theorem cursor_roundtrip:
  assumes "EncodeCursor cursor key = Inr encoded" "utf8_valid (cu_After cursor)" "length encoded \<le> 1024"
  shows "DecodeCursor encoded key = Inr cursor
    \<and> (\<forall>text c. DecodeCursor text key = Inr c \<longrightarrow> cursor_ok c
         \<and> (\<exists>payload. b64_decode (fst (Cut text CHR ''.'')) = Some payload
              \<and> b64_decode (fst (snd (Cut text CHR ''.''))) = Some (hmac_sha256 key payload)))"
proof
  let ?payload = "bytes_of_string (json_print (cursor_json cursor))"
  from assms(1) have key: "\<not> length key < 32" and ok: "cursor_ok cursor"
    and encoded: "encoded = b64_encode ?payload @ CHR ''.'' # b64_encode (hmac_sha256 key ?payload)"
    by (auto simp: EncodeCursor_def Let_def split: if_splits)
  have "CHR ''.'' \<notin> set b64_alphabet" by (simp add: b64_alphabet_def)
  then have "Cut encoded CHR ''.'' = (b64_encode ?payload, b64_encode (hmac_sha256 key ?payload), True)"
    unfolding encoded using b64_encode_no by (intro Cut_append) blast
  with key ok decode_cursor_json [OF ok assms(2)] assms(3) show "DecodeCursor encoded key = Inr cursor"
    by (simp add: DecodeCursor_def)
  show "\<forall>text c. DecodeCursor text key = Inr c \<longrightarrow> cursor_ok c
     \<and> (\<exists>payload. b64_decode (fst (Cut text CHR ''.'')) = Some payload
          \<and> b64_decode (fst (snd (Cut text CHR ''.''))) = Some (hmac_sha256 key payload))"
    by (auto simp: DecodeCursor_def split: if_splits prod.splits option.splits)
qed

definition sample_cursor :: Cursor where
  "sample_cursor = \<lparr>cu_Version = 1, cu_After = ''github.pulls'', cu_Limit = 20\<rparr>"

theorem cursor_roundtrip_witness:
  "\<exists>encoded. EncodeCursor sample_cursor (replicate 32 7) = Inr encoded
    \<and> DecodeCursor encoded (replicate 32 7) = Inr sample_cursor"
proof -
  let ?key = "replicate 32 (7 :: byte)" and ?payload = "bytes_of_string (json_print (cursor_json sample_cursor))"
  let ?encoded = "b64_encode ?payload @ CHR ''.'' # b64_encode (hmac_sha256 ?key ?payload)"
  have run: "EncodeCursor sample_cursor ?key = Inr ?encoded"
    by (simp add: EncodeCursor_def Let_def cursor_ok_def sample_cursor_def)
  have utf8: "utf8_valid (cu_After sample_cursor)"
    by (simp add: sample_cursor_def utf8_valid.simps code_def)
  have "length ?payload \<le> 100"
    by (simp add: sample_cursor_def cursor_json_def quote_def quote_body.simps escape_ascii_def code_def
        decimal.simps bytes_of_string_def)
  then have "length ?encoded \<le> 1024"
    using length_b64_encode [of ?payload] length_b64_encode [of "hmac_sha256 ?key ?payload"] by simp
  from cursor_roundtrip [OF run utf8 this] run show ?thesis by blast
qed

end
