(* ===== verification/Spec2Isabelle.thy ===== *)
theory Spec2Isabelle
  imports Invocation_State Authorization_Props Canonical_JSON Pg_Ledger Pg_Attempts Pg_Outbox
    Credential_Cache_Props Connector_Routing Schema_Validator Resource_Projection Tool_Calls
    Downstream_HTTP OIDC_Props Pagination_Cursor Tool_Catalog Credential_Binding
begin

text \<open>
  A model of the ThinkPixelTG tool gateway: a service that lets agents call enterprise tools under
  central control. Paths below are relative to \<open>src/\<close>.

  \<^bold>\<open>How the parts interact.\<close> A call arrives over HTTP with a governed context. The tool-call service
  (\<open>internal/app/tool_calls.go\<close>) resolves a published tool version, canonicalises and validates the
  arguments, projects the resource they touch, acquires the logical invocation in the ledger, asks the
  policy service for a decision, records that decision together with its audit event and outbox message,
  and only for an allow hands the call to a connector; the result is completed in the ledger and replayed
  to later calls with the same key. Around it stand the catalogue of tools, the caches of decisions, of
  credentials and of compiled schemas, the PostgreSQL repositories, the fenced attempts of the workers,
  the outbox publisher and the invocation state machine.

  \<^bold>\<open>Conventions.\<close> A Go string is a \<open>string\<close> of bytes, binary data a list of \<open>8 word\<close>; an \<open>int64\<close> is an \<open>int\<close>
  with the wrap-around written out (\<open>wrap64\<close>) where a sum may overflow; an instant is the number of
  nanoseconds since the zero time. An error is a \<open>goerror\<close>, with wrapping, joining and \<open>errors.Is\<close>, and a
  fallible function returns \<open>goerror + 'a\<close>. Code outside the repository (the PostgreSQL driver and server
  clock, JSON Schema compiler, RFC 8785 printer, policy service, credential providers, connectors,
  resolvers and dialers) is an argument of the definitions that use it; what a property needs of it is a
  hypothesis of that property, and a witness instantiates it.

  \<^bold>\<open>Libraries.\<close> \<open>TG_Prelude\<close>: Go's strings, integers, times and the shared combinators; \<open>Go_Bytes\<close>: hex,
  base64, decimal text, SHA-256 and HMAC written out; \<open>Go_JSON\<close>: \<open>encoding/json\<close>
  (decoder, quoting, printing); \<open>Go_Net\<close>: addresses, URLs, host and port, header names; \<open>Go_Regexp\<close>: the anchored patterns of the sources, compiled to a matcher;
  \<open>Domain_Errors\<close>: \<open>internal/domain/errors.go\<close> and the \<open>errors\<close> package; \<open>Contracts\<close>: the interfaces as
  locales (versioned state machines, authorizers, transactional stores), each interpreted on the model's
  own definitions by the theory that provides them.

  \<^bold>\<open>Domain.\<close> \<open>Invocation_State\<close> (\<open>internal/invocationstate/state.go\<close>): the rule table and \<open>Transition\<close>;
  execution only after validation, authorization, pre-checks and a worker fence, approval gates, no blind
  retry of ambiguous outcomes, one winner per version, and a terminal state within two commands.
  \<open>Domain_Primitives\<close> and \<open>Pagination_Cursor\<close> (\<open>internal/domain/primitives.go\<close>): UUIDs, digests, quantities
  and signed cursors with their round trip. \<open>Tool_Catalog\<close> (\<open>tool_catalog.go\<close>): identifiers, SemVer
  precedence, draft and publication checks, life cycle and exposure. \<open>Credential_Binding\<close>
  (\<open>credential_binding.go\<close>) and \<open>Connector_Routing\<close> (\<open>connector_instance.go\<close>, \<open>internal/connectors/registry.go\<close>,
  \<open>internal/app/credential_selection.go\<close>): which connector and credential serve a version, uniquely and
  within the tenant.

  \<^bold>\<open>Authorization.\<close> \<open>Authorization_Port\<close> (\<open>internal/ports/authorization.go\<close>): requests, decisions and their
  validators. \<open>Authorization_App\<close> and \<open>Authorization_Props\<close> (\<open>internal/app/authorization_*.go\<close>,
  \<open>authorized_execution.go\<close>): the freshness cache, live checks of high-risk writes, readiness, narrowing and
  the executor gate; a cached decision is current and bound to its request, narrowing only narrows.

  \<^bold>\<open>Content.\<close> \<open>Canonical_JSON\<close> (\<open>internal/canonicaljson\<close>): the strict bounded parser and canonical digests.
  \<open>Schema_Validator\<close> (\<open>internal/schema\<close>): inspection, limits and the cache of compiled schemas.
  \<open>Resource_Projection\<close> (\<open>internal/resourceprojection\<close>): rules, pointers and typed members.

  \<^bold>\<open>Persistence.\<close> \<open>Pg_Driver\<close> (\<open>errors.go\<close>, \<open>transaction.go\<close>, \<open>tenant_scope.go\<close> of \<open>internal/adapters/postgres\<close>):
  statements, error classes, transactions under every pattern of failures, a lost commit answer included.
  \<open>Pg_Tables\<close>: rows, keys, checks and triggers of the migrations. \<open>Pg_Repositories\<close> (\<open>repositories.go\<close>,
  \<open>tool_versions.go\<close>, \<open>protected_mutation.go\<close>): every method as a statement; protected changes carry evidence.
  \<open>Pg_Acquisition\<close>, \<open>Pg_Attempts\<close>, \<open>Pg_Outbox\<close>, \<open>Pg_Ledger\<close> (\<open>invocation_acquisition.go\<close>,
  \<open>attempt_claiming.go\<close>, \<open>outbox_publisher.go\<close>, \<open>invocation_ledger.go\<close>): leases, fencing, delivery and the
  ledger, as transactions on the tables.

  \<^bold>\<open>Execution.\<close> \<open>Credential_Cache\<close> and \<open>Credential_Cache_Props\<close> (\<open>internal/credentials\<close>): capabilities in an
  object store and the provider cache as a machine over its critical sections, any number of callers
  interleaving. \<open>Tool_Calls\<close> (\<open>internal/app/tool_calls.go\<close>, \<open>internal/ports/invocation.go\<close>): the whole of Create
  and Get over the ports, with the trace of the calls they make.

  \<^bold>\<open>Edges.\<close> \<open>Downstream_HTTP\<close> (\<open>internal/connectors/downstreamhttp/client.go\<close>): the destination policy, checked
  dialling, redirects, bounded bodies and the request operation over any DNS, dialer and server; requests stay
  in the policy, prohibited addresses are never dialled, bodies are complete or refused. \<open>OIDC_Tokens\<close> and
  \<open>OIDC_Props\<close> (\<open>internal/authn/oidc.go\<close>): token verification over any identity provider and clock, with the
  signature primitives as parameters; an accepted token is signed under a key its issuer published.

  \<^bold>\<open>Fuel and bounds.\<close> The JSON parsers take fuel: \<open>Parse_never_runs_out_of_fuel\<close> shows that the length of the
  document is enough for the canonical parser. The regular-expression matcher, the SemVer comparison and
  the pointer walk recurse on their input. The decoder of \<open>Go_JSON\<close> takes one
  more than the length of its input, and \<open>reparses_all\<close> shows that this is enough for every printed value. The
  redirect loop terminates because each redirect uses up the limit of the policy, and reading a body because
  each read consumes some of it. The constants of the sources are kept: 10000 levels of JSON nesting, 32 KiB
  tokens, five redirects, 16 MiB bodies.

  \<^bold>\<open>Not modelled.\<close> The code in \<open>internal/adapters/http/openapi\<close> is generated, and the handlers around it
  (\<open>internal/adapters/http\<close>) translate between its types and the services modelled here. \<open>internal/authn/http.go\<close>,
  \<open>workload.go\<close> and \<open>context.go\<close> work on TLS peer certificates and request contexts; \<open>internal/app/discovery.go\<close>
  lists tools through the same policy port. The policy client (\<open>internal/adapters/thinkpixelag\<close>, except the
  digest the ledger depends on), the credential providers, the GitHub connector and the test doubles are the
  parameters of the services. \<open>internal/config\<close>, \<open>internal/telemetry\<close>, the connection pool, the migration runner
  and \<open>cmd\<close> are start-up and wiring. Panics, goroutine scheduling inside libraries and log output are left out.
\<close>

end
